theory Spec2Isabelle
  imports Complex_Main "HOL-Library.Sublist"
begin

section \<open>Strings: substring test, splitting and joining dotted paths\<close>

text \<open>
  Python's \<^verbatim>\<open>key in name\<close> on two strings: \<^verbatim>\<open>key\<close> occurs in \<^verbatim>\<open>name\<close> as a
  contiguous substring. The empty key occurs in every string.
\<close>

fun contains :: "string \<Rightarrow> string \<Rightarrow> bool" where
  "contains key [] = (key = [])"
| "contains key (c # cs) = (prefix key (c # cs) \<or> contains key cs)"

section \<open>Memory-byte counts (Quantization notebook, IA3 notebook)\<close>

text \<open>
  The tensor memory cell of the Quantization notebook prints
  \<^verbatim>\<open>tensor.element_size() * tensor.nelement()\<close> for a random 100 x 100 tensor in three
  element types. A tensor is its shape and its entries in row-major order; the entries
  are idealised as real numbers (rounding of the floating-point formats is not modelled).
\<close>

record tensor =
  shape :: "nat list"
  entries :: "real list"

datatype dtype = Float32 | Float16 | QInt8

fun element_size :: "dtype \<Rightarrow> nat" where
  "element_size Float32 = 4"
| "element_size Float16 = 2"
| "element_size QInt8 = 1"

definition nelement :: "tensor \<Rightarrow> nat" where
  "nelement t = prod_list (shape t)"

text \<open>
  \<^verbatim>\<open>tensor.to(dtype=...)\<close>, \<^verbatim>\<open>torch.quantize_per_tensor\<close> and \<^verbatim>\<open>int_repr()\<close> change
  the entries elementwise and keep the shape; the conversion of one entry is a parameter.
\<close>

definition convert :: "(real \<Rightarrow> real) \<Rightarrow> tensor \<Rightarrow> tensor" where
  "convert cast t = t\<lparr>entries := map cast (entries t)\<rparr>"

definition memory_bytes :: "dtype \<Rightarrow> tensor \<Rightarrow> nat" where
  "memory_bytes dt t = element_size dt * nelement t"

text \<open>The three numbers the cell prints, for the tensor \<^verbatim>\<open>torch.randn\<close> produced.\<close>

definition tensor_memory_cell ::
  "(real \<Rightarrow> real) \<Rightarrow> (real \<Rightarrow> real) \<Rightarrow> tensor \<Rightarrow> nat \<times> nat \<times> nat" where
  "tensor_memory_cell to_fp16 to_int8 t =
     (let tensor_fp16 = convert to_fp16 t;
          tensor_int8 = convert to_int8 t
      in (memory_bytes Float32 t, memory_bytes Float16 tensor_fp16, memory_bytes QInt8 tensor_int8))"

text \<open>
  \<^verbatim>\<open>calculate_memory_kv_down_proj(batch_size, seq_len, hidden_dim, intermediate_dim)\<close> of
  the IA3 notebook. It reads the notebook global \<^verbatim>\<open>hidden_dim_kv\<close>, which is the first
  argument here. Python integers are unbounded: \<open>int\<close>. The byte count is the local
  \<^verbatim>\<open>total_memory_bytes\<close>; the function returns it divided by \<open>1024 ** 3\<close>.
\<close>

definition total_memory_bytes :: "int \<Rightarrow> int \<Rightarrow> int \<Rightarrow> int \<Rightarrow> int \<Rightarrow> int" where
  "total_memory_bytes hidden_dim_kv batch_size seq_len hidden_dim intermediate_dim =
     (let bytes_per_float = 2;
          kv_proj_memory_bytes = batch_size * seq_len * hidden_dim_kv * bytes_per_float * 2;
          down_proj_memory_bytes =
            (batch_size * seq_len * intermediate_dim + batch_size * seq_len * hidden_dim)
              * bytes_per_float
      in kv_proj_memory_bytes + down_proj_memory_bytes)"

definition calculate_memory_kv_down_proj :: "int \<Rightarrow> int \<Rightarrow> int \<Rightarrow> int \<Rightarrow> int \<Rightarrow> real" where
  "calculate_memory_kv_down_proj hidden_dim_kv batch_size seq_len hidden_dim intermediate_dim =
     real_of_int (total_memory_bytes hidden_dim_kv batch_size seq_len hidden_dim intermediate_dim)
       / (1024 ^ 3)"

section \<open>Freezing all parameters but LoRA's (LoRA notebook)\<close>

text \<open>
  Parameters are objects: a parameter is an address into a store, and one parameter
  object can be registered under several names (tied weights). \<^verbatim>\<open>named_parameters()\<close>
  walks all registrations in order and skips an object it has already yielded;
  \<^verbatim>\<open>parameters()\<close> yields the objects of \<^verbatim>\<open>named_parameters()\<close>.
\<close>

record param =
  requires_grad :: bool
  data :: "real list"

type_synonym addr = nat
type_synonym store = "addr \<Rightarrow> param"

fun named_members :: "addr list \<Rightarrow> (string \<times> addr) list \<Rightarrow> (string \<times> addr) list" where
  "named_members memo [] = []"
| "named_members memo ((name, v) # rest) =
     (if v \<in> set memo then named_members memo rest
      else (name, v) # named_members (v # memo) rest)"

definition named_parameters :: "(string \<times> addr) list \<Rightarrow> (string \<times> addr) list" where
  "named_parameters registered = named_members [] registered"

definition parameters :: "(string \<times> addr) list \<Rightarrow> addr list" where
  "parameters registered = map snd (named_parameters registered)"

text \<open>The two loops of \<^verbatim>\<open>mark_only_lora_as_trainable\<close>, each passing the store along.\<close>

fun freeze_all :: "addr list \<Rightarrow> store \<Rightarrow> store" where
  "freeze_all [] s = s"
| "freeze_all (p # ps) s = freeze_all ps (s(p := (s p)\<lparr>requires_grad := False\<rparr>))"

fun enable_lora :: "(string \<times> addr) list \<Rightarrow> store \<Rightarrow> store" where
  "enable_lora [] s = s"
| "enable_lora ((name, p) # rest) s =
     (if contains ''lora_A'' name \<or> contains ''lora_B'' name
      then enable_lora rest (s(p := (s p)\<lparr>requires_grad := True\<rparr>))
      else enable_lora rest s)"

definition mark_only_lora_as_trainable :: "(string \<times> addr) list \<Rightarrow> store \<Rightarrow> store" where
  "mark_only_lora_as_trainable registered s =
     enable_lora (named_parameters registered) (freeze_all (parameters registered) s)"

section \<open>Tensors and the operations the adapters call\<close>

text \<open>
  What the adapters use of the tensor library, on tensors given by shape and row-major
  entries. A tensor is well formed when it has as many entries as its shape says. Shape
  errors are RuntimeErrors, as in the library. Entries are real numbers: exact
  arithmetic stands for the floating-point formats, and the cast to bfloat16 in
  \<^verbatim>\<open>LoRAAdapter.forward\<close> keeps the entries.
\<close>

datatype error = AttributeError | RuntimeError | ValueError | OtherError string

definition valid :: "tensor \<Rightarrow> bool" where
  "valid t \<longleftrightarrow> length (entries t) = prod_list (shape t)"

text \<open>The \<open>i\<close>-th block of \<open>n\<close> consecutive entries: a row of a matrix with \<open>n\<close> columns.\<close>

definition chunk :: "nat \<Rightarrow> nat \<Rightarrow> 'a list \<Rightarrow> 'a list" where
  "chunk n i xs = take n (drop (i * n) xs)"

definition dot :: "real list \<Rightarrow> real list \<Rightarrow> real" where
  "dot u v = sum_list (map2 (*) u v)"

text \<open>
  Broadcasting, as \<^verbatim>\<open>torch.mul\<close> and \<^verbatim>\<open>+\<close> do it on the entries: the shorter shape is padded with
  ones on the left; two sizes are compatible when they are equal or one of them is 1;
  a dimension of size 1 is repeated. \<open>src_index out s k\<close> is the position, in an operand
  of (padded) shape \<open>s\<close>, of the entry used at position \<open>k\<close> of the result of shape \<open>out\<close>.
\<close>

definition pad_shape :: "nat \<Rightarrow> nat list \<Rightarrow> nat list" where
  "pad_shape n s = replicate (n - length s) 1 @ s"

fun broadcast_shape :: "nat list \<Rightarrow> nat list \<Rightarrow> nat list option" where
  "broadcast_shape [] [] = Some []"
| "broadcast_shape (a # as) (b # bs) =
     (if a = b \<or> a = 1 \<or> b = 1
      then map_option ((#) (if a = 1 then b else a)) (broadcast_shape as bs)
      else None)"
| "broadcast_shape _ _ = None"

fun src_index :: "nat list \<Rightarrow> nat list \<Rightarrow> nat \<Rightarrow> nat" where
  "src_index (d # ds) (s # ss) k =
     (if s = 1 then 0 else k div prod_list ds) * prod_list ss
       + src_index ds ss (k mod prod_list ds)"
| "src_index _ _ k = 0"

definition broadcast :: "(real \<Rightarrow> real \<Rightarrow> real) \<Rightarrow> tensor \<Rightarrow> tensor \<Rightarrow> error + tensor" where
  "broadcast f x y =
     (let n = max (length (shape x)) (length (shape y));
          sx = pad_shape n (shape x);
          sy = pad_shape n (shape y)
      in case broadcast_shape sx sy of
           None \<Rightarrow> Inl RuntimeError
         | Some s \<Rightarrow> Inr \<lparr>shape = s,
             entries = map (\<lambda>k. f (entries x ! src_index s sx k) (entries y ! src_index s sy k))
                           [0..<prod_list s]\<rparr>)"

definition torch_add :: "tensor \<Rightarrow> tensor \<Rightarrow> error + tensor" where
  "torch_add = broadcast (+)"

text \<open>Multiplication by a Python number.\<close>

definition scale :: "real \<Rightarrow> tensor \<Rightarrow> tensor" where
  "scale c t = t\<lparr>entries := map ((*) c) (entries t)\<rparr>"

text \<open>\<^verbatim>\<open>torch.ones(shape)\<close>, \<^verbatim>\<open>t.view(-1)\<close>, \<^verbatim>\<open>t.squeeze()\<close>.\<close>

definition ones :: "nat list \<Rightarrow> tensor" where
  "ones s = \<lparr>shape = s, entries = replicate (prod_list s) 1\<rparr>"

definition view_flat :: "tensor \<Rightarrow> tensor" where
  "view_flat t = t\<lparr>shape := [prod_list (shape t)]\<rparr>"

definition squeeze :: "tensor \<Rightarrow> tensor" where
  "squeeze t = t\<lparr>shape := filter (\<lambda>d. d \<noteq> 1) (shape t)\<rparr>"

text \<open>
  \<^verbatim>\<open>x.view(-1, n)\<close>: the entries regrouped in rows of \<open>n\<close>; an error when the number of
  entries is not a multiple of \<open>n\<close>, or when \<open>n = 0\<close> (the row count cannot be inferred).
\<close>

definition view_rows :: "tensor \<Rightarrow> nat \<Rightarrow> error + tensor" where
  "view_rows t n =
     (if n = 0 \<or> prod_list (shape t) mod n \<noteq> 0 then Inl RuntimeError
      else Inr (t\<lparr>shape := [prod_list (shape t) div n, n]\<rparr>))"

text \<open>\<^verbatim>\<open>t.T\<close> of a matrix.\<close>

definition transpose_t :: "tensor \<Rightarrow> error + tensor" where
  "transpose_t t =
     (case shape t of
        [m, n] \<Rightarrow> Inr \<lparr>shape = [n, m],
                   entries = map (\<lambda>k. entries t ! ((k mod m) * n + k div m)) [0..<n * m]\<rparr>
      | _ \<Rightarrow> Inl RuntimeError)"

text \<open>
  \<^verbatim>\<open>torch.diag\<close>: the diagonal matrix of a vector, the diagonal of a matrix.
\<close>

definition diag :: "tensor \<Rightarrow> error + tensor" where
  "diag v =
     (case shape v of
        [n] \<Rightarrow> Inr \<lparr>shape = [n, n],
                entries = map (\<lambda>k. if k div n = k mod n then entries v ! (k div n) else 0)
                              [0..<n * n]\<rparr>
      | [m, n] \<Rightarrow> Inr \<lparr>shape = [min m n],
                   entries = map (\<lambda>i. entries v ! (i * n + i)) [0..<min m n]\<rparr>
      | _ \<Rightarrow> Inl RuntimeError)"

text \<open>The product \<^verbatim>\<open>a @ b\<close> (\<^verbatim>\<open>torch.matmul\<close>) of two matrices.\<close>

definition matmul :: "tensor \<Rightarrow> tensor \<Rightarrow> error + tensor" where
  "matmul a b =
     (case (shape a, shape b) of
        ([m, k], [k', n]) \<Rightarrow>
          if k = k'
          then Inr \<lparr>shape = [m, n],
                 entries = map (\<lambda>q. sum_list (map (\<lambda>l. entries a ! ((q div n) * k + l)
                                                       * entries b ! (l * n + q mod n)) [0..<k]))
                               [0..<m * n]\<rparr>
          else Inl RuntimeError
      | _ \<Rightarrow> Inl RuntimeError)"

text \<open>
  \<^verbatim>\<open>F.linear(x, weight, bias)\<close>: \<open>x\<close> of shape \<open>(*, in)\<close>, the weight of shape
  \<open>(out, in)\<close>, the bias of shape \<open>(out)\<close> or absent; every row \<open>r\<close> of \<open>x\<close> becomes
  \<open>weight r + bias\<close>.
\<close>

definition bias_at :: "tensor option \<Rightarrow> nat \<Rightarrow> real" where
  "bias_at b j = (case b of None \<Rightarrow> 0 | Some bt \<Rightarrow> entries bt ! j)"

definition F_linear :: "tensor \<Rightarrow> tensor \<Rightarrow> tensor option \<Rightarrow> error + tensor" where
  "F_linear x w b =
     (case shape w of
        [n_out, n_in] \<Rightarrow>
          if shape x = [] \<or> last (shape x) \<noteq> n_in then Inl RuntimeError
          else if (case b of None \<Rightarrow> False | Some bt \<Rightarrow> shape bt \<noteq> [n_out]) then Inl RuntimeError
          else Inr \<lparr>shape = butlast (shape x) @ [n_out],
                 entries = map (\<lambda>k. dot (chunk n_in (k mod n_out) (entries w))
                                           (chunk n_in (k div n_out) (entries x))
                                       + bias_at b (k mod n_out))
                               [0..<prod_list (butlast (shape x)) * n_out]\<rparr>
      | _ \<Rightarrow> Inl RuntimeError)"

text \<open>An \<^verbatim>\<open>nn.Linear\<close> layer: its weight and its optional bias.\<close>

record linear =
  weight :: tensor
  bias :: "tensor option"

definition linear_forward :: "linear \<Rightarrow> tensor \<Rightarrow> error + tensor" where
  "linear_forward l x = F_linear x (weight l) (bias l)"

text \<open>
  A well-formed linear layer with \<open>n_out\<close> outputs and \<open>n_in\<close> inputs.
\<close>

definition linear_ok :: "linear \<Rightarrow> nat \<Rightarrow> nat \<Rightarrow> bool" where
  "linear_ok l n_out n_in \<longleftrightarrow>
     valid (weight l) \<and> shape (weight l) = [n_out, n_in] \<and>
     (case bias l of None \<Rightarrow> True | Some b \<Rightarrow> valid b \<and> shape b = [n_out])"

section \<open>The IA3 adapters (IA3 notebook)\<close>

text \<open>
  Element types. \<^verbatim>\<open>torch.ones\<close> creates \<^verbatim>\<open>ia3_lw\<close> as a float32 tensor, and what the
  wrapped layer accepts depends on the element type of its input, so for the IA3
  adapters a tensor goes with its element type. \<^verbatim>\<open>torch.mul\<close> gives the promoted type of
  its operands (\<^verbatim>\<open>torch.promote_types\<close>): an integer type gives way to a floating-point
  type, float16 and bfloat16 meet in float32, and otherwise the wider type wins.
  \<^verbatim>\<open>F.linear\<close> and \<^verbatim>\<open>@\<close> need operands of one element type and raise a RuntimeError
  otherwise. The entries stay real numbers; a conversion to a wider floating-point type
  and a multiplication by one change no entry.
\<close>

datatype scalar_type = torch_int64 | torch_float16 | torch_bfloat16 | torch_float32 | torch_float64

definition promote_types :: "scalar_type \<Rightarrow> scalar_type \<Rightarrow> scalar_type" where
  "promote_types a b =
     (if a = b then a
      else if a = torch_int64 then b
      else if b = torch_int64 then a
      else if a = torch_float64 \<or> b = torch_float64 then torch_float64
      else torch_float32)"

record typed_tensor =
  element_type :: scalar_type
  tensor_of :: tensor

definition torch_mul :: "typed_tensor \<Rightarrow> typed_tensor \<Rightarrow> error + typed_tensor" where
  "torch_mul x y =
     (case broadcast (*) (tensor_of x) (tensor_of y) of
        Inl e \<Rightarrow> Inl e
      | Inr t \<Rightarrow> Inr \<lparr>element_type = promote_types (element_type x) (element_type y),
                       tensor_of = t\<rparr>)"

definition torch_ones :: "nat list \<Rightarrow> typed_tensor" where
  "torch_ones s = \<lparr>element_type = torch_float32, tensor_of = ones s\<rparr>"

text \<open>The element types that promotion with the float32 of \<^verbatim>\<open>ia3_lw\<close> leaves unchanged.\<close>

definition keeps_type :: "typed_tensor \<Rightarrow> bool" where
  "keeps_type x \<longleftrightarrow> promote_types (element_type x) torch_float32 = element_type x"

text \<open>
  Operations that keep the element type (\<^verbatim>\<open>view\<close>, \<^verbatim>\<open>squeeze\<close>, \<^verbatim>\<open>torch.diag\<close>), and the
  matrix product and \<^verbatim>\<open>F.linear\<close> on operands of one element type.
\<close>

definition keep_type :: "(tensor \<Rightarrow> tensor) \<Rightarrow> typed_tensor \<Rightarrow> typed_tensor" where
  "keep_type f x = x\<lparr>tensor_of := f (tensor_of x)\<rparr>"

definition torch_diag :: "typed_tensor \<Rightarrow> error + typed_tensor" where
  "torch_diag v =
     (case diag (tensor_of v) of
        Inl e \<Rightarrow> Inl e
      | Inr t \<Rightarrow> Inr (v\<lparr>tensor_of := t\<rparr>))"

definition torch_matmul :: "typed_tensor \<Rightarrow> typed_tensor \<Rightarrow> error + typed_tensor" where
  "torch_matmul a b =
     (if element_type a \<noteq> element_type b then Inl RuntimeError
      else case matmul (tensor_of a) (tensor_of b) of
             Inl e \<Rightarrow> Inl e
           | Inr t \<Rightarrow> Inr (a\<lparr>tensor_of := t\<rparr>))"

definition torch_linear ::
  "typed_tensor \<Rightarrow> typed_tensor \<Rightarrow> typed_tensor option \<Rightarrow> error + typed_tensor" where
  "torch_linear x w b =
     (if element_type x \<noteq> element_type w
         \<or> (case b of None \<Rightarrow> False | Some bt \<Rightarrow> element_type bt \<noteq> element_type w)
      then Inl RuntimeError
      else case F_linear (tensor_of x) (tensor_of w) (map_option tensor_of b) of
             Inl e \<Rightarrow> Inl e
           | Inr t \<Rightarrow> Inr \<lparr>element_type = element_type w, tensor_of = t\<rparr>)"

text \<open>An \<^verbatim>\<open>nn.Linear\<close> layer with parameters of an element type.\<close>

record nn_Linear =
  linear_weight :: typed_tensor
  linear_bias :: "typed_tensor option"

definition nn_Linear_forward :: "nn_Linear \<Rightarrow> typed_tensor \<Rightarrow> error + typed_tensor" where
  "nn_Linear_forward l x = torch_linear x (linear_weight l) (linear_bias l)"

text \<open>
  \<^verbatim>\<open>IA3Adapter1\<close> wraps any layer, a function from the input to an output or an error,
  and scales activations. \<^verbatim>\<open>__init__\<close> sets \<^verbatim>\<open>ia3_lw\<close> to float32 ones of shape
  \<open>(1, out_features)\<close>, or \<open>(1, in_features)\<close> when \<^verbatim>\<open>is_feedforward\<close>.
\<close>

record IA3Adapter1 =
  existing_layer :: "typed_tensor \<Rightarrow> error + typed_tensor"
  is_feedforward :: bool
  in_features :: nat
  out_features :: nat
  ia3_lw :: typed_tensor

definition IA3Adapter1_init ::
  "(typed_tensor \<Rightarrow> error + typed_tensor) \<Rightarrow> nat \<Rightarrow> nat \<Rightarrow> bool \<Rightarrow> IA3Adapter1" where
  "IA3Adapter1_init layer n_in n_out ff =
     \<lparr>existing_layer = layer, is_feedforward = ff, in_features = n_in, out_features = n_out,
      ia3_lw = (if \<not> ff then torch_ones [1, n_out] else torch_ones [1, n_in])\<rparr>"

definition IA3Adapter1_forward :: "IA3Adapter1 \<Rightarrow> typed_tensor \<Rightarrow> error + typed_tensor" where
  "IA3Adapter1_forward self x =
     (if \<not> is_feedforward self
      then (case existing_layer self x of
              Inl e \<Rightarrow> Inl e
            | Inr result \<Rightarrow> torch_mul result (ia3_lw self))
      else (case torch_mul x (ia3_lw self) of
              Inl e \<Rightarrow> Inl e
            | Inr result \<Rightarrow> existing_layer self result))"

text \<open>
  \<^verbatim>\<open>IA3Adapter2\<close> is written to fold the scaling into weight and bias. Its
  \<^verbatim>\<open>get_equivalent_weight\<close> and \<^verbatim>\<open>get_equivalent_bias\<close> begin with \<^verbatim>\<open>self.get_weight()\<close>
  and \<^verbatim>\<open>self.get_bias()\<close>. The class defines neither method and \<^verbatim>\<open>nn.Module\<close> has none, so
  looking the attribute up raises AttributeError (\<^verbatim>\<open>nn.Module.__getattr__\<close>); the comment
  above the class says \<^verbatim>\<open>should not compile\<close>. \<^verbatim>\<open>forward\<close> evaluates the arguments of
  \<^verbatim>\<open>F.linear\<close> from left to right.
\<close>

record IA3Adapter2 =
  wrapped :: nn_Linear
  is_feedforward2 :: bool
  ia3_lw2 :: typed_tensor

definition IA3Adapter2_init :: "nn_Linear \<Rightarrow> nat \<Rightarrow> nat \<Rightarrow> bool \<Rightarrow> IA3Adapter2" where
  "IA3Adapter2_init layer n_in n_out ff =
     \<lparr>wrapped = layer, is_feedforward2 = ff,
      ia3_lw2 = (if \<not> ff then torch_ones [1, n_out] else torch_ones [1, n_in])\<rparr>"

definition get_weight :: "IA3Adapter2 \<Rightarrow> error + typed_tensor" where
  "get_weight self = Inl AttributeError"

definition get_bias :: "IA3Adapter2 \<Rightarrow> error + typed_tensor option" where
  "get_bias self = Inl AttributeError"

definition get_equivalent_weight :: "IA3Adapter2 \<Rightarrow> error + typed_tensor" where
  "get_equivalent_weight self =
     (case get_weight self of
        Inl e \<Rightarrow> Inl e
      | Inr mat \<Rightarrow>
          (case torch_diag (keep_type view_flat (ia3_lw2 self)) of
             Inl e \<Rightarrow> Inl e
           | Inr d \<Rightarrow> if \<not> is_feedforward2 self then torch_matmul d mat else torch_matmul mat d))"

definition get_equivalent_bias :: "IA3Adapter2 \<Rightarrow> error + typed_tensor option" where
  "get_equivalent_bias self =
     (case get_bias self of
        Inl e \<Rightarrow> Inl e
      | Inr None \<Rightarrow> Inr None
      | Inr (Some mat) \<Rightarrow>
          if \<not> is_feedforward2 self
          then (case torch_mul mat (keep_type squeeze (ia3_lw2 self)) of
                  Inl e \<Rightarrow> Inl e
                | Inr ret_bias \<Rightarrow> Inr (Some ret_bias))
          else Inr (Some mat))"

definition IA3Adapter2_forward :: "IA3Adapter2 \<Rightarrow> typed_tensor \<Rightarrow> error + typed_tensor" where
  "IA3Adapter2_forward self x =
     (case get_equivalent_weight self of
        Inl e \<Rightarrow> Inl e
      | Inr w \<Rightarrow>
          (case get_equivalent_bias self of
             Inl e \<Rightarrow> Inl e
           | Inr b \<Rightarrow> torch_linear x w b))"

section \<open>The LoRA adapter (LoRA notebook)\<close>

text \<open>
  \<^verbatim>\<open>LoRALayer.__init__\<close> keeps \<^verbatim>\<open>nn.Dropout(p)\<close> when \<^verbatim>\<open>lora_dropout > 0\<close> and the
  identity otherwise; the random mask of \<^verbatim>\<open>nn.Dropout\<close> is a parameter, a function on
  tensors. \<^verbatim>\<open>LoRAAdapter.__init__\<close> creates \<^verbatim>\<open>lora_A\<close> of shape \<open>(r, in_features)\<close>,
  \<^verbatim>\<open>lora_B\<close> of shape \<open>(out_features, r)\<close> and \<^verbatim>\<open>scaling = lora_alpha / r\<close> when \<open>r > 0\<close>.
\<close>

record LoRAAdapter =
  lora_existing_layer :: "tensor \<Rightarrow> error + tensor"
  lora_rank :: int
  lora_alpha :: int
  lora_dropout :: "tensor \<Rightarrow> tensor"
  lora_A :: tensor
  lora_B :: tensor
  scaling :: real

definition LoRALayer_dropout :: "real \<Rightarrow> (tensor \<Rightarrow> tensor) \<Rightarrow> tensor \<Rightarrow> tensor" where
  "LoRALayer_dropout p nn_Dropout = (if p > 0 then nn_Dropout else (\<lambda>x. x))"

definition LoRAAdapter_forward :: "LoRAAdapter \<Rightarrow> tensor \<Rightarrow> error + tensor" where
  "LoRAAdapter_forward self x =
     (if lora_rank self > 0 then
        (case shape x of
           [batch_size, seq_len, n_features] \<Rightarrow>
             (case view_rows x n_features of Inl e \<Rightarrow> Inl e | Inr x2 \<Rightarrow>
              case transpose_t x2 of Inl e \<Rightarrow> Inl e | Inr xT \<Rightarrow>
              case matmul (lora_A self) xT of Inl e \<Rightarrow> Inl e | Inr lora_out1 \<Rightarrow>
              case matmul (lora_B self) lora_out1 of Inl e \<Rightarrow> Inl e | Inr lora_out2 \<Rightarrow>
              case transpose_t lora_out2 of Inl e \<Rightarrow> Inl e | Inr lora_out3 \<Rightarrow>
                let lora_out = lora_dropout self (scale (scaling self) lora_out3) in
                case lora_existing_layer self x2 of Inl e \<Rightarrow> Inl e | Inr y \<Rightarrow>
                  torch_add y lora_out)
         | _ \<Rightarrow> Inl ValueError)
      else lora_existing_layer self x)"

section \<open>The module tree and adapter injection (IA3 and LoRA notebooks)\<close>

text \<open>
  A model is a tree of modules. A module carries its own data \<open>info\<close> (its identity, its
  class, its parameters and plain attributes) and the ordered dictionary \<^verbatim>\<open>_modules\<close> of its
  named children. Two assumptions are built into the type: no module object is shared
  between two parents, and module-valued attributes are the only attributes the path
  functions meet. In-place assignment then is an update of the tree, which every function
  below returns.
\<close>

datatype 'a module = Module (info: 'a) (children: "(string \<times> 'a module) list")

text \<open>Python's \<^verbatim>\<open>path.split('.')\<close>: never empty, \<^verbatim>\<open>''.split('.') == ['']\<close>.\<close>

fun split_dot :: "string \<Rightarrow> string list" where
  "split_dot [] = [[]]"
| "split_dot (c # cs) =
     (if c = CHR ''.'' then [] # split_dot cs
      else (case split_dot cs of w # ws \<Rightarrow> (c # w) # ws | [] \<Rightarrow> [[c]]))"

text \<open>
  \<^verbatim>\<open>getattr(parent, sub)\<close> finds the child registered under \<open>sub\<close> or raises
  AttributeError; \<^verbatim>\<open>setattr(parent, name, new_module)\<close> with a module value stores it in
  \<^verbatim>\<open>_modules\<close>: in the place of the entry of that name, or as a new last entry. This is
  what \<^verbatim>\<open>nn.Module\<close> does at the name of a child module and at a name nothing holds. A name
  held by a parameter, where the assignment raises TypeError, or by a method or another
  attribute of the class, which \<^verbatim>\<open>getattr\<close> finds before any child, is not in the tree; the
  properties below are stated for the paths of child modules.
\<close>

definition getattr :: "'a module \<Rightarrow> string \<Rightarrow> error + 'a module" where
  "getattr parent sub =
     (case map_of (children parent) sub of None \<Rightarrow> Inl AttributeError | Some c \<Rightarrow> Inr c)"

fun assign :: "string \<Rightarrow> 'a module \<Rightarrow> (string \<times> 'a module) list \<Rightarrow> (string \<times> 'a module) list" where
  "assign name v [] = [(name, v)]"
| "assign name v ((n, c) # rest) =
     (if n = name then (name, v) # rest else (n, c) # assign name v rest)"

definition setattr :: "'a module \<Rightarrow> string \<Rightarrow> 'a module \<Rightarrow> 'a module" where
  "setattr parent name v = Module (info parent) (assign name v (children parent))"

text \<open>
  \<^verbatim>\<open>model.named_modules()\<close>: the module itself under the current prefix, then the
  modules of each child under \<^verbatim>\<open>prefix + ('.' if prefix else '') + name\<close>, depth first.
\<close>

definition child_name :: "string \<Rightarrow> string \<Rightarrow> string" where
  "child_name pfx name = pfx @ (if pfx = [] then [] else ''.'') @ name"

fun named_modules :: "string \<Rightarrow> 'a module \<Rightarrow> (string \<times> 'a module) list" where
  "named_modules pfx (Module i cs) =
     (pfx, Module i cs) #
     concat (map (\<lambda>nc. named_modules (child_name pfx (fst nc)) (snd nc)) cs)"

definition match_submodules :: "'a module \<Rightarrow> string \<Rightarrow> string list" where
  "match_submodules model key =
     map fst (filter (\<lambda>nm. contains key (fst nm)) (named_modules [] model))"

text \<open>
  \<^verbatim>\<open>model.get_submodule(target)\<close>: the model itself for the empty target, otherwise
  the walk along the atoms of the target.
\<close>

fun get_atoms :: "'a module \<Rightarrow> string list \<Rightarrow> error + 'a module" where
  "get_atoms m [] = Inr m"
| "get_atoms m (item # atoms) =
     (case getattr m item of Inl e \<Rightarrow> Inl e | Inr c \<Rightarrow> get_atoms c atoms)"

definition get_submodule :: "'a module \<Rightarrow> string \<Rightarrow> error + 'a module" where
  "get_submodule model target =
     (if target = [] then Inr model else get_atoms model (split_dot target))"

text \<open>
  \<^verbatim>\<open>replace_submodule\<close>: \<^verbatim>\<open>getattr\<close> along all atoms but the last, then \<^verbatim>\<open>setattr\<close> of
  the last atom on the parent reached. The parent is changed in place, so each module on
  the way holds the changed child under the same name. When a \<^verbatim>\<open>getattr\<close> fails nothing
  has been assigned.
\<close>

fun replace_atoms :: "'a module \<Rightarrow> string list \<Rightarrow> string \<Rightarrow> 'a module \<Rightarrow> error + 'a module" where
  "replace_atoms parent_module [] final new_module = Inr (setattr parent_module final new_module)"
| "replace_atoms parent_module (sub # subs) final new_module =
     (case getattr parent_module sub of
        Inl e \<Rightarrow> Inl e
      | Inr child \<Rightarrow>
          (case replace_atoms child subs final new_module of
             Inl e \<Rightarrow> Inl e
           | Inr child' \<Rightarrow> Inr (setattr parent_module sub child')))"

definition replace_submodule :: "'a module \<Rightarrow> string \<Rightarrow> 'a module \<Rightarrow> error + 'a module" where
  "replace_submodule model module_path new_module =
     (let modules = split_dot module_path
      in replace_atoms model (butlast modules) (last modules) new_module)"

text \<open>
  \<^verbatim>\<open>inject_adapter\<close> of the IA3 notebook. The adapter function is any function from a
  module to a new module or an exception; it does not change the model itself, and moving
  the new module to the device changes no structure. The state of the loops is the model
  and the set \<^verbatim>\<open>processed_modules\<close>; a run ends with the exception raised, if any, and
  the state reached.
\<close>

fun inject_paths ::
  "('a module \<Rightarrow> error + 'a module) \<Rightarrow> string list \<Rightarrow> 'a module \<Rightarrow> string set
     \<Rightarrow> error option \<times> 'a module \<times> string set" where
  "inject_paths adapter_fn [] model processed = (None, model, processed)"
| "inject_paths adapter_fn (module_path # rest) model processed =
     (if module_path \<in> processed then inject_paths adapter_fn rest model processed
      else case get_submodule model module_path of
        Inl e \<Rightarrow> (Some e, model, processed)
      | Inr current_module \<Rightarrow>
         (case adapter_fn current_module of
            Inl e \<Rightarrow> (Some e, model, processed)
          | Inr new_module \<Rightarrow>
             (case replace_submodule model module_path new_module of
                Inl e \<Rightarrow> (Some e, model, processed)
              | Inr model' \<Rightarrow>
                  inject_paths adapter_fn rest model' (insert module_path processed))))"

fun inject_keys ::
  "('a module \<Rightarrow> error + 'a module) \<Rightarrow> string list \<Rightarrow> 'a module \<Rightarrow> string set
     \<Rightarrow> error option \<times> 'a module \<times> string set" where
  "inject_keys adapter_fn [] model processed = (None, model, processed)"
| "inject_keys adapter_fn (key # keys) model processed =
     (case inject_paths adapter_fn (match_submodules model key) model processed of
        (Some e, model', processed') \<Rightarrow> (Some e, model', processed')
      | (None, model', processed') \<Rightarrow> inject_keys adapter_fn keys model' processed')"

definition inject_adapter ::
  "'a module \<Rightarrow> string list \<Rightarrow> ('a module \<Rightarrow> error + 'a module) \<Rightarrow> error option \<times> 'a module" where
  "inject_adapter model match_on adapter_fn =
     (case inject_keys adapter_fn match_on model {} of (e, model', processed) \<Rightarrow> (e, model'))"

text \<open>
  \<^verbatim>\<open>inject_adapter\<close> of the LoRA notebook: no set of processed paths, and the new module
  is moved to \<^verbatim>\<open>current_module.weight.device\<close>, an AttributeError when the current module
  has no \<^verbatim>\<open>weight\<close>; \<open>has_weight\<close> tells which modules have one.
\<close>

fun inject_paths_lora ::
  "('a \<Rightarrow> bool) \<Rightarrow> ('a module \<Rightarrow> error + 'a module) \<Rightarrow> string list \<Rightarrow> 'a module
     \<Rightarrow> error option \<times> 'a module" where
  "inject_paths_lora has_weight adapter_fn [] model = (None, model)"
| "inject_paths_lora has_weight adapter_fn (module_path # rest) model =
     (case get_submodule model module_path of
        Inl e \<Rightarrow> (Some e, model)
      | Inr current_module \<Rightarrow>
         (case adapter_fn current_module of
            Inl e \<Rightarrow> (Some e, model)
          | Inr new_module \<Rightarrow>
             if \<not> has_weight (info current_module) then (Some AttributeError, model)
             else (case replace_submodule model module_path new_module of
                Inl e \<Rightarrow> (Some e, model)
              | Inr model' \<Rightarrow> inject_paths_lora has_weight adapter_fn rest model')))"

fun inject_adapter_lora ::
  "('a \<Rightarrow> bool) \<Rightarrow> 'a module \<Rightarrow> string list \<Rightarrow> ('a module \<Rightarrow> error + 'a module)
     \<Rightarrow> error option \<times> 'a module" where
  "inject_adapter_lora has_weight model [] adapter_fn = (None, model)"
| "inject_adapter_lora has_weight model (key # keys) adapter_fn =
     (case inject_paths_lora has_weight adapter_fn (match_submodules model key) model of
        (Some e, model') \<Rightarrow> (Some e, model')
      | (None, model') \<Rightarrow> inject_adapter_lora has_weight model' keys adapter_fn)"

text \<open>
  The models the notebooks load are built by the framework's \<^verbatim>\<open>add_module\<close>, which
  refuses an empty name and a name with a dot; the names of one module's children are the
  keys of a dictionary, hence distinct.
\<close>

fun wf_module :: "'a module \<Rightarrow> bool" where
  "wf_module (Module i cs) \<longleftrightarrow>
     distinct (map fst cs) \<and>
     (\<forall>nc \<in> set cs. fst nc \<noteq> [] \<and> CHR ''.'' \<notin> set (fst nc) \<and> wf_module (snd nc))"

text \<open>The name \<^verbatim>\<open>named_modules\<close> gives to the module reached from \<open>pfx\<close> along \<open>atoms\<close>.\<close>

fun extend_name :: "string \<Rightarrow> string list \<Rightarrow> string" where
  "extend_name pfx [] = pfx"
| "extend_name pfx (a # atoms) = extend_name (child_name pfx a) atoms"

text \<open>
  Modelled from the claim's words, to compare \<^verbatim>\<open>inject_adapter\<close> with: the model in
  which every submodule whose dotted path contains one of the keys is replaced by the
  adapter function applied to it, and nothing else is changed. \<open>replace_where\<close> replaces
  the submodules a selection picks, by path and module, and does not look inside a
  replacement; the model itself, whose path is empty, is not a submodule.
\<close>

fun replace_where ::
  "(string \<Rightarrow> 'a module \<Rightarrow> 'a module option) \<Rightarrow> string \<Rightarrow> 'a module \<Rightarrow> 'a module" where
  "replace_where sel pfx (Module i cs) =
     Module i (map (\<lambda>nc. (fst nc,
                           case sel (child_name pfx (fst nc)) (snd nc) of
                             Some r \<Rightarrow> r
                           | None \<Rightarrow> replace_where sel (child_name pfx (fst nc)) (snd nc)))
                   cs)"

definition by_keys ::
  "string list \<Rightarrow> ('a module \<Rightarrow> 'a module) \<Rightarrow> string \<Rightarrow> 'a module \<Rightarrow> 'a module option" where
  "by_keys keys g p c = (if \<exists>k \<in> set keys. contains k p then Some (g c) else None)"

definition inject_spec :: "'a module \<Rightarrow> string list \<Rightarrow> ('a module \<Rightarrow> 'a module) \<Rightarrow> 'a module" where
  "inject_spec model match_on g = replace_where (by_keys match_on g) [] model"

text \<open>
  Two notions for the proofs about \<open>replace_where\<close>: a selection leaves a path alone when
  it replaces none of the modules met along it; and a selection changed at one path.
\<close>

fun untouched ::
  "(string \<Rightarrow> 'a module \<Rightarrow> 'a module option) \<Rightarrow> string \<Rightarrow> 'a module \<Rightarrow> string list \<Rightarrow> bool" where
  "untouched sel pfx m [] = True"
| "untouched sel pfx m (a # atoms) =
     (case getattr m a of
        Inl e \<Rightarrow> True
      | Inr c \<Rightarrow> sel (child_name pfx a) c = None \<and> untouched sel (child_name pfx a) c atoms)"

definition sel_upd ::
  "(string \<Rightarrow> 'a module \<Rightarrow> 'a module option) \<Rightarrow> string \<Rightarrow> 'a module
     \<Rightarrow> string \<Rightarrow> 'a module \<Rightarrow> 'a module option" where
  "sel_upd sel p new = (\<lambda>q c. if q = p then Some new else sel q c)"

definition atoms_ok :: "string list \<Rightarrow> bool" where
  "atoms_ok atoms \<longleftrightarrow> (\<forall>a \<in> set atoms. a \<noteq> [] \<and> CHR ''.'' \<notin> set a)"

text \<open>
  The two conditions under which \<^verbatim>\<open>inject_adapter\<close> does what the claim says. Every
  submodule whose path contains a key is a leaf of the tree (and so is not the model
  itself, whose path is empty). And no key occurs in the path of a module replaced under
  an earlier key of the list, nor in a path inside such a replacement; in particular no
  path contains two keys of the list.
\<close>

definition leaves_only :: "'a module \<Rightarrow> string list \<Rightarrow> bool" where
  "leaves_only model match_on \<longleftrightarrow>
     (\<forall>pc \<in> set (named_modules [] model).
        (\<exists>k \<in> set match_on. contains k (fst pc)) \<longrightarrow> fst pc \<noteq> [] \<and> children (snd pc) = [])"

fun keys_apart :: "'a module \<Rightarrow> string list \<Rightarrow> ('a module \<Rightarrow> 'a module) \<Rightarrow> bool" where
  "keys_apart model [] g = True"
| "keys_apart model (k # keys) g \<longleftrightarrow>
     (\<forall>pc \<in> set (named_modules [] model).
        contains k (fst pc) \<longrightarrow>
        (\<forall>n \<in> fst ` set (named_modules (fst pc) (g (snd pc))). \<forall>k' \<in> set keys. \<not> contains k' n))
     \<and> keys_apart model keys g"

section \<open>Quantization configs by module type (Quantization notebook)\<close>

text \<open>
  \<^verbatim>\<open>set_qconfig_for_model\<close> assigns the attribute \<^verbatim>\<open>qconfig\<close> of each module object that
  \<^verbatim>\<open>named_modules()\<close> yields. The own data of a module is here its object identity and
  whether it is an instance of \<^verbatim>\<open>torch.nn.Embedding\<close>; the attribute lives in a store
  indexed by object identity, which the loop passes along. The two configs are the
  notebook globals \<^verbatim>\<open>embedding_qconfig = float_qparams_weight_only_qconfig\<close> and
  \<^verbatim>\<open>default_qconfig = get_default_qat_qconfig('fbgemm')\<close>.
\<close>

datatype qconfig = float_qparams_weight_only_qconfig | default_qat_qconfig_fbgemm

definition embedding_qconfig :: qconfig where
  "embedding_qconfig = float_qparams_weight_only_qconfig"

definition default_qconfig :: qconfig where
  "default_qconfig = default_qat_qconfig_fbgemm"

record layer =
  oid :: nat
  is_Embedding :: bool

type_synonym qconfigs = "nat \<Rightarrow> qconfig option"

fun set_qconfig_loop :: "(string \<times> layer module) list \<Rightarrow> qconfigs \<Rightarrow> qconfigs" where
  "set_qconfig_loop [] s = s"
| "set_qconfig_loop ((name, submodule) # rest) s =
     (if is_Embedding (info submodule)
      then set_qconfig_loop rest (s(oid (info submodule) := Some embedding_qconfig))
      else set_qconfig_loop rest (s(oid (info submodule) := Some default_qconfig)))"

definition set_qconfig_for_model :: "layer module \<Rightarrow> qconfigs \<Rightarrow> qconfigs" where
  "set_qconfig_for_model model s = set_qconfig_loop (named_modules [] model) s"

text \<open>One object is of one class, under whatever names it is reached.\<close>

definition same_object_same_class :: "layer module \<Rightarrow> bool" where
  "same_object_same_class model \<longleftrightarrow>
     (\<forall>x \<in> set (named_modules [] model). \<forall>y \<in> set (named_modules [] model).
        oid (info (snd x)) = oid (info (snd y)) \<longrightarrow>
        is_Embedding (info (snd x)) = is_Embedding (info (snd y)))"

section \<open>The calls the notebook functions make\<close>

text \<open>
  To follow an exception from the callee that raises it to the caller, every function the
  notebooks define is written once more as the tree of the calls it makes. A call
  expression, an operator, a subscript and an attribute assignment are calls: Python runs
  each by calling a function or a method, which answers with a value or with an exception.
  The tree has the answer of each call at hand, also the exception, so that a function
  that handled one could be written down as well. Reading a variable or an attribute,
  literals and displays are values; a value is kept as the expression that made it, and
  only the items of an iterated value and the truth of a tested one matter for what is
  called next.
\<close>

datatype pyval = Lit string | Attr pyval string | Tuple "pyval list" | Op string "pyval list"
  | Kw string pyval

fun items :: "pyval \<Rightarrow> pyval list" where
  "items (Tuple vs) = vs"
| "items v = []"

datatype 'r prog = Returns 'r | Raises error
  | Calls string "pyval list" "error + pyval \<Rightarrow> 'r prog"

text \<open>
  A run against the answers the callees give, the n-th call getting the n-th answer: the
  outcome of the function and the calls made, in order, each with its answer.
\<close>

type_synonym event = "string \<times> pyval list \<times> (error + pyval)"

primrec run :: "'r prog \<Rightarrow> (nat \<Rightarrow> error + pyval) \<Rightarrow> (error + 'r) \<times> event list" where
  "run (Returns r) = (\<lambda>answers. (Inr r, []))"
| "run (Raises e) = (\<lambda>answers. (Inl e, []))"
| "run (Calls f args k) = (\<lambda>answers.
     case run (k (answers 0)) (\<lambda>n. answers (Suc n)) of
       (r, trace) \<Rightarrow> (r, (f, args, answers 0) # trace))"

text \<open>
  Python's rule for a statement outside any \<^verbatim>\<open>try\<close>: when the callee raises, the caller stops
  and raises the same exception. The notebooks contain no \<^verbatim>\<open>try\<close>, \<^verbatim>\<open>except\<close> or \<^verbatim>\<open>finally\<close>, so
  every call of theirs is a \<open>call\<close>, and one statement follows another by \<open>bind_prog\<close>.
\<close>

definition call :: "string \<Rightarrow> pyval list \<Rightarrow> pyval prog" where
  "call f args = Calls f args (\<lambda>a. case a of Inl e \<Rightarrow> Raises e | Inr v \<Rightarrow> Returns v)"

primrec bind_prog :: "'a prog \<Rightarrow> ('a \<Rightarrow> 'b prog) \<Rightarrow> 'b prog" where
  "bind_prog (Returns r) k = k r"
| "bind_prog (Raises e) k = Raises e"
| "bind_prog (Calls f args c) k = Calls f args (\<lambda>a. bind_prog (c a) k)"

text \<open>
  A \<^verbatim>\<open>for\<close> loop over the items of a value, with the variables the body assigns as state;
  the body says whether it ended in \<^verbatim>\<open>break\<close>.
\<close>

fun for_loop :: "pyval list \<Rightarrow> 's \<Rightarrow> (pyval \<Rightarrow> 's \<Rightarrow> (bool \<times> 's) prog) \<Rightarrow> 's prog" where
  "for_loop [] s body = Returns s"
| "for_loop (x # xs) s body =
     bind_prog (body x s) (\<lambda>bs. if fst bs then Returns (snd bs) else for_loop xs (snd bs) body)"

text \<open>
  A function lets its callees' exceptions through when, whatever the callees answer, a call
  answered by an exception is the last call made and the function ends in that exception.
\<close>

definition propagates :: "'r prog \<Rightarrow> bool" where
  "propagates p \<longleftrightarrow>
     (\<forall>answers. case run p answers of (r, trace) \<Rightarrow>
        (\<forall>i < length trace. \<forall>e. snd (snd (trace ! i)) = Inl e \<longrightarrow>
           Suc i = length trace \<and> r = Inl e))"

subsection \<open>IA3 notebook\<close>

text \<open>
  \<^verbatim>\<open>IA3Adapter1.__init__\<close>. Both arms of the conditional expression make the same two calls,
  \<^verbatim>\<open>torch.ones\<close> and then \<^verbatim>\<open>nn.Parameter\<close>, on different shapes.
\<close>

definition IA3Adapter1_init_calls :: "(pyval \<Rightarrow> bool) \<Rightarrow> pyval \<Rightarrow> pyval \<Rightarrow> pyval \<Rightarrow> pyval \<Rightarrow> pyval \<Rightarrow> pyval \<Rightarrow> pyval prog" where
  "IA3Adapter1_init_calls truth self existing_layer' in_features' out_features' ia3_lr is_feedforward' =
     bind_prog (call ''nn.Module.__init__'' [self]) (\<lambda>u.
     bind_prog (call ''to'' [existing_layer', Lit ''cuda'']) (\<lambda>layer.
     bind_prog (call ''setattr'' [self, Lit ''existing_layer'', layer]) (\<lambda>u.
     bind_prog (call ''setattr'' [self, Lit ''is_feedforward'', is_feedforward']) (\<lambda>u.
     bind_prog (call ''setattr'' [self, Lit ''in_features'', in_features']) (\<lambda>u.
     bind_prog (call ''setattr'' [self, Lit ''out_features'', out_features']) (\<lambda>u.
     bind_prog (if \<not> truth is_feedforward'
     then call ''torch.ones'' [Tuple [Lit ''1'', out_features'], Kw ''device'' (Lit ''cuda'')]
     else call ''torch.ones'' [Tuple [Lit ''1'', in_features'], Kw ''device'' (Lit ''cuda'')]) (\<lambda>ones.
     bind_prog (call ''nn.Parameter'' [ones]) (\<lambda>weight.
     bind_prog (call ''setattr'' [self, Lit ''ia3_lw'', weight]) (\<lambda>u.
     bind_prog (call ''nn.init.ones_'' [Attr self ''ia3_lw'']) (\<lambda>u.
     bind_prog (call ''setattr'' [self, Lit ''ia3_lr'', ia3_lr]) (\<lambda>u.
     Returns (Lit ''None''))))))))))))"

text \<open>
  \<^verbatim>\<open>IA3Adapter1.forward\<close>.
\<close>

definition IA3Adapter1_forward_calls :: "(pyval \<Rightarrow> bool) \<Rightarrow> pyval \<Rightarrow> pyval \<Rightarrow> pyval prog" where
  "IA3Adapter1_forward_calls truth self x =
     (if \<not> truth (Attr self ''is_feedforward'')
     then bind_prog (call ''__call__'' [Attr self ''existing_layer'', x]) (\<lambda>result.
     call ''torch.mul'' [result, Attr self ''ia3_lw''])
     else bind_prog (call ''torch.mul'' [x, Attr self ''ia3_lw'']) (\<lambda>result.
     call ''__call__'' [Attr self ''existing_layer'', result]))"

text \<open>
  \<^verbatim>\<open>ia3_params\<close>: two counting loops; a loop variable \<^verbatim>\<open>name, param\<close> unpacks the item.
\<close>

definition ia3_params_calls :: "(pyval \<Rightarrow> bool) \<Rightarrow> pyval \<Rightarrow> pyval prog" where
  "ia3_params_calls truth model =
     bind_prog (call ''parameters'' [model]) (\<lambda>ps.
     bind_prog (for_loop (items ps) (Lit ''0'') (\<lambda>item total.
       bind_prog (call ''numel'' [item]) (\<lambda>n.
       bind_prog (call ''iadd'' [total, n]) (\<lambda>total.
       Returns (False, total))))) (\<lambda>total_params.
     bind_prog (call ''named_parameters'' [model]) (\<lambda>nps.
     bind_prog (for_loop (items nps) (Lit ''0'') (\<lambda>item total.
       bind_prog (call ''contains'' [Op ''unpack'' [item, Lit ''0''], Lit ''ia3_lw'']) (\<lambda>b.
       if truth b
       then bind_prog (call ''numel'' [Op ''unpack'' [item, Lit ''1'']]) (\<lambda>n.
       bind_prog (call ''iadd'' [total, n]) (\<lambda>total.
       Returns (False, total)))
       else Returns (False, total)))) (\<lambda>trainable_params.
     Returns (Tuple [total_params, trainable_params])))))"

text \<open>
  \<^verbatim>\<open>match_submodules\<close>, the same text in both notebooks. The list built by \<^verbatim>\<open>append\<close> is kept
  as a list, since \<^verbatim>\<open>inject_adapter\<close> iterates over it.
\<close>

definition match_submodules_calls :: "(pyval \<Rightarrow> bool) \<Rightarrow> pyval \<Rightarrow> pyval \<Rightarrow> pyval prog" where
  "match_submodules_calls truth model key =
     bind_prog (call ''named_modules'' [model]) (\<lambda>nms.
     bind_prog (for_loop (items nms) [] (\<lambda>item matching_layers.
       bind_prog (call ''contains'' [Op ''unpack'' [item, Lit ''0''], key]) (\<lambda>b.
       if truth b
       then bind_prog (call ''append'' [Tuple matching_layers, Op ''unpack'' [item, Lit ''0'']]) (\<lambda>u.
       Returns (False, matching_layers @ [Op ''unpack'' [item, Lit ''0'']]))
       else Returns (False, matching_layers)))) (\<lambda>matching_layers.
     Returns (Tuple matching_layers)))"

text \<open>
  \<^verbatim>\<open>get_submodule\<close> and \<^verbatim>\<open>replace_submodule\<close>, the same text in both notebooks.
\<close>

definition get_submodule_calls :: "pyval \<Rightarrow> pyval \<Rightarrow> pyval prog" where
  "get_submodule_calls model module_name =
     call ''get_submodule'' [model, module_name]"

definition replace_submodule_calls :: "pyval \<Rightarrow> pyval \<Rightarrow> pyval \<Rightarrow> pyval prog" where
  "replace_submodule_calls model module_path new_module =
     bind_prog (call ''split'' [module_path, Lit ''.'']) (\<lambda>modules.
     bind_prog (call ''getitem'' [modules, Op ''slice'' [Lit ''None'', Lit ''-1'']]) (\<lambda>init.
     bind_prog (for_loop (items init) model (\<lambda>sub parent_module.
       bind_prog (call ''getattr'' [parent_module, sub]) (\<lambda>parent_module.
       Returns (False, parent_module)))) (\<lambda>parent_module.
     bind_prog (call ''getitem'' [modules, Lit ''-1'']) (\<lambda>final.
     bind_prog (call ''setattr'' [parent_module, final, new_module]) (\<lambda>u.
     Returns (Lit ''None''))))))"

text \<open>
  \<^verbatim>\<open>inject_adapter\<close> of the IA3 notebook; \<^verbatim>\<open>continue\<close> ends the turn of the loop.
\<close>

definition inject_adapter_calls :: "(pyval \<Rightarrow> bool) \<Rightarrow> pyval \<Rightarrow> pyval \<Rightarrow> pyval \<Rightarrow> pyval prog" where
  "inject_adapter_calls truth model match_on adapter_fn =
     bind_prog (call ''set'' []) (\<lambda>processed_modules.
     bind_prog (for_loop (items match_on) () (\<lambda>key u.
       bind_prog (match_submodules_calls truth model key) (\<lambda>matching_layers.
       bind_prog (for_loop (items matching_layers) () (\<lambda>module_path u.
         bind_prog (call ''contains'' [processed_modules, module_path]) (\<lambda>b.
         if truth b
         then Returns (False, ())
         else bind_prog (get_submodule_calls model module_path) (\<lambda>current_module.
         bind_prog (call ''__call__'' [adapter_fn, current_module]) (\<lambda>new_module.
         bind_prog (call ''to'' [new_module, Lit ''device'']) (\<lambda>new_module.
         bind_prog (replace_submodule_calls model module_path new_module) (\<lambda>u.
         bind_prog (call ''add'' [processed_modules, module_path]) (\<lambda>u.
         Returns (False, ()))))))))) (\<lambda>u.
       Returns (False, ()))))) (\<lambda>u.
     Returns (Lit ''None'')))"

text \<open>
  \<^verbatim>\<open>IA3Adapter2\<close>: \<^verbatim>\<open>__init__\<close>, \<^verbatim>\<open>get_equivalent_weight\<close>, \<^verbatim>\<open>get_equivalent_bias\<close> and \<^verbatim>\<open>forward\<close>.
\<close>

definition IA3Adapter2_init_calls :: "(pyval \<Rightarrow> bool) \<Rightarrow> pyval \<Rightarrow> pyval \<Rightarrow> pyval \<Rightarrow> pyval \<Rightarrow> pyval \<Rightarrow> pyval \<Rightarrow> pyval prog" where
  "IA3Adapter2_init_calls truth self existing_layer' in_features' out_features' ia3_lr is_feedforward' =
     bind_prog (call ''nn.Module.__init__'' [self]) (\<lambda>u.
     bind_prog (call ''setattr'' [self, Lit ''existing_layer'', existing_layer']) (\<lambda>u.
     bind_prog (call ''setattr'' [self, Lit ''is_feedforward'', is_feedforward']) (\<lambda>u.
     bind_prog (call ''setattr'' [self, Lit ''in_features'', in_features']) (\<lambda>u.
     bind_prog (call ''setattr'' [self, Lit ''out_features'', out_features']) (\<lambda>u.
     bind_prog (if \<not> truth is_feedforward'
     then call ''torch.ones'' [Tuple [Lit ''1'', out_features'], Kw ''device'' (Lit ''cuda'')]
     else call ''torch.ones'' [Tuple [Lit ''1'', in_features'], Kw ''device'' (Lit ''cuda'')]) (\<lambda>ones.
     bind_prog (call ''nn.Parameter'' [ones]) (\<lambda>weight.
     bind_prog (call ''setattr'' [self, Lit ''ia3_lw'', weight]) (\<lambda>u.
     bind_prog (call ''nn.init.ones_'' [Attr self ''ia3_lw'']) (\<lambda>u.
     bind_prog (call ''setattr'' [self, Lit ''ia3_lr'', ia3_lr]) (\<lambda>u.
     Returns (Lit ''None'')))))))))))"

definition get_equivalent_weight_calls :: "(pyval \<Rightarrow> bool) \<Rightarrow> pyval \<Rightarrow> pyval prog" where
  "get_equivalent_weight_calls truth self =
     bind_prog (call ''get_weight'' [self]) (\<lambda>mat.
     if \<not> truth (Attr self ''is_feedforward'')
     then bind_prog (call ''view'' [Attr self ''ia3_lw'', Lit ''-1'']) (\<lambda>flat.
     bind_prog (call ''torch.diag'' [flat]) (\<lambda>d.
     call ''matmul'' [d, mat]))
     else bind_prog (call ''view'' [Attr self ''ia3_lw'', Lit ''-1'']) (\<lambda>flat.
     bind_prog (call ''torch.diag'' [flat]) (\<lambda>d.
     call ''matmul'' [mat, d])))"

definition get_equivalent_bias_calls :: "(pyval \<Rightarrow> bool) \<Rightarrow> pyval \<Rightarrow> pyval prog" where
  "get_equivalent_bias_calls truth self =
     bind_prog (call ''get_bias'' [self]) (\<lambda>mat.
     if truth (Op ''is'' [mat, Lit ''None''])
     then Returns (Lit ''None'')
     else if \<not> truth (Attr self ''is_feedforward'')
     then bind_prog (call ''squeeze'' [Attr self ''ia3_lw'']) (\<lambda>lw.
     call ''torch.mul'' [mat, lw])
     else Returns mat)"

definition IA3Adapter2_forward_calls :: "(pyval \<Rightarrow> bool) \<Rightarrow> pyval \<Rightarrow> pyval \<Rightarrow> pyval prog" where
  "IA3Adapter2_forward_calls truth self x =
     bind_prog (get_equivalent_weight_calls truth self) (\<lambda>w.
     bind_prog (get_equivalent_bias_calls truth self) (\<lambda>b.
     call ''F.linear'' [x, w, b]))"

text \<open>
  The adapter functions passed to \<^verbatim>\<open>inject_adapter\<close>,
  \<^verbatim>\<open>lambda x: IA3Adapter1(x, in_features=x.in_features, ...)\<close> and the same for \<^verbatim>\<open>IA3Adapter2\<close>:
  creating the object and running its \<^verbatim>\<open>__init__\<close>.
\<close>

definition IA3Adapter1_adapter_fn_calls :: "(pyval \<Rightarrow> bool) \<Rightarrow> pyval \<Rightarrow> pyval prog" where
  "IA3Adapter1_adapter_fn_calls truth x =
     bind_prog (call ''__new__'' [Lit ''IA3Adapter1'']) (\<lambda>self.
     bind_prog (IA3Adapter1_init_calls truth self x (Attr x ''in_features'') (Attr x ''out_features'')
       (Lit ''1e-3'') (Tuple [Lit ''False'', Lit ''False'', Lit ''True''])) (\<lambda>u.
     Returns self))"

definition IA3Adapter2_adapter_fn_calls :: "(pyval \<Rightarrow> bool) \<Rightarrow> pyval \<Rightarrow> pyval prog" where
  "IA3Adapter2_adapter_fn_calls truth x =
     bind_prog (call ''__new__'' [Lit ''IA3Adapter2'']) (\<lambda>self.
     bind_prog (IA3Adapter2_init_calls truth self x (Attr x ''in_features'') (Attr x ''out_features'')
       (Lit ''1e-3'') (Tuple [Lit ''False'', Lit ''False'', Lit ''True''])) (\<lambda>u.
     Returns self))"

text \<open>
  \<^verbatim>\<open>calculate_memory_kv_down_proj\<close>: arithmetic only, each operator a call, left to right.
\<close>

definition calculate_memory_kv_down_proj_calls :: "pyval \<Rightarrow> pyval \<Rightarrow> pyval \<Rightarrow> pyval \<Rightarrow> pyval prog" where
  "calculate_memory_kv_down_proj_calls batch_size seq_len hidden_dim intermediate_dim =
     bind_prog (call ''mul'' [batch_size, seq_len]) (\<lambda>a.
     bind_prog (call ''mul'' [a, Lit ''hidden_dim_kv'']) (\<lambda>a.
     bind_prog (call ''mul'' [a, Lit ''2'']) (\<lambda>a.
     bind_prog (call ''mul'' [a, Lit ''2'']) (\<lambda>kv_proj_memory_bytes.
     bind_prog (call ''mul'' [batch_size, seq_len]) (\<lambda>b.
     bind_prog (call ''mul'' [b, intermediate_dim]) (\<lambda>b.
     bind_prog (call ''mul'' [batch_size, seq_len]) (\<lambda>c.
     bind_prog (call ''mul'' [c, hidden_dim]) (\<lambda>c.
     bind_prog (call ''add'' [b, c]) (\<lambda>d.
     bind_prog (call ''mul'' [d, Lit ''2'']) (\<lambda>down_proj_memory_bytes.
     bind_prog (call ''add'' [kv_proj_memory_bytes, down_proj_memory_bytes]) (\<lambda>total_memory_bytes.
     bind_prog (call ''pow'' [Lit ''1024'', Lit ''3'']) (\<lambda>g.
     call ''truediv'' [total_memory_bytes, g]))))))))))))"

subsection \<open>LoRA notebook\<close>

text \<open>
  \<^verbatim>\<open>LoRALayer.__init__\<close>, and the \<^verbatim>\<open>lambda x: x\<close> it keeps as dropout when the rate is zero.
\<close>

definition LoRALayer_init_calls :: "(pyval \<Rightarrow> bool) \<Rightarrow> pyval \<Rightarrow> pyval \<Rightarrow> pyval \<Rightarrow> pyval \<Rightarrow> pyval prog" where
  "LoRALayer_init_calls truth self r lora_alpha' lora_dropout' =
     bind_prog (call ''setattr'' [self, Lit ''r'', r]) (\<lambda>u.
     bind_prog (call ''setattr'' [self, Lit ''lora_alpha'', lora_alpha']) (\<lambda>u.
     bind_prog (call ''gt'' [lora_dropout', Lit ''0.'']) (\<lambda>b.
     bind_prog (if truth b
     then bind_prog (call ''nn.Dropout'' [Kw ''p'' lora_dropout']) (\<lambda>dropout.
     call ''setattr'' [self, Lit ''lora_dropout'', dropout])
     else call ''setattr'' [self, Lit ''lora_dropout'', Lit ''lambda x: x'']) (\<lambda>u.
     Returns (Lit ''None'')))))"

definition identity_dropout_calls :: "pyval \<Rightarrow> pyval prog" where
  "identity_dropout_calls x =
     Returns x"

text \<open>
  \<^verbatim>\<open>LoRAAdapter\<close>: \<^verbatim>\<open>reset_parameters\<close>, \<^verbatim>\<open>__init__\<close>, \<^verbatim>\<open>train\<close> and \<^verbatim>\<open>forward\<close>.
\<close>

definition reset_parameters_calls :: "(pyval \<Rightarrow> bool) \<Rightarrow> pyval \<Rightarrow> pyval prog" where
  "reset_parameters_calls truth self =
     bind_prog (call ''gt'' [Attr self ''r'', Lit ''0'']) (\<lambda>b.
     bind_prog (if truth b
     then bind_prog (call ''nn.init.normal_'' [Attr self ''lora_A'', Kw ''mean'' (Lit ''0.0''), Kw ''std'' (Lit ''1.0'')]) (\<lambda>u.
     call ''nn.init.zeros_'' [Attr self ''lora_B''])
     else Returns (Lit ''None'')) (\<lambda>u.
     Returns (Lit ''None'')))"

definition LoRAAdapter_init_calls :: "(pyval \<Rightarrow> bool) \<Rightarrow> pyval \<Rightarrow> pyval \<Rightarrow> pyval \<Rightarrow> pyval \<Rightarrow> pyval \<Rightarrow> pyval \<Rightarrow> pyval \<Rightarrow> pyval prog" where
  "LoRAAdapter_init_calls truth self existing_layer' in_features' out_features' r lora_alpha' lora_dropout' =
     bind_prog (call ''nn.Module.__init__'' [self]) (\<lambda>u.
     bind_prog (LoRALayer_init_calls truth self r lora_alpha' lora_dropout') (\<lambda>u.
     bind_prog (call ''setattr'' [self, Lit ''existing_layer'', existing_layer']) (\<lambda>u.
     bind_prog (call ''setattr'' [self, Lit ''r'', r]) (\<lambda>u.
     bind_prog (call ''gt'' [r, Lit ''0'']) (\<lambda>b.
     bind_prog (if truth b
     then bind_prog (call ''torch.randn'' [r, in_features']) (\<lambda>a.
     bind_prog (call ''nn.Parameter'' [a]) (\<lambda>a.
     bind_prog (call ''setattr'' [self, Lit ''lora_A'', a]) (\<lambda>u.
     bind_prog (call ''torch.zeros'' [out_features', r]) (\<lambda>z.
     bind_prog (call ''nn.Parameter'' [z]) (\<lambda>z.
     bind_prog (call ''setattr'' [self, Lit ''lora_B'', z]) (\<lambda>u.
     bind_prog (call ''truediv'' [Attr self ''lora_alpha'', Attr self ''r'']) (\<lambda>q.
     call ''setattr'' [self, Lit ''scaling'', q])))))))
     else Returns (Lit ''None'')) (\<lambda>u.
     bind_prog (reset_parameters_calls truth self) (\<lambda>u.
     Returns (Lit ''None''))))))))"

definition LoRAAdapter_train_calls :: "pyval \<Rightarrow> pyval \<Rightarrow> pyval prog" where
  "LoRAAdapter_train_calls self mode =
     bind_prog (call ''train'' [Attr self ''existing_layer'', mode]) (\<lambda>u.
     Returns (Lit ''None''))"

definition LoRAAdapter_forward_calls :: "(pyval \<Rightarrow> bool) \<Rightarrow> pyval \<Rightarrow> pyval \<Rightarrow> pyval prog" where
  "LoRAAdapter_forward_calls truth self x =
     bind_prog (call ''gt'' [Attr self ''r'', Lit ''0'']) (\<lambda>b.
     if truth b
     then bind_prog (call ''view'' [x, Lit ''-1'', Op ''unpack'' [Attr x ''shape'', Lit ''2'']]) (\<lambda>x.
     bind_prog (call ''to'' [x, Lit ''torch.bfloat16'']) (\<lambda>x.
     bind_prog (call ''torch.matmul'' [Attr self ''lora_A'', Attr x ''T'']) (\<lambda>lora_out.
     bind_prog (call ''torch.matmul'' [Attr self ''lora_B'', lora_out]) (\<lambda>lora_out.
     bind_prog (call ''mul'' [Attr lora_out ''T'', Attr self ''scaling'']) (\<lambda>lora_out.
     bind_prog (call ''__call__'' [Attr self ''lora_dropout'', lora_out]) (\<lambda>lora_out.
     bind_prog (call ''__call__'' [Attr self ''existing_layer'', x]) (\<lambda>y.
     call ''add'' [y, lora_out])))))))
     else call ''__call__'' [Attr self ''existing_layer'', x])"

text \<open>
  \<^verbatim>\<open>mark_only_lora_as_trainable\<close>; \<^verbatim>\<open>or\<close> tests \<^verbatim>\<open>"lora_B" in name\<close> only when the first test is false.
\<close>

definition mark_only_lora_as_trainable_calls :: "(pyval \<Rightarrow> bool) \<Rightarrow> pyval \<Rightarrow> pyval prog" where
  "mark_only_lora_as_trainable_calls truth model =
     bind_prog (call ''parameters'' [model]) (\<lambda>ps.
     bind_prog (for_loop (items ps) () (\<lambda>param u.
       bind_prog (call ''setattr'' [param, Lit ''requires_grad'', Lit ''False'']) (\<lambda>u.
       Returns (False, ())))) (\<lambda>u.
     bind_prog (call ''named_parameters'' [model]) (\<lambda>nps.
     bind_prog (for_loop (items nps) () (\<lambda>item u.
       bind_prog (call ''contains'' [Op ''unpack'' [item, Lit ''0''], Lit ''lora_A'']) (\<lambda>a.
       if truth a
       then bind_prog (call ''setattr'' [Op ''unpack'' [item, Lit ''1''], Lit ''requires_grad'', Lit ''True'']) (\<lambda>u.
       Returns (False, ()))
       else bind_prog (call ''contains'' [Op ''unpack'' [item, Lit ''0''], Lit ''lora_B'']) (\<lambda>b.
       if truth b
       then bind_prog (call ''setattr'' [Op ''unpack'' [item, Lit ''1''], Lit ''requires_grad'', Lit ''True'']) (\<lambda>u.
       Returns (False, ()))
       else Returns (False, ()))))) (\<lambda>u. Returns (Lit ''None'')))))"

text \<open>
  \<^verbatim>\<open>inject_adapter\<close> of the LoRA notebook, and the adapter function passed to it,
  \<^verbatim>\<open>lambda x: LoRAAdapter(x, r=8, lora_alpha=8, in_features=x.in_features, ...)\<close>.
\<close>

definition inject_adapter_lora_calls :: "(pyval \<Rightarrow> bool) \<Rightarrow> pyval \<Rightarrow> pyval \<Rightarrow> pyval \<Rightarrow> pyval prog" where
  "inject_adapter_lora_calls truth model match_on adapter_fn =
     bind_prog (for_loop (items match_on) () (\<lambda>key u.
       bind_prog (match_submodules_calls truth model key) (\<lambda>matching_layers.
       bind_prog (for_loop (items matching_layers) () (\<lambda>module_path u.
         bind_prog (get_submodule_calls model module_path) (\<lambda>current_module.
         bind_prog (call ''__call__'' [adapter_fn, current_module]) (\<lambda>new_module.
         bind_prog (call ''to'' [new_module, Attr (Attr current_module ''weight'') ''device'']) (\<lambda>new_module.
         bind_prog (replace_submodule_calls model module_path new_module) (\<lambda>u.
         Returns (False, ()))))))) (\<lambda>u.
       Returns (False, ()))))) (\<lambda>u.
     Returns (Lit ''None''))"

definition LoRA_adapter_fn_calls :: "(pyval \<Rightarrow> bool) \<Rightarrow> pyval \<Rightarrow> pyval prog" where
  "LoRA_adapter_fn_calls truth x =
     bind_prog (call ''__new__'' [Lit ''LoRAAdapter'']) (\<lambda>self.
     bind_prog (LoRAAdapter_init_calls truth self x (Attr x ''in_features'') (Attr x ''out_features'')
       (Lit ''8'') (Lit ''8'') (Lit ''0.'')) (\<lambda>u.
     Returns self))"

text \<open>
  \<^verbatim>\<open>finetune_causal_model\<close> and the \<^verbatim>\<open>tokenize_function\<close> it defines and hands to
  \<^verbatim>\<open>Dataset.map\<close>, which is the one to call it.
\<close>

definition tokenize_function_calls :: "pyval \<Rightarrow> pyval prog" where
  "tokenize_function_calls examples =
     bind_prog (call ''getitem'' [examples, Lit ''text'']) (\<lambda>texts.
     bind_prog (call ''causal_tokenizer'' [texts, Kw ''padding'' (Lit ''max_length''), Kw ''truncation'' (Lit ''True''), Kw ''max_length'' (Lit ''256'')]) (\<lambda>result.
     bind_prog (call ''getitem'' [result, Lit ''input_ids'']) (\<lambda>ids.
     bind_prog (call ''copy'' [ids]) (\<lambda>labels.
     bind_prog (call ''setitem'' [result, Lit ''labels'', labels]) (\<lambda>u.
     Returns result)))))"

definition finetune_causal_model_calls :: "pyval \<Rightarrow> pyval \<Rightarrow> pyval \<Rightarrow> pyval \<Rightarrow> pyval prog" where
  "finetune_causal_model_calls model train_dataset epochs learning_rate =
     bind_prog (call ''Dataset.from_dict'' [train_dataset]) (\<lambda>train_dataset.
     bind_prog (call ''map'' [train_dataset, Lit ''tokenize_function'', Kw ''batched'' (Lit ''True'')]) (\<lambda>tokenized_dataset.
     bind_prog (call ''DataCollatorForLanguageModeling'' [Lit ''causal_tokenizer'', Kw ''mlm'' (Lit ''False'')]) (\<lambda>data_collator.
     bind_prog (call ''TrainingArguments'' [Kw ''output_dir'' (Lit ''./model_output''), Kw ''per_device_train_batch_size'' (Lit ''8''), Kw ''learning_rate'' learning_rate, Kw ''weight_decay'' (Lit ''0.01''), Kw ''num_train_epochs'' epochs]) (\<lambda>training_args.
     bind_prog (call ''Trainer'' [Kw ''model'' model, Kw ''args'' training_args, Kw ''train_dataset'' tokenized_dataset, Kw ''eval_dataset'' tokenized_dataset, Kw ''data_collator'' data_collator]) (\<lambda>trainer.
     bind_prog (call ''train'' [trainer]) (\<lambda>u.
     Returns (Lit ''None'')))))))"

text \<open>
  \<^verbatim>\<open>split_into_chunks\<close>: the list comprehension as a loop.
\<close>

definition split_into_chunks_calls :: "pyval \<Rightarrow> pyval \<Rightarrow> pyval prog" where
  "split_into_chunks_calls chunk_text chunk_size =
     bind_prog (call ''len'' [chunk_text]) (\<lambda>n.
     bind_prog (call ''range'' [Lit ''0'', n, chunk_size]) (\<lambda>starts.
     bind_prog (for_loop (items starts) [] (\<lambda>i chunks.
       bind_prog (call ''add'' [i, chunk_size]) (\<lambda>j.
       bind_prog (call ''getitem'' [chunk_text, Op ''slice'' [i, j]]) (\<lambda>piece.
       Returns (False, chunks @ [piece]))))) (\<lambda>chunks.
     Returns (Tuple chunks))))"

text \<open>
  \<^verbatim>\<open>calc_perplexity\<close>. The state of the loop is \<^verbatim>\<open>nlls\<close> and \<^verbatim>\<open>prev_end_loc\<close>; \<^verbatim>\<open>break\<close> ends the loop.
  Leaving \<^verbatim>\<open>torch.no_grad()\<close> restores a flag and calls nothing that can fail.
\<close>

definition calc_perplexity_calls :: "(pyval \<Rightarrow> bool) \<Rightarrow> pyval \<Rightarrow> pyval \<Rightarrow> pyval \<Rightarrow> pyval prog" where
  "calc_perplexity_calls truth model encodings stride =
     bind_prog (call ''size'' [Attr encodings ''input_ids'', Lit ''1'']) (\<lambda>seq_len.
     bind_prog (call ''range'' [Lit ''0'', seq_len, stride]) (\<lambda>starts.
     bind_prog (call ''tqdm'' [starts]) (\<lambda>bar.
     bind_prog (for_loop (items bar) (([], Lit ''0'')) (\<lambda>begin_loc state.
       bind_prog (call ''add'' [begin_loc, Lit ''1024'']) (\<lambda>e.
       bind_prog (call ''min'' [e, seq_len]) (\<lambda>end_loc.
       bind_prog (call ''sub'' [end_loc, snd state]) (\<lambda>trg_len.
       bind_prog (call ''getitem'' [Attr encodings ''input_ids'', Tuple [Op ''slice'' [Lit ''None'', Lit ''None''], Op ''slice'' [begin_loc, end_loc]]]) (\<lambda>piece.
       bind_prog (call ''to'' [piece, Lit ''cuda'']) (\<lambda>input_ids.
       bind_prog (call ''clone'' [input_ids]) (\<lambda>target_ids.
       bind_prog (call ''neg'' [trg_len]) (\<lambda>m.
       bind_prog (call ''setitem'' [target_ids, Tuple [Op ''slice'' [Lit ''None'', Lit ''None''], Op ''slice'' [Lit ''None'', m]], Lit ''-100'']) (\<lambda>u.
       bind_prog (call ''torch.no_grad'' []) (\<lambda>g.
       bind_prog (call ''__call__'' [model, input_ids, Kw ''labels'' target_ids]) (\<lambda>outputs.
       bind_prog (call ''append'' [Tuple (fst state), Attr outputs ''loss'']) (\<lambda>u.
       bind_prog (call ''eq'' [end_loc, seq_len]) (\<lambda>b.
       Returns (truth b, (fst state @ [Attr outputs ''loss''], end_loc)))))))))))))))) (\<lambda>state.
     bind_prog (call ''torch.stack'' [Tuple (fst state)]) (\<lambda>stacked.
     bind_prog (call ''mean'' [stacked]) (\<lambda>mean.
     call ''torch.exp'' [mean]))))))"

subsection \<open>Quantization notebook\<close>

text \<open>
  \<^verbatim>\<open>apply_dynamic_quantization\<close>.
\<close>

definition apply_dynamic_quantization_calls :: "pyval \<Rightarrow> pyval prog" where
  "apply_dynamic_quantization_calls model =
     bind_prog (call ''eval'' [model]) (\<lambda>u.
     bind_prog (call ''torch.quantization.quantize_dynamic'' [model, Tuple [Lit ''torch.nn.Linear''], Kw ''dtype'' (Lit ''torch.qint8'')]) (\<lambda>model.
     call ''to'' [model, Lit ''cpu'']))"

text \<open>
  \<^verbatim>\<open>evaluate_model\<close>, as defined for post-training quantization and, below, as defined again
  for quantization-aware training. The state of the loop is \<^verbatim>\<open>all_predictions\<close> and
  \<^verbatim>\<open>all_labels\<close>.
\<close>

definition evaluate_model_calls :: "pyval \<Rightarrow> pyval \<Rightarrow> pyval prog" where
  "evaluate_model_calls model data_loader =
     bind_prog (call ''eval'' [model]) (\<lambda>u.
     bind_prog (call ''torch.no_grad'' []) (\<lambda>g.
     bind_prog (for_loop (items data_loader) (([], [])) (\<lambda>batch state.
       bind_prog (call ''getitem'' [batch, Lit ''text'']) (\<lambda>t0.
       bind_prog (call ''tokenizer'' [t0, Kw ''return_tensors'' (Lit ''pt''), Kw ''padding'' (Lit ''True''), Kw ''truncation'' (Lit ''True'')]) (\<lambda>inputs.
       bind_prog (call ''getitem'' [batch, Lit ''label'']) (\<lambda>labels.
       bind_prog (call ''__call__'' [model, Op ''**'' [inputs]]) (\<lambda>outputs.
       bind_prog (call ''torch.argmax'' [Attr outputs ''logits'', Kw ''dim'' (Lit ''1'')]) (\<lambda>predictions.
       bind_prog (call ''cpu'' [predictions]) (\<lambda>p.
       bind_prog (call ''numpy'' [p]) (\<lambda>p.
       bind_prog (call ''extend'' [Tuple (fst state), p]) (\<lambda>u.
       bind_prog (call ''cpu'' [labels]) (\<lambda>l.
       bind_prog (call ''numpy'' [l]) (\<lambda>l.
       bind_prog (call ''extend'' [Tuple (snd state), l]) (\<lambda>u.
       Returns (False, (fst state @ items p, snd state @ items l))))))))))))))) (\<lambda>state.
     bind_prog (call ''accuracy_score'' [Tuple (snd state), Tuple (fst state)]) (\<lambda>accuracy.
     bind_prog (call ''f1_score'' [Tuple (snd state), Tuple (fst state), Kw ''average'' (Lit ''weighted'')]) (\<lambda>f1.
     bind_prog (call ''classification_report'' [Tuple (snd state), Tuple (fst state)]) (\<lambda>report.
     Returns (Tuple [accuracy, f1, report])))))))"

definition evaluate_model_qat_calls :: "pyval \<Rightarrow> pyval \<Rightarrow> pyval prog" where
  "evaluate_model_qat_calls model data_loader =
     bind_prog (call ''eval'' [model]) (\<lambda>u.
     bind_prog (call ''torch.no_grad'' []) (\<lambda>g.
     bind_prog (for_loop (items data_loader) (([], [])) (\<lambda>batch state.
       bind_prog (call ''getitem'' [batch, Lit ''sentence1'']) (\<lambda>t0.
       bind_prog (call ''getitem'' [batch, Lit ''sentence2'']) (\<lambda>t1.
       bind_prog (call ''tokenizer'' [t0, t1, Kw ''return_tensors'' (Lit ''pt''), Kw ''padding'' (Lit ''True''), Kw ''truncation'' (Lit ''True'')]) (\<lambda>inputs.
       bind_prog (call ''getitem'' [batch, Lit ''label'']) (\<lambda>labels.
       bind_prog (call ''__call__'' [model, Op ''**'' [inputs]]) (\<lambda>outputs.
       bind_prog (call ''torch.argmax'' [Attr outputs ''logits'', Kw ''dim'' (Lit ''1'')]) (\<lambda>predictions.
       bind_prog (call ''cpu'' [predictions]) (\<lambda>p.
       bind_prog (call ''numpy'' [p]) (\<lambda>p.
       bind_prog (call ''extend'' [Tuple (fst state), p]) (\<lambda>u.
       bind_prog (call ''cpu'' [labels]) (\<lambda>l.
       bind_prog (call ''numpy'' [l]) (\<lambda>l.
       bind_prog (call ''extend'' [Tuple (snd state), l]) (\<lambda>u.
       Returns (False, (fst state @ items p, snd state @ items l)))))))))))))))) (\<lambda>state.
     bind_prog (call ''accuracy_score'' [Tuple (snd state), Tuple (fst state)]) (\<lambda>accuracy.
     bind_prog (call ''print'' [Op ''f-string'' [Lit ''Accuracy: '', accuracy]]) (\<lambda>u.
     Returns (Lit ''None''))))))"

text \<open>
  \<^verbatim>\<open>train_model\<close>.
\<close>

definition train_model_calls :: "pyval \<Rightarrow> pyval \<Rightarrow> pyval \<Rightarrow> pyval prog" where
  "train_model_calls model train_dataloader num_epochs =
     bind_prog (call ''train'' [model]) (\<lambda>u.
     bind_prog (call ''range'' [num_epochs]) (\<lambda>epochs.
     bind_prog (for_loop (items epochs) () (\<lambda>epoch u.
       bind_prog (for_loop (items train_dataloader) (Lit ''0'') (\<lambda>batch total_loss.
         bind_prog (call ''getitem'' [batch, Lit ''sentence1'']) (\<lambda>s1.
         bind_prog (call ''getitem'' [batch, Lit ''sentence2'']) (\<lambda>s2.
         bind_prog (call ''tokenizer'' [s1, s2, Kw ''return_tensors'' (Lit ''pt''), Kw ''padding'' (Lit ''True''), Kw ''truncation'' (Lit ''True'')]) (\<lambda>inputs.
         bind_prog (call ''getitem'' [batch, Lit ''label'']) (\<lambda>labels.
         bind_prog (call ''__call__'' [model, Op ''**'' [inputs], Kw ''labels'' labels]) (\<lambda>outputs.
         bind_prog (call ''backward'' [Attr outputs ''loss'']) (\<lambda>u.
         bind_prog (call ''item'' [Attr outputs ''loss'']) (\<lambda>l.
         bind_prog (call ''iadd'' [total_loss, l]) (\<lambda>total_loss.
         Returns (False, total_loss))))))))))) (\<lambda>total_loss.
       bind_prog (call ''len'' [train_dataloader]) (\<lambda>n.
       bind_prog (call ''truediv'' [total_loss, n]) (\<lambda>avg_loss.
       bind_prog (call ''add'' [epoch, Lit ''1'']) (\<lambda>e.
       bind_prog (call ''print'' [Op ''f-string'' [e, num_epochs, avg_loss]]) (\<lambda>u.
       Returns (False, ())))))))) (\<lambda>u.
     Returns (Lit ''None''))))"

text \<open>
  \<^verbatim>\<open>set_qconfig_for_model\<close>.
\<close>

definition set_qconfig_for_model_calls :: "(pyval \<Rightarrow> bool) \<Rightarrow> pyval \<Rightarrow> pyval prog" where
  "set_qconfig_for_model_calls truth model =
     bind_prog (call ''named_modules'' [model]) (\<lambda>nms.
     bind_prog (for_loop (items nms) () (\<lambda>item u.
       bind_prog (call ''isinstance'' [Op ''unpack'' [item, Lit ''1''], Lit ''torch.nn.Embedding'']) (\<lambda>b.
       bind_prog (if truth b
       then call ''setattr'' [Op ''unpack'' [item, Lit ''1''], Lit ''qconfig'', Lit ''embedding_qconfig'']
       else call ''setattr'' [Op ''unpack'' [item, Lit ''1''], Lit ''qconfig'', Lit ''default_qconfig'']) (\<lambda>u.
       Returns (False, ()))))) (\<lambda>u.
     Returns (Lit ''None'')))"

text \<open>
  Every function the three notebooks define, under its name in the source, each applied to
  arbitrary arguments (\<open>arg 0\<close> the first, \<open>arg 1\<close> the second and so on).
\<close>

definition notebook_functions :: "(pyval \<Rightarrow> bool) \<Rightarrow> (nat \<Rightarrow> pyval) \<Rightarrow> (string \<times> pyval prog) list" where
  "notebook_functions truth arg =
     [(''IA3Adapter1.__init__'', IA3Adapter1_init_calls truth (arg 0) (arg 1) (arg 2) (arg 3) (arg 4) (arg 5)),
      (''IA3Adapter1.forward'', IA3Adapter1_forward_calls truth (arg 0) (arg 1)),
      (''ia3_params'', ia3_params_calls truth (arg 0)),
      (''match_submodules'', match_submodules_calls truth (arg 0) (arg 1)),
      (''get_submodule'', get_submodule_calls (arg 0) (arg 1)),
      (''replace_submodule'', replace_submodule_calls (arg 0) (arg 1) (arg 2)),
      (''inject_adapter (IA3)'', inject_adapter_calls truth (arg 0) (arg 1) (arg 2)),
      (''IA3Adapter2.__init__'', IA3Adapter2_init_calls truth (arg 0) (arg 1) (arg 2) (arg 3) (arg 4) (arg 5)),
      (''IA3Adapter2.get_equivalent_weight'', get_equivalent_weight_calls truth (arg 0)),
      (''IA3Adapter2.get_equivalent_bias'', get_equivalent_bias_calls truth (arg 0)),
      (''IA3Adapter2.forward'', IA3Adapter2_forward_calls truth (arg 0) (arg 1)),
      (''lambda x: IA3Adapter1(...)'', IA3Adapter1_adapter_fn_calls truth (arg 0)),
      (''lambda x: IA3Adapter2(...)'', IA3Adapter2_adapter_fn_calls truth (arg 0)),
      (''calculate_memory_kv_down_proj'', calculate_memory_kv_down_proj_calls (arg 0) (arg 1) (arg 2) (arg 3)),
      (''LoRALayer.__init__'', LoRALayer_init_calls truth (arg 0) (arg 1) (arg 2) (arg 3)),
      (''lambda x: x'', identity_dropout_calls (arg 0)),
      (''LoRAAdapter.reset_parameters'', reset_parameters_calls truth (arg 0)),
      (''LoRAAdapter.__init__'', LoRAAdapter_init_calls truth (arg 0) (arg 1) (arg 2) (arg 3) (arg 4) (arg 5) (arg 6)),
      (''LoRAAdapter.train'', LoRAAdapter_train_calls (arg 0) (arg 1)),
      (''LoRAAdapter.forward'', LoRAAdapter_forward_calls truth (arg 0) (arg 1)),
      (''mark_only_lora_as_trainable'', mark_only_lora_as_trainable_calls truth (arg 0)),
      (''inject_adapter (LoRA)'', inject_adapter_lora_calls truth (arg 0) (arg 1) (arg 2)),
      (''lambda x: LoRAAdapter(...)'', LoRA_adapter_fn_calls truth (arg 0)),
      (''tokenize_function'', tokenize_function_calls (arg 0)),
      (''finetune_causal_model'', finetune_causal_model_calls (arg 0) (arg 1) (arg 2) (arg 3)),
      (''split_into_chunks'', split_into_chunks_calls (arg 0) (arg 1)),
      (''calc_perplexity'', calc_perplexity_calls truth (arg 0) (arg 1) (arg 2)),
      (''apply_dynamic_quantization'', apply_dynamic_quantization_calls (arg 0)),
      (''evaluate_model (PTQ)'', evaluate_model_calls (arg 0) (arg 1)),
      (''evaluate_model (QAT)'', evaluate_model_qat_calls (arg 0) (arg 1)),
      (''train_model'', train_model_calls (arg 0) (arg 1) (arg 2)),
      (''set_qconfig_for_model'', set_qconfig_for_model_calls truth (arg 0))]"


section \<open>Properties of the substring test\<close>

lemma contains_iff_sublist: "contains key name \<longleftrightarrow> sublist key name"
  by (induction name) (auto simp: sublist_Cons_right)

lemma contains_append_right: "contains key p \<Longrightarrow> contains key (p @ q)"
  unfolding contains_iff_sublist sublist_def by (metis append.assoc)

lemma child_name_root [simp]: "child_name [] name = name"
  by (simp add: child_name_def)

lemma child_name_nested [simp]: "pfx \<noteq> [] \<Longrightarrow> child_name pfx name = pfx @ CHR ''.'' # name"
  by (simp add: child_name_def)

section \<open>The byte counts are functions of shape, element type and arguments\<close>

lemma memory_bytes_convert: "memory_bytes dt (convert cast t) = memory_bytes dt t"
  by (simp add: memory_bytes_def nelement_def convert_def)

lemma tensor_memory_cell_eq:
  "tensor_memory_cell to_fp16 to_int8 t =
     (4 * prod_list (shape t), 2 * prod_list (shape t), prod_list (shape t))"
  by (simp add: tensor_memory_cell_def memory_bytes_convert)
     (simp add: memory_bytes_def nelement_def)

lemma total_memory_bytes_eq:
  "total_memory_bytes hidden_dim_kv batch_size seq_len hidden_dim intermediate_dim =
     2 * batch_size * seq_len * (2 * hidden_dim_kv + intermediate_dim + hidden_dim)"
  by (simp add: total_memory_bytes_def algebra_simps)

lemma tensor_memory_cell_notebook:
  "tensor_memory_cell to_fp16 to_int8 \<lparr>shape = [100, 100], entries = xs\<rparr> = (40000, 20000, 10000)"
  by (simp add: tensor_memory_cell_eq)

lemma total_memory_bytes_notebook: "total_memory_bytes 256 32 216 2048 16384 = 261881856"
  by (simp add: total_memory_bytes_eq)

text \<open>
  C8 (as stated): for some pair of runs over the same shapes, element types and arguments
  the byte counts differ. No such pair exists: whatever entries \<^verbatim>\<open>torch.randn\<close> drew
  and however the conversions round, two tensors of the same shape give the same three
  counts, and \<^verbatim>\<open>calculate_memory_kv_down_proj\<close> gives one byte count for given arguments
  and given \<^verbatim>\<open>hidden_dim_kv\<close>.
\<close>

theorem byte_counts_differ_counterexample:
  "\<not> (\<exists>t1 t2 f1 g1 f2 g2. shape t1 = shape t2 \<and>
         tensor_memory_cell f1 g1 t1 \<noteq> tensor_memory_cell f2 g2 t2)
   \<and> \<not> (\<exists>kv b s h i run1 run2.
         run1 = total_memory_bytes kv b s h i \<and> run2 = total_memory_bytes kv b s h i \<and>
         run1 \<noteq> run2)"
  by (simp add: tensor_memory_cell_eq)

text \<open>
  C8 (amended): the byte counts are deterministic. Two runs of the tensor memory cell on
  tensors of the same shape print the same counts, namely 4, 2 and 1 bytes per element
  times the number of elements, whatever the entries are; and the byte count of
  \<^verbatim>\<open>calculate_memory_kv_down_proj\<close> is
  \<open>2 * batch_size * seq_len * (2 * hidden_dim_kv + intermediate_dim + hidden_dim)\<close>,
  its result that count divided by \<open>1024 ^ 3\<close>.
\<close>

theorem byte_counts_deterministic:
  "(shape t1 = shape t2 \<longrightarrow>
      tensor_memory_cell f1 g1 t1 = tensor_memory_cell f2 g2 t2)
   \<and> tensor_memory_cell f1 g1 t1 =
       (4 * prod_list (shape t1), 2 * prod_list (shape t1), prod_list (shape t1))
   \<and> total_memory_bytes kv b s h i = 2 * b * s * (2 * kv + i + h)
   \<and> calculate_memory_kv_down_proj kv b s h i
       = real_of_int (2 * b * s * (2 * kv + i + h)) / 1024 ^ 3"
  by (simp add: tensor_memory_cell_eq total_memory_bytes_eq calculate_memory_kv_down_proj_def)

theorem byte_counts_deterministic_witness:
  "shape \<lparr>shape = [2, 3], entries = [1, 2, 3, 4, 5, 6]\<rparr>
     = shape \<lparr>shape = [2, 3], entries = [0, -1, 7, 1/2, 9, 4]\<rparr>
   \<and> tensor_memory_cell (\<lambda>x. x) (\<lambda>x. real_of_int \<lfloor>x\<rfloor>)
         \<lparr>shape = [2, 3], entries = [1, 2, 3, 4, 5, 6]\<rparr>
       = tensor_memory_cell (\<lambda>x. x / 2) (\<lambda>x. 0)
         \<lparr>shape = [2, 3], entries = [0, -1, 7, 1/2, 9, 4]\<rparr>
   \<and> tensor_memory_cell (\<lambda>x. x) (\<lambda>x. real_of_int \<lfloor>x\<rfloor>)
         \<lparr>shape = [2, 3], entries = [1, 2, 3, 4, 5, 6]\<rparr> = (24, 12, 6)
   \<and> total_memory_bytes 256 32 216 2048 16384 = 261881856"
  using byte_counts_deterministic [of
      "\<lparr>shape = [2, 3], entries = [1, 2, 3, 4, 5, 6]\<rparr>"
      "\<lparr>shape = [2, 3], entries = [0, -1, 7, 1/2, 9, 4]\<rparr>"
      "\<lambda>x. x" "\<lambda>x. real_of_int \<lfloor>x\<rfloor>" "\<lambda>x. x / 2" "\<lambda>x. 0" 256 32 216 2048 16384]
  by (simp add: tensor_memory_cell_eq)

section \<open>Only LoRA parameters stay trainable\<close>

lemma named_members_fresh:
  "(name, a) \<in> set (named_members memo xs) \<Longrightarrow> a \<notin> set memo"
  by (induction memo xs rule: named_members.induct) (auto split: if_splits)

lemma named_members_distinct: "distinct (map snd (named_members memo xs))"
proof (induction memo xs rule: named_members.induct)
  case (1 memo)
  show ?case by simp
next
  case (2 memo name v rest)
  then show ?case
    by (auto dest: named_members_fresh)
qed

lemma freeze_all_apply:
  "freeze_all ps s a = (if a \<in> set ps then (s a)\<lparr>requires_grad := False\<rparr> else s a)"
  by (induction ps arbitrary: s) auto

lemma enable_lora_other:
  "a \<notin> snd ` set xs \<Longrightarrow> enable_lora xs s a = s a"
  by (induction xs s rule: enable_lora.induct) auto

lemma enable_lora_apply:
  "distinct (map snd xs) \<Longrightarrow> (name, a) \<in> set xs \<Longrightarrow>
   requires_grad (enable_lora xs s a) =
     (if contains ''lora_A'' name \<or> contains ''lora_B'' name then True else requires_grad (s a))"
proof (induction xs arbitrary: s)
  case Nil
  then show ?case by simp
next
  case (Cons x rest)
  obtain n p where x: "x = (n, p)" by (cases x)
  show ?case
  proof (cases "(name, a) = (n, p)")
    case True
    with Cons.prems x have "a \<notin> snd ` set rest" by auto
    with True x show ?thesis by (simp add: enable_lora_other)
  next
    case False
    with Cons.prems x have mem: "(name, a) \<in> set rest" and ne: "a \<noteq> p"
      and d: "distinct (map snd rest)" by force+
    have "requires_grad (enable_lora rest s' a) =
        (if contains ''lora_A'' name \<or> contains ''lora_B'' name then True
         else requires_grad (s' a))" for s'
      using Cons.IH [OF d mem] .
    from this [of s] this [of "s(p := (s p)\<lparr>requires_grad := True\<rparr>)"] ne x
    show ?thesis by simp
  qed
qed

text \<open>
  C3. After \<^verbatim>\<open>mark_only_lora_as_trainable(model)\<close>, a parameter that
  \<^verbatim>\<open>named_parameters()\<close> yields under the name \<open>name\<close> requires a gradient if and only
  if \<open>name\<close> contains \<^verbatim>\<open>lora_A\<close> or \<^verbatim>\<open>lora_B\<close>; every other parameter is frozen,
  whatever the store held before.
\<close>

theorem mark_only_lora_as_trainable_iff:
  assumes "(name, p) \<in> set (named_parameters registered)"
  shows "requires_grad (mark_only_lora_as_trainable registered s p)
           \<longleftrightarrow> contains ''lora_A'' name \<or> contains ''lora_B'' name"
proof -
  have d: "distinct (map snd (named_parameters registered))"
    by (simp add: named_parameters_def named_members_distinct)
  have "p \<in> set (parameters registered)"
    using assms by (force simp: parameters_def)
  then have "requires_grad (freeze_all (parameters registered) s p) = False"
    by (simp add: freeze_all_apply)
  then show ?thesis
    unfolding mark_only_lora_as_trainable_def
    using enable_lora_apply [OF d assms] by simp
qed

text \<open>
  A model with a tied parameter: object 1 is registered as \<^verbatim>\<open>fc.weight\<close> and again as
  \<^verbatim>\<open>head.lora_B\<close>; it is enumerated under its first name only and ends up frozen.
\<close>

theorem mark_only_lora_as_trainable_iff_witness:
  "(''fc.lora_A'', 2) \<in> set (named_parameters [(''fc.weight'', 1), (''fc.lora_A'', 2), (''head.lora_B'', 1)])
   \<and> (''fc.weight'', 1) \<in> set (named_parameters [(''fc.weight'', 1), (''fc.lora_A'', 2), (''head.lora_B'', 1)])
   \<and> requires_grad (mark_only_lora_as_trainable
        [(''fc.weight'', 1), (''fc.lora_A'', 2), (''head.lora_B'', 1)]
        (\<lambda>a. \<lparr>requires_grad = (a = 1), data = []\<rparr>) 2)
   \<and> \<not> requires_grad (mark_only_lora_as_trainable
        [(''fc.weight'', 1), (''fc.lora_A'', 2), (''head.lora_B'', 1)]
        (\<lambda>a. \<lparr>requires_grad = (a = 1), data = []\<rparr>) 1)"
  using mark_only_lora_as_trainable_iff [of "''fc.lora_A''" 2
      "[(''fc.weight'', 1), (''fc.lora_A'', 2), (''head.lora_B'', 1)]"
      "\<lambda>a. \<lparr>requires_grad = (a = 1), data = []\<rparr>"]
    mark_only_lora_as_trainable_iff [of "''fc.weight''" 1
      "[(''fc.weight'', 1), (''fc.lora_A'', 2), (''head.lora_B'', 1)]"
      "\<lambda>a. \<lparr>requires_grad = (a = 1), data = []\<rparr>"]
  by (simp add: named_parameters_def)


section \<open>Broadcasting a row vector over the last dimension\<close>

lemma src_index_same: "k < prod_list s \<Longrightarrow> src_index s s k = k"
proof (induction s arbitrary: k)
  case Nil
  then show ?case by simp
next
  case (Cons d ds)
  then have pos: "0 < prod_list ds" by (cases "prod_list ds = 0") auto
  then have "k mod prod_list ds < prod_list ds" by simp
  then have ih: "src_index ds ds (k mod prod_list ds) = k mod prod_list ds"
    by (rule Cons.IH)
  show ?case
  proof (cases "d = 1")
    case True
    with Cons.prems have "k mod prod_list ds = k" by simp
    with True ih show ?thesis by simp
  next
    case False
    then show ?thesis by (simp add: ih)
  qed
qed

lemma src_index_row:
  "k < prod_list (pre @ [d]) \<Longrightarrow>
   src_index (pre @ [d]) (replicate (length pre) 1 @ [d]) k = k mod d"
proof (induction pre arbitrary: k)
  case Nil
  then show ?case by simp
next
  case (Cons a pre)
  let ?P = "prod_list (pre @ [d])"
  from Cons.prems have pos: "0 < ?P" by (cases "?P = 0") auto
  then have "k mod ?P < ?P" by simp
  then have "src_index (pre @ [d]) (replicate (length pre) 1 @ [d]) (k mod ?P) = k mod ?P mod d"
    by (rule Cons.IH)
  moreover have "d dvd ?P" by simp
  ultimately show ?case by (simp add: mod_mod_cancel)
qed

lemma broadcast_shape_row:
  "broadcast_shape (pre @ [d]) (replicate (length pre) 1 @ [d]) = Some (pre @ [d])"
  by (induction pre) auto

lemma mul_row:
  assumes "shape x = pre @ [d]" "pre \<noteq> []" "shape y = [1, d]"
  shows "broadcast (*) x y = Inr \<lparr>shape = pre @ [d],
           entries = map (\<lambda>k. entries x ! k * entries y ! (k mod d)) [0..<prod_list (pre @ [d])]\<rparr>"
proof -
  have n: "max (length (shape x)) (length (shape y)) = length pre + 1"
    using assms by (cases pre) auto
  have sx: "pad_shape (length pre + 1) (shape x) = pre @ [d]"
    using assms by (simp add: pad_shape_def)
  have "replicate (length pre - 1) 1 @ [1, d] = replicate (length pre) (1::nat) @ [d]"
    using assms(2) by (cases pre) (auto simp: replicate_append_same)
  then have sy: "pad_shape (length pre + 1) (shape y) = replicate (length pre) 1 @ [d]"
    using assms by (simp add: pad_shape_def)
  show ?thesis
    unfolding broadcast_def n Let_def sx sy broadcast_shape_row
    using src_index_row [of _ pre d] by (simp add: src_index_same)
qed


lemma rank2_split:
  assumes "2 \<le> length s" "last s = d"
  obtains pre where "s = pre @ [d]" "pre \<noteq> []"
proof -
  from assms have "s \<noteq> []" by auto
  then have "s = butlast s @ [d]" using assms(2) by (metis append_butlast_last_id)
  moreover have "butlast s \<noteq> []" using assms(1) by (cases s rule: rev_cases) auto
  ultimately show thesis using that by blast
qed

lemma mul_ones_row:
  assumes "valid x" "2 \<le> length (shape x)" "last (shape x) = d"
  shows "broadcast (*) x (ones [1, d]) = Inr x"
proof -
  from assms(2,3) obtain pre where s: "shape x = pre @ [d]" and pre: "pre \<noteq> []"
    by (rule rank2_split)
  have len: "length (entries x) = prod_list (pre @ [d])"
    using assms(1) s by (simp add: valid_def)
  have "map (\<lambda>k. entries x ! k * entries (ones [1, d]) ! (k mod d)) [0..<prod_list (pre @ [d])]
        = map (\<lambda>k. entries x ! k) [0..<prod_list (pre @ [d])]"
  proof (rule map_cong [OF refl])
    fix k assume "k \<in> set [0..<prod_list (pre @ [d])]"
    then have "0 < d" by (cases "d = 0") auto
    then show "entries x ! k * entries (ones [1, d]) ! (k mod d) = entries x ! k"
      by (simp add: ones_def)
  qed
  also have "\<dots> = entries x" using len by (metis map_nth)
  finally have "broadcast (*) x (ones [1, d]) = Inr \<lparr>shape = shape x, entries = entries x\<rparr>"
    using mul_row [OF s pre, of "ones [1, d]"] s by (simp add: ones_def)
  then show ?thesis by simp
qed

text \<open>
  Multiplying by the float32 ones keeps a tensor of at least two dimensions whose element
  type the promotion with float32 leaves alone: float32 and float64.
\<close>

lemma keeps_type_iff:
  "keeps_type x \<longleftrightarrow> element_type x = torch_float32 \<or> element_type x = torch_float64"
  by (cases "element_type x") (simp_all add: keeps_type_def promote_types_def)

lemma torch_mul_ones_row:
  assumes "valid (tensor_of x)" "2 \<le> length (shape (tensor_of x))"
    and "last (shape (tensor_of x)) = d" and "keeps_type x"
  shows "torch_mul x (torch_ones [1, d]) = Inr x"
proof -
  have "broadcast (*) (tensor_of x) (ones [1, d]) = Inr (tensor_of x)"
    using assms(1-3) by (rule mul_ones_row)
  with assms(4) show ?thesis
    by (simp add: torch_mul_def torch_ones_def keeps_type_def)
qed

text \<open>
  C9 (amended). A freshly constructed \<^verbatim>\<open>IA3Adapter1\<close> is an identity wrapper on batched
  float32 and float64 tensors: when the tensor that \<^verbatim>\<open>forward\<close> multiplies by \<^verbatim>\<open>ia3_lw\<close>
  (the input \<open>x\<close> when \<^verbatim>\<open>is_feedforward\<close>, the wrapped layer's output otherwise) has at
  least two dimensions, the last of size \<^verbatim>\<open>in_features\<close> (respectively \<^verbatim>\<open>out_features\<close>),
  and an element type that promotion with the float32 of \<^verbatim>\<open>ia3_lw\<close> leaves unchanged
  (float32 or float64), then \<^verbatim>\<open>forward(x)\<close> is what the wrapped layer returns on \<open>x\<close>, an
  exception of the wrapped layer included.
\<close>

theorem fresh_IA3Adapter1_is_identity:
  assumes "if ff
           then valid (tensor_of x) \<and> 2 \<le> length (shape (tensor_of x))
                \<and> last (shape (tensor_of x)) = n_in
                \<and> (element_type x = torch_float32 \<or> element_type x = torch_float64)
           else (\<forall>r. layer x = Inr r \<longrightarrow>
                   valid (tensor_of r) \<and> 2 \<le> length (shape (tensor_of r))
                   \<and> last (shape (tensor_of r)) = n_out
                   \<and> (element_type r = torch_float32 \<or> element_type r = torch_float64))"
  shows "IA3Adapter1_forward (IA3Adapter1_init layer n_in n_out ff) x = layer x"
proof (cases ff)
  case True
  with assms have "valid (tensor_of x)" "2 \<le> length (shape (tensor_of x))"
    "last (shape (tensor_of x)) = n_in" "keeps_type x"
    by (simp_all add: keeps_type_iff)
  then have "torch_mul x (torch_ones [1, n_in]) = Inr x"
    by (rule torch_mul_ones_row)
  with True show ?thesis
    by (simp add: IA3Adapter1_forward_def IA3Adapter1_init_def)
next
  case False
  show ?thesis
  proof (cases "layer x")
    case (Inl e)
    with False show ?thesis
      by (simp add: IA3Adapter1_forward_def IA3Adapter1_init_def)
  next
    case (Inr r)
    with False assms have "valid (tensor_of r)" "2 \<le> length (shape (tensor_of r))"
      "last (shape (tensor_of r)) = n_out" "keeps_type r"
      by (simp_all add: keeps_type_iff)
    then have "torch_mul r (torch_ones [1, n_out]) = Inr r"
      by (rule torch_mul_ones_row)
    with False Inr show ?thesis
      by (simp add: IA3Adapter1_forward_def IA3Adapter1_init_def)
  qed
qed

text \<open>
  A float32 layer with weight rows \<open>(1, 2)\<close> and \<open>(3, 4)\<close> on a batch of two rows, where
  \<^verbatim>\<open>ia3_lw\<close> is repeated over the rows, in both modes.
\<close>

theorem fresh_IA3Adapter1_is_identity_witness:
  "IA3Adapter1_forward
     (IA3Adapter1_init
        (nn_Linear_forward
           \<lparr>linear_weight = \<lparr>element_type = torch_float32,
                              tensor_of = \<lparr>shape = [2, 2], entries = [1, 2, 3, 4]\<rparr>\<rparr>,
            linear_bias = None\<rparr>) 2 2 False)
     \<lparr>element_type = torch_float32, tensor_of = \<lparr>shape = [2, 2], entries = [1, 1, 1, 2]\<rparr>\<rparr>
     = Inr \<lparr>element_type = torch_float32, tensor_of = \<lparr>shape = [2, 2], entries = [3, 7, 5, 11]\<rparr>\<rparr>
   \<and> IA3Adapter1_forward
     (IA3Adapter1_init
        (nn_Linear_forward
           \<lparr>linear_weight = \<lparr>element_type = torch_float32,
                              tensor_of = \<lparr>shape = [2, 2], entries = [1, 2, 3, 4]\<rparr>\<rparr>,
            linear_bias = None\<rparr>) 2 2 True)
     \<lparr>element_type = torch_float32, tensor_of = \<lparr>shape = [2, 2], entries = [1, 1, 1, 2]\<rparr>\<rparr>
     = Inr \<lparr>element_type = torch_float32, tensor_of = \<lparr>shape = [2, 2], entries = [3, 7, 5, 11]\<rparr>\<rparr>"
proof -
  let ?layer = "nn_Linear_forward
           \<lparr>linear_weight = \<lparr>element_type = torch_float32,
                              tensor_of = \<lparr>shape = [2, 2], entries = [1, 2, 3, 4]\<rparr>\<rparr>,
            linear_bias = None\<rparr>"
  let ?x = "\<lparr>element_type = torch_float32, tensor_of = \<lparr>shape = [2, 2], entries = [1, 1, 1, 2]\<rparr>\<rparr>"
  let ?y = "\<lparr>element_type = torch_float32, tensor_of = \<lparr>shape = [2, 2], entries = [3, 7, 5, 11]\<rparr>\<rparr>"
  have out: "?layer ?x = Inr ?y"
    by code_simp
  have h1: "if False
           then valid (tensor_of ?x) \<and> 2 \<le> length (shape (tensor_of ?x))
                \<and> last (shape (tensor_of ?x)) = 2
                \<and> (element_type ?x = torch_float32 \<or> element_type ?x = torch_float64)
           else (\<forall>r. ?layer ?x = Inr r \<longrightarrow>
                   valid (tensor_of r) \<and> 2 \<le> length (shape (tensor_of r))
                   \<and> last (shape (tensor_of r)) = 2
                   \<and> (element_type r = torch_float32 \<or> element_type r = torch_float64))"
    unfolding out by (simp add: valid_def)
  have h2: "if True
           then valid (tensor_of ?x) \<and> 2 \<le> length (shape (tensor_of ?x))
                \<and> last (shape (tensor_of ?x)) = 2
                \<and> (element_type ?x = torch_float32 \<or> element_type ?x = torch_float64)
           else (\<forall>r. ?layer ?x = Inr r \<longrightarrow>
                   valid (tensor_of r) \<and> 2 \<le> length (shape (tensor_of r))
                   \<and> last (shape (tensor_of r)) = 2
                   \<and> (element_type r = torch_float32 \<or> element_type r = torch_float64))"
    by (simp add: valid_def)
  show ?thesis
    using fresh_IA3Adapter1_is_identity [where ff = False and x = ?x and layer = ?layer
        and n_in = 2 and n_out = 2, OF h1]
      fresh_IA3Adapter1_is_identity [where ff = True and x = ?x and layer = ?layer
        and n_in = 2 and n_out = 2, OF h2] out
    by simp
qed

text \<open>
  C9 (as stated) fails in two ways. On a one-dimensional input the wrapped float32 layer
  maps the vector \<open>(1, 1)\<close> to a tensor of shape \<open>(2)\<close>, and multiplying by the
  \<open>(1, 2)\<close>-shaped \<^verbatim>\<open>ia3_lw\<close> broadcasts it to shape \<open>(1, 2)\<close>. With a bfloat16 layer and a
  bfloat16 input the product with the float32 \<^verbatim>\<open>ia3_lw\<close> is float32: when \<^verbatim>\<open>is_feedforward\<close>
  the layer is handed a float32 tensor and raises the RuntimeError of mixed element types,
  where the layer alone returns; otherwise \<^verbatim>\<open>forward\<close> returns a float32 tensor where the
  layer alone returns a bfloat16 one.
\<close>

theorem fresh_IA3Adapter1_rank1_counterexample:
  "IA3Adapter1_forward
     (IA3Adapter1_init
        (nn_Linear_forward
           \<lparr>linear_weight = \<lparr>element_type = torch_float32,
                              tensor_of = \<lparr>shape = [2, 2], entries = [1, 2, 3, 4]\<rparr>\<rparr>,
            linear_bias = None\<rparr>) 2 2 False)
     \<lparr>element_type = torch_float32, tensor_of = \<lparr>shape = [2], entries = [1, 1]\<rparr>\<rparr>
     = Inr \<lparr>element_type = torch_float32, tensor_of = \<lparr>shape = [1, 2], entries = [3, 7]\<rparr>\<rparr>
   \<and> nn_Linear_forward
           \<lparr>linear_weight = \<lparr>element_type = torch_float32,
                              tensor_of = \<lparr>shape = [2, 2], entries = [1, 2, 3, 4]\<rparr>\<rparr>,
            linear_bias = None\<rparr>
     \<lparr>element_type = torch_float32, tensor_of = \<lparr>shape = [2], entries = [1, 1]\<rparr>\<rparr>
     = Inr \<lparr>element_type = torch_float32, tensor_of = \<lparr>shape = [2], entries = [3, 7]\<rparr>\<rparr>
   \<and> IA3Adapter1_forward
     (IA3Adapter1_init
        (nn_Linear_forward
           \<lparr>linear_weight = \<lparr>element_type = torch_bfloat16,
                              tensor_of = \<lparr>shape = [2, 2], entries = [1, 2, 3, 4]\<rparr>\<rparr>,
            linear_bias = None\<rparr>) 2 2 True)
     \<lparr>element_type = torch_bfloat16, tensor_of = \<lparr>shape = [2, 2], entries = [1, 1, 1, 2]\<rparr>\<rparr>
     = Inl RuntimeError
   \<and> IA3Adapter1_forward
     (IA3Adapter1_init
        (nn_Linear_forward
           \<lparr>linear_weight = \<lparr>element_type = torch_bfloat16,
                              tensor_of = \<lparr>shape = [2, 2], entries = [1, 2, 3, 4]\<rparr>\<rparr>,
            linear_bias = None\<rparr>) 2 2 False)
     \<lparr>element_type = torch_bfloat16, tensor_of = \<lparr>shape = [2, 2], entries = [1, 1, 1, 2]\<rparr>\<rparr>
     = Inr \<lparr>element_type = torch_float32, tensor_of = \<lparr>shape = [2, 2], entries = [3, 7, 5, 11]\<rparr>\<rparr>
   \<and> nn_Linear_forward
           \<lparr>linear_weight = \<lparr>element_type = torch_bfloat16,
                              tensor_of = \<lparr>shape = [2, 2], entries = [1, 2, 3, 4]\<rparr>\<rparr>,
            linear_bias = None\<rparr>
     \<lparr>element_type = torch_bfloat16, tensor_of = \<lparr>shape = [2, 2], entries = [1, 1, 1, 2]\<rparr>\<rparr>
     = Inr \<lparr>element_type = torch_bfloat16, tensor_of = \<lparr>shape = [2, 2], entries = [3, 7, 5, 11]\<rparr>\<rparr>"
  by code_simp


section \<open>The folded IA3 adapter cannot run\<close>

lemma IA3Adapter2_forward_raises: "IA3Adapter2_forward self x = Inl AttributeError"
  by (simp add: IA3Adapter2_forward_def get_equivalent_weight_def get_weight_def)

text \<open>
  C1. The two implementations do not agree on any input on which \<^verbatim>\<open>IA3Adapter1\<close> returns:
  \<^verbatim>\<open>IA3Adapter2.forward\<close> first calls \<^verbatim>\<open>get_equivalent_weight\<close>, which calls the undefined
  \<^verbatim>\<open>self.get_weight\<close>, and ends in AttributeError. On the float32 layer with weight rows
  \<open>(1, 2)\<close> and \<open>(3, 4)\<close> and no bias, fresh adapters and the batch of rows \<open>(1, 1)\<close> and
  \<open>(1, 2)\<close>, \<^verbatim>\<open>IA3Adapter1.forward\<close> returns the rows \<open>(3, 7)\<close> and \<open>(5, 11)\<close>.
\<close>

theorem IA3Adapter2_forward_AttributeError:
  "IA3Adapter1_forward
     (IA3Adapter1_init
        (nn_Linear_forward
           \<lparr>linear_weight = \<lparr>element_type = torch_float32,
                              tensor_of = \<lparr>shape = [2, 2], entries = [1, 2, 3, 4]\<rparr>\<rparr>,
            linear_bias = None\<rparr>) 2 2 False)
     \<lparr>element_type = torch_float32, tensor_of = \<lparr>shape = [2, 2], entries = [1, 1, 1, 2]\<rparr>\<rparr>
     = Inr \<lparr>element_type = torch_float32, tensor_of = \<lparr>shape = [2, 2], entries = [3, 7, 5, 11]\<rparr>\<rparr>
   \<and> IA3Adapter2_forward
     (IA3Adapter2_init
           \<lparr>linear_weight = \<lparr>element_type = torch_float32,
                              tensor_of = \<lparr>shape = [2, 2], entries = [1, 2, 3, 4]\<rparr>\<rparr>,
            linear_bias = None\<rparr> 2 2 False)
     \<lparr>element_type = torch_float32, tensor_of = \<lparr>shape = [2, 2], entries = [1, 1, 1, 2]\<rparr>\<rparr>
     = Inl AttributeError"
  by code_simp


section \<open>The LoRA adapter returns a flattened batch\<close>

text \<open>
  With \<open>r > 0\<close>, \<^verbatim>\<open>forward\<close> rebinds \<open>x\<close> to its view of shape
  \<open>(batch_size * seq_len, in_features)\<close>, passes that view to the wrapped layer and adds
  the low-rank update of the same shape: the result has one leading dimension
  \<open>batch_size * seq_len\<close>, not the two leading dimensions of the input.
\<close>

lemma torch_add_same_shape:
  assumes "shape y = [m, n]" "shape z = [m, n]"
  shows "\<exists>t. torch_add y z = Inr t \<and> shape t = [m, n]"
  using assms by (simp add: torch_add_def broadcast_def pad_shape_def)

lemma LoRAAdapter_forward_shape:
  assumes r: "lora_rank self > 0"
    and x: "shape x = [batch_size, seq_len, n_in]" "0 < n_in"
    and layer: "lora_existing_layer self = linear_forward l" "linear_ok l n_out n_in"
    and A: "shape (lora_A self) = [k, n_in]"
    and B: "shape (lora_B self) = [n_out, k]"
    and d: "\<And>t. shape (lora_dropout self t) = shape t"
  shows "\<exists>y. LoRAAdapter_forward self x = Inr y \<and> shape y = [batch_size * seq_len, n_out]"
proof -
  let ?m = "batch_size * seq_len"
  let ?x2 = "x\<lparr>shape := [?m, n_in]\<rparr>"
  have v: "view_rows x n_in = Inr ?x2"
    using x by (simp add: view_rows_def)
  obtain xT where xT: "transpose_t ?x2 = Inr xT" "shape xT = [n_in, ?m]"
    by (simp add: transpose_t_def)
  obtain o1 where o1: "matmul (lora_A self) xT = Inr o1" "shape o1 = [k, ?m]"
    using A xT(2) by (simp add: matmul_def)
  obtain o2 where o2: "matmul (lora_B self) o1 = Inr o2" "shape o2 = [n_out, ?m]"
    using B o1(2) by (simp add: matmul_def)
  obtain o3 where o3: "transpose_t o2 = Inr o3" "shape o3 = [?m, n_out]"
    using o2(2) by (simp add: transpose_t_def)
  have s: "shape (lora_dropout self (scale (scaling self) o3)) = [?m, n_out]"
    using o3(2) by (simp add: d scale_def)
  have b: "case bias l of None \<Rightarrow> True | Some bt \<Rightarrow> shape bt = [n_out]"
    using layer(2) by (auto simp: linear_ok_def split: option.splits)
  then have nb: "\<not> (case bias l of None \<Rightarrow> False | Some bt \<Rightarrow> shape bt \<noteq> [n_out])"
    by (cases "bias l") auto
  obtain y where y: "linear_forward l ?x2 = Inr y" "shape y = [?m, n_out]"
    using layer(2) nb by (simp add: linear_forward_def F_linear_def linear_ok_def)
  from torch_add_same_shape [OF y(2) s]
  show ?thesis
    using r x(1) v xT(1) o1(1) o2(1) o3(1) y(1) layer(1)
    by (simp add: LoRAAdapter_forward_def)
qed


text \<open>
  C4, at the input of shape \<open>(2, 2, 2)\<close> with entries 1 to 8, for a wrapped identity layer,
  \<open>r = 1\<close>, \<open>lora_alpha = 2\<close>, \<open>lora_A = (1 1)\<close>, \<open>lora_B = (1 0)\<^sup>T\<close> and no dropout:
  every row \<open>v\<close> becomes \<open>v + 2 \<sqdot> lora_B (lora_A v)\<close>, as the claim says, but the
  result has shape \<open>(4, 2)\<close>, while the wrapped layer's output on the same input, and the
  adapter's own output when \<open>r = 0\<close>, have shape \<open>(2, 2, 2)\<close>.
\<close>

theorem LoRAAdapter_forward_loses_batch_shape:
  "LoRAAdapter_forward
     \<lparr>lora_existing_layer = linear_forward
        \<lparr>weight = \<lparr>shape = [2, 2], entries = [1, 0, 0, 1]\<rparr>, bias = None\<rparr>,
      lora_rank = 1, lora_alpha = 2, lora_dropout = LoRALayer_dropout 0 (\<lambda>t. t),
      lora_A = \<lparr>shape = [1, 2], entries = [1, 1]\<rparr>,
      lora_B = \<lparr>shape = [2, 1], entries = [1, 0]\<rparr>, scaling = 2 / 1\<rparr>
     \<lparr>shape = [2, 2, 2], entries = [1, 2, 3, 4, 5, 6, 7, 8]\<rparr>
   = Inr \<lparr>shape = [4, 2], entries = [7, 2, 17, 4, 27, 6, 37, 8]\<rparr>
   \<and> linear_forward \<lparr>weight = \<lparr>shape = [2, 2], entries = [1, 0, 0, 1]\<rparr>, bias = None\<rparr>
       \<lparr>shape = [2, 2, 2], entries = [1, 2, 3, 4, 5, 6, 7, 8]\<rparr>
     = Inr \<lparr>shape = [2, 2, 2], entries = [1, 2, 3, 4, 5, 6, 7, 8]\<rparr>
   \<and> LoRAAdapter_forward
     \<lparr>lora_existing_layer = linear_forward
        \<lparr>weight = \<lparr>shape = [2, 2], entries = [1, 0, 0, 1]\<rparr>, bias = None\<rparr>,
      lora_rank = 0, lora_alpha = 2, lora_dropout = LoRALayer_dropout 0 (\<lambda>t. t),
      lora_A = \<lparr>shape = [1, 2], entries = [1, 1]\<rparr>,
      lora_B = \<lparr>shape = [2, 1], entries = [1, 0]\<rparr>, scaling = 2 / 1\<rparr>
     \<lparr>shape = [2, 2, 2], entries = [1, 2, 3, 4, 5, 6, 7, 8]\<rparr>
   = Inr \<lparr>shape = [2, 2, 2], entries = [1, 2, 3, 4, 5, 6, 7, 8]\<rparr>"
  by code_simp

section \<open>Replacing a submodule and getting it back\<close>

lemma map_of_assign_same: "map_of (assign n v cs) n = Some v"
  by (induction cs) auto

lemma map_of_assign_other: "n' \<noteq> n \<Longrightarrow> map_of (assign n v cs) n' = map_of cs n'"
  by (induction cs) auto

lemma getattr_setattr_same: "getattr (setattr m n v) n = Inr v"
  by (simp add: getattr_def setattr_def map_of_assign_same)

lemma getattr_setattr_other: "n' \<noteq> n \<Longrightarrow> getattr (setattr m n v) n' = getattr m n'"
  by (simp add: getattr_def setattr_def map_of_assign_other)

lemma info_setattr: "info (setattr m n v) = info m"
  by (simp add: setattr_def)

lemma split_dot_nonempty: "split_dot s \<noteq> []"
  by (induction s) (auto split: list.splits)







section \<open>Injection leaves the other modules alone\<close>

lemma split_dot_prefix:
  "prefix (split_dot p) (split_dot q) \<Longrightarrow> prefix p q"
proof (induction p arbitrary: q)
  case Nil
  show ?case by simp
next
  case (Cons c cs)
  obtain w ws where sp: "split_dot cs = w # ws"
    using split_dot_nonempty [of cs] by (cases "split_dot cs") auto
  show ?case
  proof (cases q)
    case Nil
    with Cons.prems sp show ?thesis
      by (auto split: if_splits)
  next
    case (Cons d ds)
    obtain v vs where sq: "split_dot ds = v # vs"
      using split_dot_nonempty [of ds] by (cases "split_dot ds") auto
    from Cons.prems sp sq Cons have "c = d \<and> prefix (split_dot cs) (split_dot ds)"
      by (auto split: if_splits)
    with Cons.IH [of ds] Cons show ?thesis by simp
  qed
qed

lemma contains_prefix: "contains key p \<Longrightarrow> prefix p q \<Longrightarrow> contains key q"
  by (auto simp: prefix_def contains_append_right)

lemma info_replace_atoms:
  "replace_atoms m subs final new = Inr m' \<Longrightarrow> info m' = info m"
  by (cases subs) (auto simp: info_setattr split: sum.splits)

lemma replace_atoms_frame:
  "replace_atoms m subs final new = Inr m' \<Longrightarrow> \<not> prefix (subs @ [final]) atoms \<Longrightarrow>
   get_atoms m atoms = Inr c \<Longrightarrow> \<exists>c'. get_atoms m' atoms = Inr c' \<and> info c' = info c"
proof (induction subs arbitrary: m m' atoms)
  case Nil
  show ?case
  proof (cases atoms)
    case Nil
    with Nil.prems show ?thesis by (auto simp: info_setattr)
  next
    case (Cons a as)
    with Nil.prems have "a \<noteq> final" by auto
    with Nil.prems Cons show ?thesis
      by (auto simp: getattr_setattr_other split: sum.splits)
  qed
next
  case (Cons sub subs)
  from Cons.prems(1) obtain child child' where child: "getattr m sub = Inr child"
    and rep: "replace_atoms child subs final new = Inr child'"
    and m': "m' = setattr m sub child'"
    by (auto split: sum.splits)
  show ?case
  proof (cases atoms)
    case Nil
    with Cons.prems m' show ?thesis by (auto simp: info_setattr)
  next
    case (Cons a as)
    note atoms = Cons
    show ?thesis
    proof (cases "a = sub")
      case True
      with Cons.prems(2) atoms have np: "\<not> prefix (subs @ [final]) as" by simp
      from Cons.prems(3) atoms True child have "get_atoms child as = Inr c" by simp
      from Cons.IH [OF rep np this] obtain c' where
        "get_atoms child' as = Inr c'" "info c' = info c" by blast
      with atoms True m' show ?thesis by (simp add: getattr_setattr_same)
    next
      case False
      with Cons.prems(3) atoms m' show ?thesis
        by (auto simp: getattr_setattr_other split: sum.splits)
    qed
  qed
qed

lemma replace_submodule_frame:
  assumes "replace_submodule m p new = Inr m'"
    and "contains key p" "\<not> contains key q"
    and "get_submodule m q = Inr c"
  shows "\<exists>c'. get_submodule m' q = Inr c' \<and> info c' = info c"
proof (cases "q = []")
  case True
  with assms(1,4) show ?thesis
    by (auto simp: get_submodule_def replace_submodule_def Let_def dest: info_replace_atoms)
next
  case False
  have "\<not> prefix p q" using assms(2,3) contains_prefix by blast
  then have "\<not> prefix (split_dot p) (split_dot q)" using split_dot_prefix by blast
  then have np: "\<not> prefix (butlast (split_dot p) @ [last (split_dot p)]) (split_dot q)"
    by (simp add: split_dot_nonempty)
  from assms(1) have r: "replace_atoms m (butlast (split_dot p)) (last (split_dot p)) new = Inr m'"
    by (simp add: replace_submodule_def Let_def)
  from assms(4) False have g: "get_atoms m (split_dot q) = Inr c"
    by (simp add: get_submodule_def)
  from replace_atoms_frame [OF r np g] False show ?thesis
    by (simp add: get_submodule_def)
qed


lemma match_submodules_contains: "p \<in> set (match_submodules m key) \<Longrightarrow> contains key p"
  by (auto simp: match_submodules_def)

lemma inject_paths_frame:
  assumes "\<forall>p \<in> set ps. \<exists>k. contains k p \<and> \<not> contains k q"
    and "get_submodule m q = Inr c"
  shows "\<exists>c'. get_submodule (fst (snd (inject_paths f ps m D))) q = Inr c' \<and> info c' = info c"
  using assms
proof (induction ps arbitrary: m D c)
  case Nil
  then show ?case by simp
next
  case (Cons p ps)
  from Cons.prems(1) obtain k where k: "contains k p" "\<not> contains k q" by auto
  from Cons.prems(1) have rest: "\<forall>p \<in> set ps. \<exists>k. contains k p \<and> \<not> contains k q" by simp
  show ?case
  proof (cases "p \<in> D")
    case True
    with Cons.IH [OF rest Cons.prems(2)] show ?thesis by simp
  next
    case False
    show ?thesis
    proof (cases "get_submodule m p")
      case (Inl e)
      with False Cons.prems(2) show ?thesis by simp
    next
      case (Inr cur)
      note cur = Inr
      show ?thesis
      proof (cases "f cur")
        case (Inl e)
        with False cur Cons.prems(2) show ?thesis by simp
      next
        case (Inr new)
        note new = Inr
        show ?thesis
        proof (cases "replace_submodule m p new")
          case (Inl e)
          with False cur new Cons.prems(2) show ?thesis by simp
        next
          case (Inr m')
          from replace_submodule_frame [OF Inr k Cons.prems(2)]
          obtain c1 where c1: "get_submodule m' q = Inr c1" "info c1 = info c" by blast
          from Cons.IH [OF rest c1(1), of "insert p D"] c1(2) False cur new Inr
          show ?thesis by simp
        qed
      qed
    qed
  qed
qed

lemma inject_keys_frame:
  assumes "\<forall>k \<in> set keys. \<not> contains k q"
    and "get_submodule m q = Inr c"
  shows "\<exists>c'. get_submodule (fst (snd (inject_keys f keys m D))) q = Inr c' \<and> info c' = info c"
  using assms
proof (induction keys arbitrary: m D c)
  case Nil
  then show ?case by simp
next
  case (Cons key keys)
  have "\<forall>p \<in> set (match_submodules m key). \<exists>k. contains k p \<and> \<not> contains k q"
    using Cons.prems(1) match_submodules_contains by fastforce
  from inject_paths_frame [OF this Cons.prems(2), of f D]
  obtain c1 where c1: "get_submodule (fst (snd (inject_paths f (match_submodules m key) m D))) q = Inr c1"
    "info c1 = info c" by blast
  obtain e m1 D1 where r: "inject_paths f (match_submodules m key) m D = (e, m1, D1)"
    by (cases "inject_paths f (match_submodules m key) m D") auto
  show ?case
  proof (cases e)
    case None
    from Cons.prems(1) have "\<forall>k \<in> set keys. \<not> contains k q" by simp
    from Cons.IH [OF this, of m1 c1 D1] c1 r None show ?thesis by simp
  next
    case (Some err)
    with c1 r show ?thesis by simp
  qed
qed


lemma split_dot_append_dot: "split_dot (s @ CHR ''.'' # t) = split_dot s @ split_dot t"
proof (induction s)
  case Nil
  show ?case by simp
next
  case (Cons c cs)
  obtain w ws where "split_dot cs = w # ws"
    using split_dot_nonempty [of cs] by (cases "split_dot cs") auto
  with Cons show ?case by (auto split: list.splits)
qed

lemma split_dot_atom: "CHR ''.'' \<notin> set a \<Longrightarrow> split_dot a = [a]"
  by (induction a) auto

lemma split_dot_extend_name:
  assumes "\<forall>a \<in> set atoms. CHR ''.'' \<notin> set a" "pfx \<noteq> []"
  shows "split_dot (extend_name pfx atoms) = split_dot pfx @ atoms"
  using assms
proof (induction atoms arbitrary: pfx)
  case Nil
  show ?case by simp
next
  case (Cons a atoms)
  from Cons.prems have a: "split_dot a = [a]" by (simp add: split_dot_atom)
  have "split_dot (extend_name (pfx @ CHR ''.'' # a) atoms) = split_dot (pfx @ CHR ''.'' # a) @ atoms"
    using Cons.prems by (intro Cons.IH) auto
  with Cons.prems(2) a show ?case by (simp add: split_dot_append_dot)
qed

lemma split_dot_extend_name_root:
  assumes "\<forall>a \<in> set atoms. a \<noteq> [] \<and> CHR ''.'' \<notin> set a" "atoms \<noteq> []"
  shows "split_dot (extend_name [] atoms) = atoms" "extend_name [] atoms \<noteq> []"
proof -
  from assms obtain a as where atoms: "atoms = a # as" by (cases atoms) auto
  with assms have a: "a \<noteq> []" "split_dot a = [a]" by (simp_all add: split_dot_atom)
  have "split_dot (extend_name a as) = split_dot a @ as"
    using assms atoms a by (intro split_dot_extend_name) auto
  with atoms a show "split_dot (extend_name [] atoms) = atoms" by simp
  then show "extend_name [] atoms \<noteq> []" using assms(1) by auto
qed

lemma named_modules_atoms:
  "wf_module m \<Longrightarrow> (name, c) \<in> set (named_modules pfx m) \<Longrightarrow>
   \<exists>atoms. get_atoms m atoms = Inr c \<and> name = extend_name pfx atoms
          \<and> (\<forall>a \<in> set atoms. a \<noteq> [] \<and> CHR ''.'' \<notin> set a)"
proof (induction pfx m arbitrary: name c rule: named_modules.induct)
  case (1 pfx i cs)
  show ?case
  proof (cases "(name, c) = (pfx, Module i cs)")
    case True
    then have "get_atoms (Module i cs) [] = Inr c \<and> name = extend_name pfx []" by simp
    then show ?thesis by (metis empty_iff list.set(1))
  next
    case False
    with "1.prems"(2) obtain nc where nc: "nc \<in> set cs"
      and mem: "(name, c) \<in> set (named_modules (child_name pfx (fst nc)) (snd nc))"
      by auto
    from "1.prems"(1) nc have wf: "wf_module (snd nc)" and n: "fst nc \<noteq> []" "CHR ''.'' \<notin> set (fst nc)"
      and d: "distinct (map fst cs)" by auto
    from "1.IH" [OF nc wf mem] obtain atoms where atoms: "get_atoms (snd nc) atoms = Inr c"
      "name = extend_name (child_name pfx (fst nc)) atoms"
      "\<forall>a \<in> set atoms. a \<noteq> [] \<and> CHR ''.'' \<notin> set a" by blast
    from d nc have "map_of cs (fst nc) = Some (snd nc)" by (cases nc) auto
    then have "getattr (Module i cs) (fst nc) = Inr (snd nc)" by (simp add: getattr_def)
    with atoms n have "get_atoms (Module i cs) (fst nc # atoms) = Inr c
        \<and> name = extend_name pfx (fst nc # atoms)
        \<and> (\<forall>a \<in> set (fst nc # atoms). a \<noteq> [] \<and> CHR ''.'' \<notin> set a)" by simp
    then show ?thesis by blast
  qed
qed

lemma named_modules_get_submodule:
  assumes "wf_module m" "(name, c) \<in> set (named_modules [] m)"
  shows "get_submodule m name = Inr c"
proof -
  from named_modules_atoms [OF assms] obtain atoms where atoms: "get_atoms m atoms = Inr c"
      "name = extend_name [] atoms" "\<forall>a \<in> set atoms. a \<noteq> [] \<and> CHR ''.'' \<notin> set a" by blast
  show ?thesis
  proof (cases "atoms = []")
    case True
    with atoms show ?thesis by (simp add: get_submodule_def)
  next
    case False
    from split_dot_extend_name_root [OF atoms(3) False] atoms(1,2)
    show ?thesis by (simp add: get_submodule_def)
  qed
qed


lemma inject_paths_lora_frame:
  assumes "\<forall>p \<in> set ps. \<exists>k. contains k p \<and> \<not> contains k q"
    and "get_submodule m q = Inr c"
  shows "\<exists>c'. get_submodule (snd (inject_paths_lora hw f ps m)) q = Inr c' \<and> info c' = info c"
  using assms
proof (induction ps arbitrary: m c)
  case Nil
  then show ?case by simp
next
  case (Cons p ps)
  from Cons.prems(1) obtain k where k: "contains k p" "\<not> contains k q" by auto
  from Cons.prems(1) have rest: "\<forall>p \<in> set ps. \<exists>k. contains k p \<and> \<not> contains k q" by simp
  show ?case
  proof (cases "get_submodule m p")
    case (Inl e)
    with Cons.prems(2) show ?thesis by simp
  next
    case (Inr cur)
    note cur = Inr
    show ?thesis
    proof (cases "f cur")
      case (Inl e)
      with cur Cons.prems(2) show ?thesis by simp
    next
      case (Inr new)
      note new = Inr
      show ?thesis
      proof (cases "hw (info cur)")
        case False
        with cur new Cons.prems(2) show ?thesis by simp
      next
        case True
        show ?thesis
        proof (cases "replace_submodule m p new")
          case (Inl e)
          with True cur new Cons.prems(2) show ?thesis by simp
        next
          case (Inr m')
          from replace_submodule_frame [OF Inr k Cons.prems(2)]
          obtain c1 where c1: "get_submodule m' q = Inr c1" "info c1 = info c" by blast
          from Cons.IH [OF rest c1(1)] c1(2) True cur new Inr
          show ?thesis by simp
        qed
      qed
    qed
  qed
qed

lemma inject_adapter_lora_frame:
  assumes "\<forall>k \<in> set keys. \<not> contains k q"
    and "get_submodule m q = Inr c"
  shows "\<exists>c'. get_submodule (snd (inject_adapter_lora hw m keys f)) q = Inr c' \<and> info c' = info c"
  using assms
proof (induction keys arbitrary: m c)
  case Nil
  then show ?case by simp
next
  case (Cons key keys)
  have "\<forall>p \<in> set (match_submodules m key). \<exists>k. contains k p \<and> \<not> contains k q"
    using Cons.prems(1) match_submodules_contains by fastforce
  from inject_paths_lora_frame [OF this Cons.prems(2), of hw f]
  obtain c1 where c1: "get_submodule (snd (inject_paths_lora hw f (match_submodules m key) m)) q = Inr c1"
    "info c1 = info c" by blast
  obtain e m1 where r: "inject_paths_lora hw f (match_submodules m key) m = (e, m1)"
    by (cases "inject_paths_lora hw f (match_submodules m key) m") auto
  show ?case
  proof (cases e)
    case None
    from Cons.prems(1) have "\<forall>k \<in> set keys. \<not> contains k q" by simp
    from Cons.IH [OF this, of m1 c1] c1 r None show ?thesis by simp
  next
    case (Some err)
    with c1 r show ?thesis by simp
  qed
qed

text \<open>
  C5. Adapter injection touches only the selected layers: for every model built with
  well-formed names, every key list and every adapter function, a submodule whose
  dotted path contains no key of \<^verbatim>\<open>match_on\<close> is still found at its path after
  \<^verbatim>\<open>inject_adapter\<close>, whether the call returned or raised, and it is the module it was:
  its own data (identity, parameters, attributes) is unchanged. This holds for the
  \<^verbatim>\<open>inject_adapter\<close> of the IA3 notebook and for the one of the LoRA notebook.
\<close>

theorem inject_adapter_frame:
  assumes "wf_module model"
    and "(q, c) \<in> set (named_modules [] model)"
    and "\<forall>key \<in> set match_on. \<not> contains key q"
  shows "(\<exists>c'. get_submodule (snd (inject_adapter model match_on adapter_fn)) q = Inr c'
               \<and> info c' = info c)
       \<and> (\<exists>c'. get_submodule (snd (inject_adapter_lora has_weight model match_on adapter_fn)) q
                 = Inr c' \<and> info c' = info c)"
proof -
  have g: "get_submodule model q = Inr c"
    using assms(1,2) by (rule named_modules_get_submodule)
  obtain e m' D where r: "inject_keys adapter_fn match_on model {} = (e, m', D)"
    by (cases "inject_keys adapter_fn match_on model {}") auto
  from inject_keys_frame [OF assms(3) g, of adapter_fn "{}"] r
  have "\<exists>c'. get_submodule (snd (inject_adapter model match_on adapter_fn)) q = Inr c'
               \<and> info c' = info c"
    by (simp add: inject_adapter_def)
  with inject_adapter_lora_frame [OF assms(3) g] show ?thesis by blast
qed

theorem inject_adapter_frame_witness:
  "wf_module (Module (0::nat) [(''attn'', Module 1 [(''k_proj'', Module 2 []), (''q_proj'', Module 3 [])])])
   \<and> \<not> contains ''k_proj'' ''attn'' \<and> \<not> contains ''k_proj'' ''attn.q_proj''
   \<and> get_submodule (snd (inject_adapter
        (Module (0::nat) [(''attn'', Module 1 [(''k_proj'', Module 2 []), (''q_proj'', Module 3 [])])])
        [''k_proj''] (\<lambda>c. Inr (Module 9 [(''existing_layer'', c)])))) ''attn''
      = Inr (Module 1 [(''k_proj'', Module 9 [(''existing_layer'', Module 2 [])]),
                       (''q_proj'', Module 3 [])])
   \<and> get_submodule (snd (inject_adapter
        (Module (0::nat) [(''attn'', Module 1 [(''k_proj'', Module 2 []), (''q_proj'', Module 3 [])])])
        [''k_proj''] (\<lambda>c. Inr (Module 9 [(''existing_layer'', c)])))) ''attn.q_proj''
      = Inr (Module 3 [])"
proof -
  let ?m = "Module (0::nat) [(''attn'', Module 1 [(''k_proj'', Module 2 []), (''q_proj'', Module 3 [])])]"
  let ?f = "\<lambda>c. Inr (Module 9 [(''existing_layer'', c)]) :: error + nat module"
  have wf: "wf_module ?m" by simp
  have q: "(''attn'', Module 1 [(''k_proj'', Module 2 []), (''q_proj'', Module 3 [])])
             \<in> set (named_modules [] ?m)" by simp
  have k: "\<forall>key \<in> set [''k_proj'']. \<not> contains key ''attn''" by simp
  have v: "get_submodule (snd (inject_adapter ?m [''k_proj''] ?f)) ''attn''
      = Inr (Module 1 [(''k_proj'', Module 9 [(''existing_layer'', Module 2 [])]),
                       (''q_proj'', Module 3 [])])"
    by code_simp
  have v': "get_submodule (snd (inject_adapter ?m [''k_proj''] ?f)) ''attn.q_proj'' = Inr (Module 3 [])"
    by code_simp
  have k': "\<not> contains ''k_proj'' ''attn.q_proj''" by code_simp
  from inject_adapter_frame [OF wf q k, of ?f] wf k v v' k' show ?thesis by simp
qed


section \<open>Every module gets the config of its type\<close>

lemma set_qconfig_loop_other:
  "\<forall>x \<in> set xs. oid (info (snd x)) \<noteq> a \<Longrightarrow> set_qconfig_loop xs s a = s a"
  by (induction xs s rule: set_qconfig_loop.induct) auto

lemma set_qconfig_loop_apply:
  assumes "\<forall>x \<in> set xs. \<forall>y \<in> set xs. oid (info (snd x)) = oid (info (snd y)) \<longrightarrow>
             is_Embedding (info (snd x)) = is_Embedding (info (snd y))"
    and "(name, m) \<in> set xs"
  shows "set_qconfig_loop xs s (oid (info m))
         = Some (if is_Embedding (info m) then embedding_qconfig else default_qconfig)"
  using assms
proof (induction xs arbitrary: s name m)
  case Nil
  then show ?case by simp
next
  case (Cons x xs)
  obtain n y where x: "x = (n, y)" by (cases x)
  from Cons.prems(1) have cons: "\<forall>x \<in> set xs. \<forall>y \<in> set xs. oid (info (snd x)) = oid (info (snd y)) \<longrightarrow>
             is_Embedding (info (snd x)) = is_Embedding (info (snd y))"
    by (meson list.set_intros(2))
  show ?case
  proof (cases "\<exists>z \<in> set xs. oid (info (snd z)) = oid (info m)")
    case True
    then obtain z where zin: "z \<in> set xs" and zo: "oid (info (snd z)) = oid (info m)" by blast
    have "z \<in> set (x # xs)" "(name, m) \<in> set (x # xs)" using zin Cons.prems(2) by simp_all
    with Cons.prems(1) zo have e: "is_Embedding (info (snd z)) = is_Embedding (info m)"
      by (metis snd_conv)
    have zin': "(fst z, snd z) \<in> set xs" using zin by simp
    have "set_qconfig_loop xs s' (oid (info (snd z)))
         = Some (if is_Embedding (info (snd z)) then embedding_qconfig else default_qconfig)" for s'
      using Cons.IH [OF cons zin'] .
    with zo e x show ?thesis by simp
  next
    case False
    with Cons.prems(2) x have m: "m = y" by (metis set_ConsD snd_conv)
    from False have "\<forall>x \<in> set xs. oid (info (snd x)) \<noteq> oid (info m)" by blast
    then have "set_qconfig_loop xs s' (oid (info m)) = s' (oid (info m))" for s'
      by (rule set_qconfig_loop_other)
    with m x show ?thesis by simp
  qed
qed

text \<open>
  C6. After \<^verbatim>\<open>set_qconfig_for_model(model)\<close>, every submodule of the model carries a
  \<^verbatim>\<open>qconfig\<close> attribute: the weight-only embedding config exactly when the submodule is
  an instance of \<^verbatim>\<open>torch.nn.Embedding\<close>, the default fbgemm config for quantization-aware
  training in every other case, whatever the attribute was before.
\<close>

theorem set_qconfig_for_model_by_type:
  assumes "same_object_same_class model"
    and "(name, m) \<in> set (named_modules [] model)"
  shows "set_qconfig_for_model model s (oid (info m))
         = Some (if is_Embedding (info m) then embedding_qconfig else default_qconfig)
       \<and> (set_qconfig_for_model model s (oid (info m)) = Some embedding_qconfig
            \<longleftrightarrow> is_Embedding (info m))"
proof -
  from assms(1) have "\<forall>x \<in> set (named_modules [] model). \<forall>y \<in> set (named_modules [] model).
        oid (info (snd x)) = oid (info (snd y)) \<longrightarrow>
        is_Embedding (info (snd x)) = is_Embedding (info (snd y))"
    unfolding same_object_same_class_def .
  from set_qconfig_loop_apply [OF this assms(2)]
  have "set_qconfig_for_model model s (oid (info m))
         = Some (if is_Embedding (info m) then embedding_qconfig else default_qconfig)"
    unfolding set_qconfig_for_model_def .
  then show ?thesis by (simp add: embedding_qconfig_def default_qconfig_def)
qed

theorem set_qconfig_for_model_by_type_witness:
  "same_object_same_class
     (Module \<lparr>oid = 0, is_Embedding = False\<rparr>
        [(''embeddings'', Module \<lparr>oid = 1, is_Embedding = True\<rparr> []),
         (''classifier'', Module \<lparr>oid = 2, is_Embedding = False\<rparr> [])])
   \<and> set_qconfig_for_model
     (Module \<lparr>oid = 0, is_Embedding = False\<rparr>
        [(''embeddings'', Module \<lparr>oid = 1, is_Embedding = True\<rparr> []),
         (''classifier'', Module \<lparr>oid = 2, is_Embedding = False\<rparr> [])]) (\<lambda>a. None) 1
     = Some float_qparams_weight_only_qconfig
   \<and> set_qconfig_for_model
     (Module \<lparr>oid = 0, is_Embedding = False\<rparr>
        [(''embeddings'', Module \<lparr>oid = 1, is_Embedding = True\<rparr> []),
         (''classifier'', Module \<lparr>oid = 2, is_Embedding = False\<rparr> [])]) (\<lambda>a. None) 2
     = Some default_qat_qconfig_fbgemm
   \<and> set_qconfig_for_model
     (Module \<lparr>oid = 0, is_Embedding = False\<rparr>
        [(''embeddings'', Module \<lparr>oid = 1, is_Embedding = True\<rparr> []),
         (''classifier'', Module \<lparr>oid = 2, is_Embedding = False\<rparr> [])]) (\<lambda>a. None) 0
     = Some default_qat_qconfig_fbgemm"
proof -
  let ?m = "Module \<lparr>oid = 0, is_Embedding = False\<rparr>
        [(''embeddings'', Module \<lparr>oid = 1, is_Embedding = True\<rparr> []),
         (''classifier'', Module \<lparr>oid = 2, is_Embedding = False\<rparr> [])]"
  have c: "same_object_same_class ?m" by (simp add: same_object_same_class_def)
  have e: "(''embeddings'', Module \<lparr>oid = 1, is_Embedding = True\<rparr> []) \<in> set (named_modules [] ?m)"
    by simp
  have d: "(''classifier'', Module \<lparr>oid = 2, is_Embedding = False\<rparr> []) \<in> set (named_modules [] ?m)"
    by simp
  have r: "([], ?m) \<in> set (named_modules [] ?m)" by simp
  from set_qconfig_for_model_by_type [OF c e, of "\<lambda>a. None"]
    set_qconfig_for_model_by_type [OF c d, of "\<lambda>a. None"]
    set_qconfig_for_model_by_type [OF c r, of "\<lambda>a. None"] c
  show ?thesis by (simp add: embedding_qconfig_def default_qconfig_def)
qed


section \<open>Injection by the book: replacing the modules a selection picks\<close>

lemma map_of_map_snd:
  "map_of (map (\<lambda>nc. (fst nc, F nc)) cs) n
   = (case map_of cs n of None \<Rightarrow> None | Some c \<Rightarrow> Some (F (n, c)))"
  by (induction cs) auto

lemma getattr_replace_where:
  "getattr (replace_where sel pfx m) n =
     (case getattr m n of
        Inl e \<Rightarrow> Inl e
      | Inr c \<Rightarrow> Inr (case sel (child_name pfx n) c of
                       Some r \<Rightarrow> r
                     | None \<Rightarrow> replace_where sel (child_name pfx n) c))"
  by (cases m) (simp add: getattr_def map_of_map_snd split: option.splits)

lemma get_atoms_replace_where:
  "get_atoms m atoms = Inr c \<Longrightarrow> untouched sel pfx m atoms \<Longrightarrow>
   get_atoms (replace_where sel pfx m) atoms = Inr (replace_where sel (extend_name pfx atoms) c)"
proof (induction atoms arbitrary: m pfx)
  case Nil
  then show ?case by simp
next
  case (Cons a atoms)
  from Cons.prems(1) obtain ch where ch: "getattr m a = Inr ch" "get_atoms ch atoms = Inr c"
    by (auto split: sum.splits)
  with Cons.prems(2) have u: "sel (child_name pfx a) ch = None" "untouched sel (child_name pfx a) ch atoms"
    by simp_all
  from Cons.IH [OF ch(2) u(2)] ch(1) u(1) show ?case
    by (simp add: getattr_replace_where)
qed

lemma get_atoms_replace_where_selected:
  "get_atoms m (atoms @ [a]) = Inr c \<Longrightarrow> untouched sel pfx m atoms \<Longrightarrow>
   sel (extend_name pfx (atoms @ [a])) c = Some r \<Longrightarrow>
   get_atoms (replace_where sel pfx m) (atoms @ [a]) = Inr r"
proof (induction atoms arbitrary: m pfx)
  case Nil
  then show ?case by (auto simp: getattr_replace_where split: sum.splits)
next
  case (Cons b atoms)
  from Cons.prems(1) obtain ch where ch: "getattr m b = Inr ch" "get_atoms ch (atoms @ [a]) = Inr c"
    by (auto split: sum.splits)
  with Cons.prems(2) have u: "sel (child_name pfx b) ch = None" "untouched sel (child_name pfx b) ch atoms"
    by simp_all
  from Cons.prems(3) have "sel (extend_name (child_name pfx b) (atoms @ [a])) c = Some r" by simp
  from Cons.IH [OF ch(2) u(2) this] ch(1) u(1) show ?case
    by (simp add: getattr_replace_where)
qed

lemma replace_where_cong:
  "(\<And>q c. (q, c) \<in> set (tl (named_modules pfx m)) \<Longrightarrow> sel q c = sel' q c) \<Longrightarrow>
   replace_where sel pfx m = replace_where sel' pfx m"
proof (induction sel pfx m rule: replace_where.induct)
  case (1 sel pfx i cs)
  have "(case sel (child_name pfx (fst nc)) (snd nc) of Some r \<Rightarrow> r
           | None \<Rightarrow> replace_where sel (child_name pfx (fst nc)) (snd nc))
        = (case sel' (child_name pfx (fst nc)) (snd nc) of Some r \<Rightarrow> r
           | None \<Rightarrow> replace_where sel' (child_name pfx (fst nc)) (snd nc))"
    if nc: "nc \<in> set cs" for nc
  proof -
    have sub: "set (named_modules (child_name pfx (fst nc)) (snd nc))
               \<subseteq> set (tl (named_modules pfx (Module i cs)))"
      using nc by auto
    have hd: "(child_name pfx (fst nc), snd nc) \<in> set (named_modules (child_name pfx (fst nc)) (snd nc))"
      by (cases "snd nc") simp
    with sub "1.prems" have e: "sel (child_name pfx (fst nc)) (snd nc) = sel' (child_name pfx (fst nc)) (snd nc)"
      by blast
    show ?thesis
    proof (cases "sel (child_name pfx (fst nc)) (snd nc)")
      case None
      have "replace_where sel (child_name pfx (fst nc)) (snd nc)
            = replace_where sel' (child_name pfx (fst nc)) (snd nc)"
      proof (rule "1.IH" [OF nc None])
        fix q c assume "(q, c) \<in> set (tl (named_modules (child_name pfx (fst nc)) (snd nc)))"
        then have "(q, c) \<in> set (named_modules (child_name pfx (fst nc)) (snd nc))"
          by (metis list.sel(2) list.set_sel(2))
        with sub "1.prems" show "sel q c = sel' q c" by blast
      qed
      with None e show ?thesis by simp
    next
      case (Some r)
      with e have "sel' (child_name pfx (fst nc)) (snd nc) = Some r" by simp
      with Some show ?thesis by simp
    qed
  qed
  then show ?case by simp
qed


lemma extend_name_inj:
  assumes "atoms_ok as" "atoms_ok bs" "extend_name pfx as = extend_name pfx bs"
  shows "as = bs"
proof (cases "pfx = []")
  case False
  have "split_dot (extend_name pfx as) = split_dot pfx @ as"
    using assms(1) False by (intro split_dot_extend_name) (auto simp: atoms_ok_def)
  moreover have "split_dot (extend_name pfx bs) = split_dot pfx @ bs"
    using assms(2) False by (intro split_dot_extend_name) (auto simp: atoms_ok_def)
  ultimately have "split_dot pfx @ as = split_dot pfx @ bs"
    by (simp only: assms(3))
  then show ?thesis by simp
next
  case True
  from assms(1) have a: "\<forall>a \<in> set as. a \<noteq> [] \<and> CHR ''.'' \<notin> set a" by (simp add: atoms_ok_def)
  from assms(2) have b: "\<forall>a \<in> set bs. a \<noteq> [] \<and> CHR ''.'' \<notin> set a" by (simp add: atoms_ok_def)
  have e: "extend_name [] as = extend_name [] bs" using assms(3) True by (simp only:)
  show ?thesis
  proof (cases "as = []")
    case as: True
    show ?thesis
    proof (cases "bs = []")
      case True
      with as show ?thesis by (simp only:)
    next
      case False
      have "extend_name [] bs \<noteq> []" by (rule split_dot_extend_name_root(2) [OF b False])
      moreover have "extend_name [] bs = []" using e as by (simp only: extend_name.simps)
      ultimately show ?thesis by blast
    qed
  next
    case as: False
    show ?thesis
    proof (cases "bs = []")
      case True
      have "extend_name [] as \<noteq> []" by (rule split_dot_extend_name_root(2) [OF a as])
      moreover have "extend_name [] as = []" using e True by (simp only: extend_name.simps)
      ultimately show ?thesis by blast
    next
      case False
      have "as = split_dot (extend_name [] as)"
        by (rule split_dot_extend_name_root(1) [OF a as, symmetric])
      also have "\<dots> = split_dot (extend_name [] bs)" by (simp only: e)
      also have "\<dots> = bs" by (rule split_dot_extend_name_root(1) [OF b False])
      finally show ?thesis .
    qed
  qed
qed

lemma getattr_in_children: "getattr m a = Inr c \<Longrightarrow> (a, c) \<in> set (children m)"
  by (auto simp: getattr_def split: option.splits dest: map_of_SomeD)

lemma wf_module_child:
  "wf_module m \<Longrightarrow> (a, c) \<in> set (children m) \<Longrightarrow>
   a \<noteq> [] \<and> CHR ''.'' \<notin> set a \<and> wf_module c \<and> distinct (map fst (children m))"
  by (cases m) auto

lemma named_modules_head: "(pfx, m) \<in> set (named_modules pfx m)"
  by (cases m) simp

lemma named_modules_child:
  "(a, c) \<in> set (children m) \<Longrightarrow>
   set (named_modules (child_name pfx a) c) \<subseteq> set (tl (named_modules pfx m))"
proof (cases m)
  case (Module i cs)
  assume "(a, c) \<in> set (children m)"
  with Module have "(a, c) \<in> set cs" by simp
  then have "set (named_modules (child_name pfx (fst (a, c))) (snd (a, c)))
      \<subseteq> (\<Union>nc\<in>set cs. set (named_modules (child_name pfx (fst nc)) (snd nc)))"
    by (rule UN_upper)
  with Module show ?thesis by simp
qed

lemma get_atoms_named_modules:
  "wf_module m \<Longrightarrow> get_atoms m atoms = Inr c \<Longrightarrow>
   atoms_ok atoms \<and> (extend_name pfx atoms, c) \<in> set (named_modules pfx m) \<and> wf_module c"
proof (induction atoms arbitrary: m pfx)
  case Nil
  then show ?case by (simp add: atoms_ok_def named_modules_head)
next
  case (Cons a atoms)
  from Cons.prems(2) obtain ch where ch: "getattr m a = Inr ch" "get_atoms ch atoms = Inr c"
    by (auto split: sum.splits)
  from getattr_in_children [OF ch(1)] have mem: "(a, ch) \<in> set (children m)" .
  from wf_module_child [OF Cons.prems(1) mem] have a: "a \<noteq> []" "CHR ''.'' \<notin> set a" "wf_module ch"
    by simp_all
  from Cons.IH [OF a(3) ch(2), of "child_name pfx a"]
  have ih: "atoms_ok atoms" "(extend_name (child_name pfx a) atoms, c)
      \<in> set (named_modules (child_name pfx a) ch)" "wf_module c" by simp_all
  from ih(2) named_modules_child [OF mem, of pfx]
  have "(extend_name pfx (a # atoms), c) \<in> set (tl (named_modules pfx m))" by auto
  then have "(extend_name pfx (a # atoms), c) \<in> set (named_modules pfx m)"
    by (metis list.sel(2) list.set_sel(2))
  with ih a show ?case by (simp add: atoms_ok_def)
qed

lemma assign_map:
  "distinct (map fst cs) \<Longrightarrow> (a, c) \<in> set cs \<Longrightarrow>
   assign a v (map (\<lambda>nc. (fst nc, F nc)) cs)
   = map (\<lambda>nc. if fst nc = a then (a, v) else (fst nc, F nc)) cs"
proof (induction cs)
  case Nil
  then show ?case by simp
next
  case (Cons x cs)
  show ?case
  proof (cases "fst x = a")
    case True
    with Cons.prems(1) have "a \<notin> fst ` set cs" by auto
    then have "\<forall>nc \<in> set cs. fst nc \<noteq> a" by blast
    then have "map (\<lambda>nc. (fst nc, F nc)) cs
               = map (\<lambda>nc. if fst nc = a then (a, v) else (fst nc, F nc)) cs"
      by (intro map_cong refl) auto
    with True show ?thesis by (cases x) simp
  next
    case False
    with Cons.prems have "(a, c) \<in> set cs" "distinct (map fst cs)" by auto
    from Cons.IH [OF this(2,1)] False show ?thesis by (cases x) simp
  qed
qed


lemma named_modules_extend:
  assumes "wf_module m" "(q, c) \<in> set (named_modules pfx m)"
  obtains xs where "atoms_ok xs" "q = extend_name pfx xs" "get_atoms m xs = Inr c"
  using named_modules_atoms [OF assms] unfolding atoms_ok_def by blast

lemma sibling_unchanged:
  assumes wf: "wf_module c'" and n: "n \<noteq> []" "CHR ''.'' \<notin> set n"
    and path: "atoms_ok (a # rest)" and ne: "n \<noteq> a"
    and p: "p = extend_name pfx (a # rest)"
  shows "(case sel_upd sel p new (child_name pfx n) c' of
            Some r \<Rightarrow> r
          | None \<Rightarrow> replace_where (sel_upd sel p new) (child_name pfx n) c')
       = (case sel (child_name pfx n) c' of
            Some r \<Rightarrow> r
          | None \<Rightarrow> replace_where sel (child_name pfx n) c')"
proof -
  have diff: "q \<noteq> p" if "(q, c) \<in> set (named_modules (child_name pfx n) c')" for q c
  proof
    assume eq: "q = p"
    from named_modules_extend [OF wf that] obtain xs where xs: "atoms_ok xs"
      "q = extend_name (child_name pfx n) xs" by blast
    from xs(1) n have ok: "atoms_ok (n # xs)" by (simp add: atoms_ok_def)
    from xs(2) eq p have "extend_name pfx (n # xs) = extend_name pfx (a # rest)" by simp
    from extend_name_inj [OF ok path this] ne show False by simp
  qed
  have here: "sel_upd sel p new (child_name pfx n) c' = sel (child_name pfx n) c'"
    using diff [OF named_modules_head] by (simp add: sel_upd_def)
  have "replace_where (sel_upd sel p new) (child_name pfx n) c'
        = replace_where sel (child_name pfx n) c'"
  proof (rule replace_where_cong)
    fix q c assume "(q, c) \<in> set (tl (named_modules (child_name pfx n) c'))"
    then have "(q, c) \<in> set (named_modules (child_name pfx n) c')"
      by (metis list.sel(2) list.set_sel(2))
    from diff [OF this] show "sel_upd sel p new q c = sel q c" by (simp add: sel_upd_def)
  qed
  with here show ?thesis by (simp only:)
qed

lemma replace_atoms_replace_where:
  assumes "wf_module m" "get_atoms m (atoms @ [a]) = Inr c" "untouched sel pfx m atoms"
    and "p = extend_name pfx (atoms @ [a])"
  shows "replace_atoms (replace_where sel pfx m) atoms a new
         = Inr (replace_where (sel_upd sel p new) pfx m)"
  using assms
proof (induction atoms arbitrary: m pfx)
  case Nil
  obtain i cs where m: "m = Module i cs" by (cases m)
  from Nil.prems(4) have p: "p = child_name pfx a" by simp
  from Nil.prems(2) have g: "getattr m a = Inr c" by (auto split: sum.splits)
  then have mem: "(a, c) \<in> set cs" using m getattr_in_children by fastforce
  from Nil.prems(1) m have d: "distinct (map fst cs)" by simp
  from wf_module_child [OF Nil.prems(1), of a c] mem m have a: "atoms_ok [a]"
    by (simp add: atoms_ok_def)
  let ?F = "\<lambda>s nc. case s (child_name pfx (fst nc)) (snd nc) of Some r \<Rightarrow> r
              | None \<Rightarrow> replace_where s (child_name pfx (fst nc)) (snd nc)"
  have "(if fst nc = a then (a, new) else (fst nc, ?F sel nc))
        = (fst nc, ?F (sel_upd sel p new) nc)" if nc: "nc \<in> set cs" for nc
  proof (cases "fst nc = a")
    case True
    then show ?thesis by (simp add: sel_upd_def p)
  next
    case False
    from wf_module_child [OF Nil.prems(1), of "fst nc" "snd nc"] nc m
    have "wf_module (snd nc)" "fst nc \<noteq> []" "CHR ''.'' \<notin> set (fst nc)" by simp_all
    from sibling_unchanged [OF this a False, of p pfx sel new] p False show ?thesis by simp
  qed
  then have "map (\<lambda>nc. if fst nc = a then (a, new) else (fst nc, ?F sel nc)) cs
             = map (\<lambda>nc. (fst nc, ?F (sel_upd sel p new) nc)) cs"
    by (intro map_cong refl)
  with assign_map [OF d mem, of new "?F sel"] m show ?case
    by (simp add: setattr_def)
next
  case (Cons b bs)
  obtain i cs where m: "m = Module i cs" by (cases m)
  from Cons.prems(4) have p: "p = extend_name (child_name pfx b) (bs @ [a])" by simp
  from Cons.prems(2) obtain ch where ch: "getattr m b = Inr ch" "get_atoms ch (bs @ [a]) = Inr c"
    by (auto split: sum.splits)
  with Cons.prems(3) have u: "sel (child_name pfx b) ch = None" "untouched sel (child_name pfx b) ch bs"
    by simp_all
  from ch(1) have mem: "(b, ch) \<in> set cs" using m getattr_in_children by fastforce
  from Cons.prems(1) m have d: "distinct (map fst cs)" by simp
  from wf_module_child [OF Cons.prems(1), of b ch] mem m have wfch: "wf_module ch" by simp
  from get_atoms_named_modules [OF Cons.prems(1,2)] have ok: "atoms_ok (b # bs @ [a])" by simp
  have ih: "replace_atoms (replace_where sel (child_name pfx b) ch) bs a new
            = Inr (replace_where (sel_upd sel p new) (child_name pfx b) ch)"
    using Cons.IH [OF wfch ch(2) u(2) p] .
  let ?X = "replace_where (sel_upd sel p new) (child_name pfx b) ch"
  let ?F = "\<lambda>s nc. case s (child_name pfx (fst nc)) (snd nc) of Some r \<Rightarrow> r
              | None \<Rightarrow> replace_where s (child_name pfx (fst nc)) (snd nc)"
  have pb: "child_name pfx b \<noteq> p"
  proof
    assume "child_name pfx b = p"
    with p have "extend_name pfx [b] = extend_name pfx (b # bs @ [a])" by simp
    moreover have "atoms_ok [b]" using ok by (simp add: atoms_ok_def)
    ultimately have "[b] = b # bs @ [a]" using ok extend_name_inj by blast
    then show False by simp
  qed
  have "(if fst nc = b then (b, ?X) else (fst nc, ?F sel nc))
        = (fst nc, ?F (sel_upd sel p new) nc)" if nc: "nc \<in> set cs" for nc
  proof (cases "fst nc = b")
    case True
    with d nc mem have "snd nc = ch"
      by (metis eq_key_imp_eq_value prod.collapse)
    with True u(1) pb show ?thesis by (simp add: sel_upd_def)
  next
    case False
    from wf_module_child [OF Cons.prems(1), of "fst nc" "snd nc"] nc m
    have "wf_module (snd nc)" "fst nc \<noteq> []" "CHR ''.'' \<notin> set (fst nc)" by simp_all
    from sibling_unchanged [OF this ok False, of p pfx sel new] p False show ?thesis by simp
  qed
  then have "map (\<lambda>nc. if fst nc = b then (b, ?X) else (fst nc, ?F sel nc)) cs
             = map (\<lambda>nc. (fst nc, ?F (sel_upd sel p new) nc)) cs"
    by (intro map_cong refl)
  with assign_map [OF d mem, of ?X "?F sel"] m
  have fin: "setattr (replace_where sel pfx m) b ?X = replace_where (sel_upd sel p new) pfx m"
    by (simp add: setattr_def)
  have g: "getattr (replace_where sel pfx m) b = Inr (replace_where sel (child_name pfx b) ch)"
    using ch(1) u(1) by (simp add: getattr_replace_where)
  have "replace_atoms (replace_where sel pfx m) (b # bs) a new
        = Inr (setattr (replace_where sel pfx m) b ?X)"
    by (simp only: replace_atoms.simps g ih sum.case)
  with fin show ?case by (simp only:)
qed


lemma in_tl_named_modules:
  "(q, c) \<in> set (tl (named_modules pfx m)) \<Longrightarrow> (q, c) \<in> set (named_modules pfx m)"
  by (metis list.sel(2) list.set_sel(2))

lemma untouched_nonleaf:
  assumes "wf_module m" "get_atoms m (atoms @ [a]) = Inr c"
    and "\<And>q c'. (q, c') \<in> set (tl (named_modules pfx m)) \<Longrightarrow> children c' \<noteq> [] \<Longrightarrow> sel q c' = None"
  shows "untouched sel pfx m atoms"
  using assms
proof (induction atoms arbitrary: m pfx)
  case Nil
  show ?case by simp
next
  case (Cons b bs)
  from Cons.prems(2) obtain ch where ch: "getattr m b = Inr ch" "get_atoms ch (bs @ [a]) = Inr c"
    by (auto split: sum.splits)
  from getattr_in_children [OF ch(1)] have mem: "(b, ch) \<in> set (children m)" .
  from wf_module_child [OF Cons.prems(1) mem] have wfch: "wf_module ch" by simp
  have sub: "set (named_modules (child_name pfx b) ch) \<subseteq> set (tl (named_modules pfx m))"
    by (rule named_modules_child [OF mem])
  obtain x xs where "bs @ [a] = x # xs" by (cases "bs @ [a]") auto
  with ch(2) obtain y where "getattr ch x = Inr y" by (auto split: sum.splits)
  then have nonleaf: "children ch \<noteq> []" by (auto simp: getattr_def)
  from sub named_modules_head have "(child_name pfx b, ch) \<in> set (tl (named_modules pfx m))"
    by blast
  from Cons.prems(3) [OF this nonleaf] have none: "sel (child_name pfx b) ch = None" .
  have "untouched sel (child_name pfx b) ch bs"
  proof (rule Cons.IH [OF wfch ch(2)])
    fix q c' assume "(q, c') \<in> set (tl (named_modules (child_name pfx b) ch))" "children c' \<noteq> []"
    with sub in_tl_named_modules Cons.prems(3) show "sel q c' = None" by blast
  qed
  with ch(1) none show ?case by simp
qed

lemma untouched_snoc:
  "untouched sel pfx m atoms \<Longrightarrow> get_atoms m (atoms @ [a]) = Inr c \<Longrightarrow>
   sel (extend_name pfx (atoms @ [a])) c = None \<Longrightarrow> untouched sel pfx m (atoms @ [a])"
proof (induction atoms arbitrary: m pfx)
  case Nil
  then show ?case by (auto split: sum.splits)
next
  case (Cons b bs)
  then show ?case by (auto split: sum.splits)
qed

lemma replace_where_leaf: "children c = [] \<Longrightarrow> replace_where sel pfx c = c"
  by (cases c) simp

lemma names_replace_where:
  assumes "\<And>q c r. (q, c) \<in> set (tl (named_modules pfx m)) \<Longrightarrow> sel q c = Some r \<Longrightarrow>
             children c = [] \<and> (\<forall>n \<in> fst ` set (named_modules q r). \<not> P n)"
  shows "filter P (map fst (named_modules pfx (replace_where sel pfx m)))
         = filter P (map fst (named_modules pfx m))"
  using assms
proof (induction sel pfx m rule: replace_where.induct)
  case (1 sel pfx i cs)
  let ?F = "\<lambda>nc. case sel (child_name pfx (fst nc)) (snd nc) of Some r \<Rightarrow> r
              | None \<Rightarrow> replace_where sel (child_name pfx (fst nc)) (snd nc)"
  have each: "filter P (map fst (named_modules (child_name pfx (fst nc)) (?F nc)))
        = filter P (map fst (named_modules (child_name pfx (fst nc)) (snd nc)))"
    if nc: "nc \<in> set cs" for nc
  proof -
    let ?q = "child_name pfx (fst nc)"
    have sub: "set (named_modules ?q (snd nc)) \<subseteq> set (tl (named_modules pfx (Module i cs)))"
      using nc by (intro named_modules_child) simp
    show ?thesis
    proof (cases "sel ?q (snd nc)")
      case None
      have "filter P (map fst (named_modules ?q (replace_where sel ?q (snd nc))))
            = filter P (map fst (named_modules ?q (snd nc)))"
      proof (rule "1.IH" [OF nc None])
        fix q c r assume "(q, c) \<in> set (tl (named_modules ?q (snd nc)))" "sel q c = Some r"
        with sub in_tl_named_modules "1.prems"
        show "children c = [] \<and> (\<forall>n \<in> fst ` set (named_modules q r). \<not> P n)" by blast
      qed
      with None show ?thesis by simp
    next
      case (Some r)
      from sub named_modules_head have "(?q, snd nc) \<in> set (tl (named_modules pfx (Module i cs)))"
        by blast
      from "1.prems" [OF this Some] have leaf: "children (snd nc) = []"
        and no: "\<forall>n \<in> fst ` set (named_modules ?q r). \<not> P n" by simp_all
      from no have l: "filter P (map fst (named_modules ?q r)) = []"
        by (auto simp: filter_empty_conv)
      have "(?q, r) \<in> set (named_modules ?q r)" by (rule named_modules_head)
      with no have "\<not> P ?q" by force
      moreover from leaf obtain j where "snd nc = Module j []" by (cases "snd nc") auto
      ultimately have "filter P (map fst (named_modules ?q (snd nc))) = []" by simp
      with l Some show ?thesis by simp
    qed
  qed
  have "filter P (map fst (named_modules pfx (replace_where sel pfx (Module i cs))))
        = filter P (pfx # concat (map (\<lambda>nc. map fst (named_modules (child_name pfx (fst nc)) (?F nc))) cs))"
    by (simp add: map_concat comp_def)
  also have "\<dots> = filter P [pfx]
        @ concat (map (\<lambda>nc. filter P (map fst (named_modules (child_name pfx (fst nc)) (?F nc)))) cs)"
    by (simp add: filter_concat comp_def)
  also have "\<dots> = filter P [pfx]
        @ concat (map (\<lambda>nc. filter P (map fst (named_modules (child_name pfx (fst nc)) (snd nc)))) cs)"
    using each by (simp cong: map_cong)
  also have "\<dots> = filter P (map fst (named_modules pfx (Module i cs)))"
    by (simp add: filter_concat map_concat comp_def)
  finally show ?case .
qed


lemma named_modules_unique:
  assumes "wf_module m" "(p, c) \<in> set (named_modules [] m)" "(p, c') \<in> set (named_modules [] m)"
  shows "c = c'"
  using named_modules_get_submodule [OF assms(1,2)] named_modules_get_submodule [OF assms(1,3)]
  by simp

text \<open>One matched leaf: what the loop body does to a model of the form \<open>replace_where sel\<close>.\<close>

lemma inject_step:
  assumes wf: "wf_module m0"
    and p: "(p, c) \<in> set (named_modules [] m0)" "p \<noteq> []" "children c = []"
    and sel: "\<And>q c'. (q, c') \<in> set (named_modules [] m0) \<Longrightarrow> sel q c' \<noteq> None \<Longrightarrow> children c' = []"
    and here: "sel p c = None"
  shows "get_submodule (replace_where sel [] m0) p = Inr c"
    and "replace_submodule (replace_where sel [] m0) p new
         = Inr (replace_where (sel_upd sel p new) [] m0)"
proof -
  from named_modules_extend [OF wf p(1)] obtain xs where xs: "atoms_ok xs"
    "p = extend_name [] xs" "get_atoms m0 xs = Inr c" by blast
  from xs(2) p(2) have ne: "xs \<noteq> []" by auto
  then obtain atoms a where split: "xs = atoms @ [a]" by (cases xs rule: rev_cases) auto
  from xs(1) have ok: "\<forall>a \<in> set xs. a \<noteq> [] \<and> CHR ''.'' \<notin> set a" by (simp add: atoms_ok_def)
  have sd: "split_dot p = xs" unfolding xs(2) by (rule split_dot_extend_name_root(1) [OF ok ne])
  have u: "untouched sel [] m0 atoms"
  proof (rule untouched_nonleaf [OF wf])
    show "get_atoms m0 (atoms @ [a]) = Inr c" using xs(3) split by simp
  next
    fix q c' assume "(q, c') \<in> set (tl (named_modules [] m0))" "children c' \<noteq> []"
    with sel [of q c'] in_tl_named_modules show "sel q c' = None" by blast
  qed
  have u': "untouched sel [] m0 (atoms @ [a])"
    using u xs(3) here unfolding split xs(2) by (intro untouched_snoc) simp_all
  from get_atoms_replace_where [OF xs(3) u' [folded split]]
  have "get_atoms (replace_where sel [] m0) xs = Inr (replace_where sel p c)"
    by (simp add: xs(2))
  with p(2,3) sd show "get_submodule (replace_where sel [] m0) p = Inr c"
    by (simp add: get_submodule_def replace_where_leaf)
  have "replace_atoms (replace_where sel [] m0) atoms a new
        = Inr (replace_where (sel_upd sel p new) [] m0)"
    using xs(3) xs(2) unfolding split by (intro replace_atoms_replace_where [OF wf _ u])
  then show "replace_submodule (replace_where sel [] m0) p new
         = Inr (replace_where (sel_upd sel p new) [] m0)"
    by (simp add: replace_submodule_def Let_def sd split)
qed


lemma inject_paths_replace_where:
  assumes wf: "wf_module m0"
    and ok: "\<And>c. f c = Inr (g c)"
    and ps: "\<And>p. p \<in> set ps \<Longrightarrow> p \<noteq> [] \<and> (\<exists>c. (p, c) \<in> set (named_modules [] m0) \<and> children c = [])"
    and h2a: "\<And>q c. (q, c) \<in> set (named_modules [] m0) \<Longrightarrow> sel q c \<noteq> None \<Longrightarrow> children c = [] \<and> q \<in> D"
    and h2b: "\<And>q c. (q, c) \<in> set (named_modules [] m0) \<Longrightarrow> q \<in> D \<Longrightarrow> sel q c = Some (g c)"
  shows "inject_paths f ps (replace_where sel [] m0) D
         = (None, replace_where (\<lambda>q c. if q \<in> set ps then Some (g c) else sel q c) [] m0,
            D \<union> set ps)"
  using ps h2a h2b
proof (induction ps arbitrary: sel D)
  case Nil
  show ?case by simp
next
  case (Cons p ps)
  from Cons.prems(1) [of p] obtain c where c: "p \<noteq> []" "(p, c) \<in> set (named_modules [] m0)"
    "children c = []" by auto
  have rest: "\<And>p. p \<in> set ps \<Longrightarrow> p \<noteq> [] \<and> (\<exists>c. (p, c) \<in> set (named_modules [] m0) \<and> children c = [])"
    using Cons.prems(1) by simp
  show ?case
  proof (cases "p \<in> D")
    case True
    have "replace_where (\<lambda>q c. if q \<in> set ps then Some (g c) else sel q c) [] m0
          = replace_where (\<lambda>q c. if q \<in> set (p # ps) then Some (g c) else sel q c) [] m0"
    proof (rule replace_where_cong)
      fix q c' assume "(q, c') \<in> set (tl (named_modules [] m0))"
      then have "(q, c') \<in> set (named_modules [] m0)" by (rule in_tl_named_modules)
      with True Cons.prems(3) [of q c']
      show "(if q \<in> set ps then Some (g c') else sel q c')
            = (if q \<in> set (p # ps) then Some (g c') else sel q c')" by auto
    qed
    moreover have "D \<union> set ps = D \<union> set (p # ps)" using True by auto
    ultimately show ?thesis
      using Cons.IH [OF rest Cons.prems(2,3)] True by simp
  next
    case False
    with Cons.prems(2) [OF c(2)] have here: "sel p c = None" by (cases "sel p c") auto
    have leafsel: "\<And>q c'. (q, c') \<in> set (named_modules [] m0) \<Longrightarrow> sel q c' \<noteq> None \<Longrightarrow> children c' = []"
      using Cons.prems(2) by blast
    note step = inject_step [where sel = sel, OF wf c(2,1,3) leafsel here]
    let ?sel1 = "sel_upd sel p (g c)"
    have a1: "children c' = [] \<and> q \<in> insert p D"
      if "(q, c') \<in> set (named_modules [] m0)" "?sel1 q c' \<noteq> None" for q c'
    proof (cases "q = p")
      case True
      with that(1) c(2) have "c' = c" using named_modules_unique [OF wf] by blast
      with True c(3) show ?thesis by simp
    next
      case False
      with that Cons.prems(2) [of q c'] show ?thesis by (simp add: sel_upd_def)
    qed
    have b1: "?sel1 q c' = Some (g c')"
      if "(q, c') \<in> set (named_modules [] m0)" "q \<in> insert p D" for q c'
    proof (cases "q = p")
      case True
      with that(1) c(2) have "c' = c" using named_modules_unique [OF wf] by blast
      with True show ?thesis by (simp add: sel_upd_def)
    next
      case False
      with that Cons.prems(3) [of q c'] show ?thesis by (simp add: sel_upd_def)
    qed
    have ih: "inject_paths f ps (replace_where ?sel1 [] m0) (insert p D)
         = (None, replace_where (\<lambda>q c. if q \<in> set ps then Some (g c) else ?sel1 q c) [] m0,
            insert p D \<union> set ps)"
      by (rule Cons.IH [OF rest a1 b1])
    have "replace_where (\<lambda>q c. if q \<in> set ps then Some (g c) else ?sel1 q c) [] m0
          = replace_where (\<lambda>q c. if q \<in> set (p # ps) then Some (g c) else sel q c) [] m0"
    proof (rule replace_where_cong)
      fix q c' assume "(q, c') \<in> set (tl (named_modules [] m0))"
      then have mem: "(q, c') \<in> set (named_modules [] m0)" by (rule in_tl_named_modules)
      show "(if q \<in> set ps then Some (g c') else ?sel1 q c')
            = (if q \<in> set (p # ps) then Some (g c') else sel q c')"
      proof (cases "q = p")
        case True
        with mem c(2) have "c' = c" using named_modules_unique [OF wf] by blast
        with True show ?thesis by (simp add: sel_upd_def)
      next
        case False
        then show ?thesis by (simp add: sel_upd_def)
      qed
    qed
    moreover have "insert p D \<union> set ps = D \<union> set (p # ps)" by auto
    ultimately show ?thesis
      using ih False step ok [of c] by simp
  qed
qed


lemma replace_where_none:
  "(\<And>q c. sel q c = None) \<Longrightarrow> replace_where sel pfx m = m"
proof (induction sel pfx m rule: replace_where.induct)
  case (1 sel pfx i cs)
  have "(fst nc, case sel (child_name pfx (fst nc)) (snd nc) of Some r \<Rightarrow> r
           | None \<Rightarrow> replace_where sel (child_name pfx (fst nc)) (snd nc)) = nc"
    if nc: "nc \<in> set cs" for nc
  proof -
    have "replace_where sel (child_name pfx (fst nc)) (snd nc) = snd nc"
      by (rule "1.IH" [OF nc "1.prems" "1.prems"])
    with "1.prems" show ?thesis by simp
  qed
  then have "map (\<lambda>nc. (fst nc, case sel (child_name pfx (fst nc)) (snd nc) of Some r \<Rightarrow> r
           | None \<Rightarrow> replace_where sel (child_name pfx (fst nc)) (snd nc))) cs = cs"
    by (intro map_idI)
  then show ?case by simp
qed

lemma match_submodules_filter:
  "match_submodules m key = filter (contains key) (map fst (named_modules [] m))"
  by (simp add: match_submodules_def filter_map comp_def)

lemma inject_keys_replace_where:
  assumes wf: "wf_module m0"
    and ok: "\<And>c. f c = Inr (g c)"
    and leaves: "leaves_only m0 (ks1 @ ks2)"
    and prev: "\<And>kj p c n k'. kj \<in> set ks1 \<Longrightarrow> (p, c) \<in> set (named_modules [] m0) \<Longrightarrow>
                 contains kj p \<Longrightarrow> n \<in> fst ` set (named_modules p (g c)) \<Longrightarrow>
                 k' \<in> set ks2 \<Longrightarrow> \<not> contains k' n"
    and apart: "keys_apart m0 ks2 g"
    and D: "D = {p. (\<exists>c. (p, c) \<in> set (named_modules [] m0)) \<and> (\<exists>k \<in> set ks1. contains k p)}"
  shows "\<exists>D'. inject_keys f ks2 (replace_where (by_keys ks1 g) [] m0) D
               = (None, replace_where (by_keys (ks1 @ ks2) g) [] m0, D')"
  using leaves prev apart D
proof (induction ks2 arbitrary: ks1 D)
  case Nil
  show ?case by simp
next
  case (Cons k ks2)
  let ?sel = "by_keys ks1 g"
  have leaf: "p \<noteq> [] \<and> children c = []"
    if "(p, c) \<in> set (named_modules [] m0)" "k' \<in> set (ks1 @ k # ks2)" "contains k' p" for p c k'
    using Cons.prems(1) that unfolding leaves_only_def by force
  have names: "filter (contains k) (map fst (named_modules [] (replace_where ?sel [] m0)))
               = filter (contains k) (map fst (named_modules [] m0))"
  proof (rule names_replace_where)
    fix q c r assume mem: "(q, c) \<in> set (tl (named_modules [] m0))" and r: "?sel q c = Some r"
    from mem have mem': "(q, c) \<in> set (named_modules [] m0)" by (rule in_tl_named_modules)
    from r obtain kj where kj: "kj \<in> set ks1" "contains kj q" and rg: "r = g c"
      by (auto simp: by_keys_def split: if_splits)
    from leaf [OF mem', of kj] kj have "children c = []" by simp
    moreover have "\<forall>n \<in> fst ` set (named_modules q r). \<not> contains k n"
      using Cons.prems(2) [OF kj(1) mem' kj(2), of _ k] rg by simp
    ultimately show "children c = [] \<and> (\<forall>n \<in> fst ` set (named_modules q r). \<not> contains k n)"
      by simp
  qed
  then have ms: "match_submodules (replace_where ?sel [] m0) k = match_submodules m0 k"
    by (simp add: match_submodules_filter)
  let ?ps = "match_submodules m0 k"
  have inner: "inject_paths f ?ps (replace_where ?sel [] m0) D
         = (None, replace_where (\<lambda>q c. if q \<in> set ?ps then Some (g c) else ?sel q c) [] m0,
            D \<union> set ?ps)"
  proof (rule inject_paths_replace_where [OF wf ok])
    fix p assume "p \<in> set ?ps"
    then obtain c where "(p, c) \<in> set (named_modules [] m0)" "contains k p"
      by (auto simp: match_submodules_def)
    with leaf [of p c k]
    show "p \<noteq> [] \<and> (\<exists>c. (p, c) \<in> set (named_modules [] m0) \<and> children c = [])" by auto
  next
    fix q c assume mem: "(q, c) \<in> set (named_modules [] m0)" and "?sel q c \<noteq> None"
    then obtain kj where kj: "kj \<in> set ks1" "contains kj q"
      by (auto simp: by_keys_def split: if_splits)
    with leaf [OF mem, of kj] mem Cons.prems(4) show "children c = [] \<and> q \<in> D" by auto
  next
    fix q c assume "(q, c) \<in> set (named_modules [] m0)" "q \<in> D"
    with Cons.prems(4) show "?sel q c = Some (g c)" by (auto simp: by_keys_def)
  qed
  have model: "replace_where (\<lambda>q c. if q \<in> set ?ps then Some (g c) else ?sel q c) [] m0
               = replace_where (by_keys (ks1 @ [k]) g) [] m0"
  proof (rule replace_where_cong)
    fix q c assume "(q, c) \<in> set (tl (named_modules [] m0))"
    then have mem: "(q, c) \<in> set (named_modules [] m0)" by (rule in_tl_named_modules)
    then have "q \<in> set ?ps \<longleftrightarrow> contains k q"
      by (force simp: match_submodules_def)
    then show "(if q \<in> set ?ps then Some (g c) else ?sel q c) = by_keys (ks1 @ [k]) g q c"
      by (auto simp: by_keys_def)
  qed
  have psmem: "p \<in> set ?ps \<longleftrightarrow> (\<exists>c. (p, c) \<in> set (named_modules [] m0)) \<and> contains k p" for p
    by (force simp: match_submodules_def)
  have D1: "D \<union> set ?ps
            = {p. (\<exists>c. (p, c) \<in> set (named_modules [] m0)) \<and> (\<exists>k' \<in> set (ks1 @ [k]). contains k' p)}"
    unfolding Cons.prems(4) using psmem by auto
  have l1: "leaves_only m0 ((ks1 @ [k]) @ ks2)" using Cons.prems(1) by simp
  have p1: "\<not> contains k' n"
    if "kj \<in> set (ks1 @ [k])" "(p, c) \<in> set (named_modules [] m0)" "contains kj p"
       "n \<in> fst ` set (named_modules p (g c))" "k' \<in> set ks2" for kj p c n k'
  proof (cases "kj \<in> set ks1")
    case True
    from Cons.prems(2) [OF True that(2,3,4)] that(5) show ?thesis by simp
  next
    case False
    with that(1) have "kj = k" by simp
    with Cons.prems(3) that(2-5) show ?thesis by force
  qed
  from Cons.prems(3) have a1: "keys_apart m0 ks2 g" by simp
  have "\<exists>D'. inject_keys f ks2 (replace_where (by_keys (ks1 @ [k]) g) [] m0) (D \<union> set ?ps)
     = (None, replace_where (by_keys ((ks1 @ [k]) @ ks2) g) [] m0, D')"
  proof (rule Cons.IH [OF l1 _ a1 D1])
    fix kj p c n k'
    assume "kj \<in> set (ks1 @ [k])" "(p, c) \<in> set (named_modules [] m0)" "contains kj p"
       "n \<in> fst ` set (named_modules p (g c))" "k' \<in> set ks2"
    then show "\<not> contains k' n" by (rule p1)
  qed
  with inner model ms show ?case by simp
qed


lemma names_are_extensions:
  assumes "wf_module m" "q \<in> fst ` set (named_modules pfx m)"
  obtains xs where "atoms_ok xs" "q = extend_name pfx xs"
proof -
  from assms(2) obtain c where "(q, c) \<in> set (named_modules pfx m)" by auto
  from named_modules_extend [OF assms(1) this] that show thesis by blast
qed

lemma distinct_children_names:
  assumes "distinct (map fst cs)"
    and "\<And>nc. nc \<in> set cs \<Longrightarrow> fst nc \<noteq> [] \<and> CHR ''.'' \<notin> set (fst nc) \<and> wf_module (snd nc)"
    and "\<And>nc. nc \<in> set cs \<Longrightarrow> distinct (map fst (named_modules (child_name pfx (fst nc)) (snd nc)))"
  shows "distinct (concat (map (\<lambda>nc. map fst (named_modules (child_name pfx (fst nc)) (snd nc))) cs))"
  using assms
proof (induction cs)
  case Nil
  show ?case by simp
next
  case (Cons x cs)
  have d: "distinct (map fst cs)" using Cons.prems(1) by simp
  have ih: "distinct (concat (map (\<lambda>nc. map fst (named_modules (child_name pfx (fst nc)) (snd nc))) cs))"
    using Cons.prems(2,3) by (intro Cons.IH [OF d]) auto
  have hd: "distinct (map fst (named_modules (child_name pfx (fst x)) (snd x)))"
    using Cons.prems(3) by simp
  have disj: "q \<notin> set (concat (map (\<lambda>nc. map fst (named_modules (child_name pfx (fst nc)) (snd nc))) cs))"
    if q: "q \<in> set (map fst (named_modules (child_name pfx (fst x)) (snd x)))" for q
  proof
    assume "q \<in> set (concat (map (\<lambda>nc. map fst (named_modules (child_name pfx (fst nc)) (snd nc))) cs))"
    then obtain nc where nc: "nc \<in> set cs"
      "q \<in> fst ` set (named_modules (child_name pfx (fst nc)) (snd nc))" by auto
    from Cons.prems(2) [of x] have x: "fst x \<noteq> []" "CHR ''.'' \<notin> set (fst x)" "wf_module (snd x)"
      by simp_all
    from Cons.prems(2) [of nc] nc(1)
    have n: "fst nc \<noteq> []" "CHR ''.'' \<notin> set (fst nc)" "wf_module (snd nc)" by simp_all
    from q have q': "q \<in> fst ` set (named_modules (child_name pfx (fst x)) (snd x))" by simp
    from names_are_extensions [OF x(3) q'] obtain xs where xs: "atoms_ok xs"
      "q = extend_name (child_name pfx (fst x)) xs" by blast
    from names_are_extensions [OF n(3) nc(2)] obtain ys where ys: "atoms_ok ys"
      "q = extend_name (child_name pfx (fst nc)) ys" by blast
    have "atoms_ok (fst x # xs)" "atoms_ok (fst nc # ys)"
      using xs(1) ys(1) x n by (simp_all add: atoms_ok_def)
    moreover have "extend_name pfx (fst x # xs) = extend_name pfx (fst nc # ys)"
      using xs(2) ys(2) by simp
    ultimately have "fst x # xs = fst nc # ys" by (rule extend_name_inj)
    then have "fst x = fst nc" by simp
    with Cons.prems(1) nc(1) show False by force
  qed
  from hd ih disj show ?case by auto
qed

lemma distinct_names: "wf_module m \<Longrightarrow> distinct (map fst (named_modules pfx m))"
proof (induction pfx m rule: named_modules.induct)
  case (1 pfx i cs)
  have d: "distinct (map fst cs)" using "1.prems" by simp
  have wfc: "fst nc \<noteq> [] \<and> CHR ''.'' \<notin> set (fst nc) \<and> wf_module (snd nc)" if "nc \<in> set cs" for nc
    using "1.prems" that by simp
  have each: "distinct (map fst (named_modules (child_name pfx (fst nc)) (snd nc)))"
    if "nc \<in> set cs" for nc
    using "1.IH" [OF that] wfc [OF that] by simp
  have rest: "distinct (concat (map (\<lambda>nc. map fst (named_modules (child_name pfx (fst nc)) (snd nc))) cs))"
    by (rule distinct_children_names [OF d wfc each])
  have "pfx \<notin> set (concat (map (\<lambda>nc. map fst (named_modules (child_name pfx (fst nc)) (snd nc))) cs))"
  proof
    assume "pfx \<in> set (concat (map (\<lambda>nc. map fst (named_modules (child_name pfx (fst nc)) (snd nc))) cs))"
    then obtain nc where nc: "nc \<in> set cs"
      "pfx \<in> fst ` set (named_modules (child_name pfx (fst nc)) (snd nc))" by auto
    from wfc [OF nc(1)] have n: "fst nc \<noteq> []" "CHR ''.'' \<notin> set (fst nc)" "wf_module (snd nc)"
      by simp_all
    from names_are_extensions [OF n(3) nc(2)] obtain ys where ys: "atoms_ok ys"
      "pfx = extend_name (child_name pfx (fst nc)) ys" by blast
    have "atoms_ok (fst nc # ys)" "atoms_ok []" using ys(1) n by (simp_all add: atoms_ok_def)
    moreover have "extend_name pfx (fst nc # ys) = extend_name pfx []" using ys(2) by simp
    ultimately have "fst nc # ys = []" by (rule extend_name_inj)
    then show False by simp
  qed
  with rest show ?case by (simp add: map_concat comp_def)
qed

lemma distinct_match_submodules: "wf_module m \<Longrightarrow> distinct (match_submodules m key)"
  by (simp add: match_submodules_filter distinct_names)


lemma inject_paths_lora_replace_where:
  assumes wf: "wf_module m0"
    and ok: "\<And>c. f c = Inr (g c)"
    and ps: "\<And>p. p \<in> set ps \<Longrightarrow> p \<noteq> [] \<and>
               (\<exists>c. (p, c) \<in> set (named_modules [] m0) \<and> children c = [] \<and> hw (info c))"
    and dist: "distinct ps"
    and h: "\<And>q c. (q, c) \<in> set (named_modules [] m0) \<Longrightarrow> sel q c \<noteq> None \<Longrightarrow>
              children c = [] \<and> q \<notin> set ps"
  shows "inject_paths_lora hw f ps (replace_where sel [] m0)
         = (None, replace_where (\<lambda>q c. if q \<in> set ps then Some (g c) else sel q c) [] m0)"
  using ps dist h
proof (induction ps arbitrary: sel)
  case Nil
  show ?case by simp
next
  case (Cons p ps)
  from Cons.prems(1) [of p] obtain c where c: "p \<noteq> []" "(p, c) \<in> set (named_modules [] m0)"
    "children c = []" "hw (info c)" by auto
  have rest: "\<And>p. p \<in> set ps \<Longrightarrow> p \<noteq> [] \<and>
               (\<exists>c. (p, c) \<in> set (named_modules [] m0) \<and> children c = [] \<and> hw (info c))"
    using Cons.prems(1) by simp
  from Cons.prems(2) have d: "distinct ps" and pn: "p \<notin> set ps" by simp_all
  from Cons.prems(3) [OF c(2)] have here: "sel p c = None" by (cases "sel p c") auto
  have leafsel: "\<And>q c'. (q, c') \<in> set (named_modules [] m0) \<Longrightarrow> sel q c' \<noteq> None \<Longrightarrow> children c' = []"
    using Cons.prems(3) by blast
  note step = inject_step [where sel = sel, OF wf c(2,1,3) leafsel here]
  let ?sel1 = "sel_upd sel p (g c)"
  have a1: "children c' = [] \<and> q \<notin> set ps"
    if "(q, c') \<in> set (named_modules [] m0)" "?sel1 q c' \<noteq> None" for q c'
  proof (cases "q = p")
    case True
    with that(1) c(2) have "c' = c" using named_modules_unique [OF wf] by blast
    with True c(3) pn show ?thesis by simp
  next
    case False
    with that Cons.prems(3) [of q c'] show ?thesis by (simp add: sel_upd_def)
  qed
  have ih: "inject_paths_lora hw f ps (replace_where ?sel1 [] m0)
       = (None, replace_where (\<lambda>q c. if q \<in> set ps then Some (g c) else ?sel1 q c) [] m0)"
    by (rule Cons.IH [OF rest d a1])
  have "replace_where (\<lambda>q c. if q \<in> set ps then Some (g c) else ?sel1 q c) [] m0
        = replace_where (\<lambda>q c. if q \<in> set (p # ps) then Some (g c) else sel q c) [] m0"
  proof (rule replace_where_cong)
    fix q c' assume "(q, c') \<in> set (tl (named_modules [] m0))"
    then have mem: "(q, c') \<in> set (named_modules [] m0)" by (rule in_tl_named_modules)
    show "(if q \<in> set ps then Some (g c') else ?sel1 q c')
          = (if q \<in> set (p # ps) then Some (g c') else sel q c')"
    proof (cases "q = p")
      case True
      with mem c(2) have "c' = c" using named_modules_unique [OF wf] by blast
      with True show ?thesis by (simp add: sel_upd_def)
    next
      case False
      then show ?thesis by (simp add: sel_upd_def)
    qed
  qed
  with ih step ok [of c] c(4) show ?case by simp
qed

lemma inject_adapter_lora_replace_where:
  assumes wf: "wf_module m0"
    and ok: "\<And>c. f c = Inr (g c)"
    and leaves: "leaves_only m0 (ks1 @ ks2)"
    and weights: "\<And>p c k. (p, c) \<in> set (named_modules [] m0) \<Longrightarrow> k \<in> set ks2 \<Longrightarrow>
                    contains k p \<Longrightarrow> hw (info c)"
    and prev: "\<And>kj p c n k'. kj \<in> set ks1 \<Longrightarrow> (p, c) \<in> set (named_modules [] m0) \<Longrightarrow>
                 contains kj p \<Longrightarrow> n \<in> fst ` set (named_modules p (g c)) \<Longrightarrow>
                 k' \<in> set ks2 \<Longrightarrow> \<not> contains k' n"
    and apart: "keys_apart m0 ks2 g"
  shows "inject_adapter_lora hw (replace_where (by_keys ks1 g) [] m0) ks2 f
         = (None, replace_where (by_keys (ks1 @ ks2) g) [] m0)"
  using leaves weights prev apart
proof (induction ks2 arbitrary: ks1)
  case Nil
  show ?case by simp
next
  case (Cons k ks2)
  let ?sel = "by_keys ks1 g"
  have leaf: "p \<noteq> [] \<and> children c = []"
    if "(p, c) \<in> set (named_modules [] m0)" "k' \<in> set (ks1 @ k # ks2)" "contains k' p" for p c k'
    using Cons.prems(1) that unfolding leaves_only_def by force
  have names: "filter (contains k) (map fst (named_modules [] (replace_where ?sel [] m0)))
               = filter (contains k) (map fst (named_modules [] m0))"
  proof (rule names_replace_where)
    fix q c r assume mem: "(q, c) \<in> set (tl (named_modules [] m0))" and r: "?sel q c = Some r"
    from mem have mem': "(q, c) \<in> set (named_modules [] m0)" by (rule in_tl_named_modules)
    from r obtain kj where kj: "kj \<in> set ks1" "contains kj q" and rg: "r = g c"
      by (auto simp: by_keys_def split: if_splits)
    from leaf [OF mem', of kj] kj have "children c = []" by simp
    moreover have "\<forall>n \<in> fst ` set (named_modules q r). \<not> contains k n"
      using Cons.prems(3) [OF kj(1) mem' kj(2), of _ k] rg by simp
    ultimately show "children c = [] \<and> (\<forall>n \<in> fst ` set (named_modules q r). \<not> contains k n)"
      by simp
  qed
  then have ms: "match_submodules (replace_where ?sel [] m0) k = match_submodules m0 k"
    by (simp add: match_submodules_filter)
  let ?ps = "match_submodules m0 k"
  have psmem: "p \<in> set ?ps \<longleftrightarrow> (\<exists>c. (p, c) \<in> set (named_modules [] m0)) \<and> contains k p" for p
    by (force simp: match_submodules_def)
  have inner: "inject_paths_lora hw f ?ps (replace_where ?sel [] m0)
         = (None, replace_where (\<lambda>q c. if q \<in> set ?ps then Some (g c) else ?sel q c) [] m0)"
  proof (rule inject_paths_lora_replace_where [OF wf ok _ distinct_match_submodules [OF wf]])
    fix p assume "p \<in> set ?ps"
    then obtain c where c: "(p, c) \<in> set (named_modules [] m0)" "contains k p"
      using psmem by blast
    with leaf [of p c k] Cons.prems(2) [of p c k]
    show "p \<noteq> [] \<and> (\<exists>c. (p, c) \<in> set (named_modules [] m0) \<and> children c = [] \<and> hw (info c))"
      by auto
  next
    fix q c assume mem: "(q, c) \<in> set (named_modules [] m0)" and "?sel q c \<noteq> None"
    then obtain kj where kj: "kj \<in> set ks1" "contains kj q"
      by (auto simp: by_keys_def split: if_splits)
    have "(q, g c) \<in> set (named_modules q (g c))" by (rule named_modules_head)
    then have "q \<in> fst ` set (named_modules q (g c))" by force
    from Cons.prems(3) [OF kj(1) mem kj(2) this, of k] have "\<not> contains k q" by simp
    with leaf [OF mem, of kj] kj psmem show "children c = [] \<and> q \<notin> set ?ps" by auto
  qed
  have model: "replace_where (\<lambda>q c. if q \<in> set ?ps then Some (g c) else ?sel q c) [] m0
               = replace_where (by_keys (ks1 @ [k]) g) [] m0"
  proof (rule replace_where_cong)
    fix q c assume "(q, c) \<in> set (tl (named_modules [] m0))"
    then have mem: "(q, c) \<in> set (named_modules [] m0)" by (rule in_tl_named_modules)
    then have "q \<in> set ?ps \<longleftrightarrow> contains k q" using psmem by blast
    then show "(if q \<in> set ?ps then Some (g c) else ?sel q c) = by_keys (ks1 @ [k]) g q c"
      by (auto simp: by_keys_def)
  qed
  have l1: "leaves_only m0 ((ks1 @ [k]) @ ks2)" using Cons.prems(1) by simp
  have p1: "\<not> contains k' n"
    if "kj \<in> set (ks1 @ [k])" "(p, c) \<in> set (named_modules [] m0)" "contains kj p"
       "n \<in> fst ` set (named_modules p (g c))" "k' \<in> set ks2" for kj p c n k'
  proof (cases "kj \<in> set ks1")
    case True
    from Cons.prems(3) [OF True that(2,3,4)] that(5) show ?thesis by simp
  next
    case False
    with that(1) have "kj = k" by simp
    with Cons.prems(4) that(2-5) show ?thesis by force
  qed
  from Cons.prems(4) have a1: "keys_apart m0 ks2 g" by simp
  have "inject_adapter_lora hw (replace_where (by_keys (ks1 @ [k]) g) [] m0) ks2 f
     = (None, replace_where (by_keys ((ks1 @ [k]) @ ks2) g) [] m0)"
  proof (rule Cons.IH [OF l1 _ _ a1])
    fix p c k' assume "(p, c) \<in> set (named_modules [] m0)" "k' \<in> set ks2" "contains k' p"
    then show "hw (info c)" using Cons.prems(2) [of p c k'] by simp
  next
    fix kj p c n k'
    assume "kj \<in> set (ks1 @ [k])" "(p, c) \<in> set (named_modules [] m0)" "contains kj p"
       "n \<in> fst ` set (named_modules p (g c))" "k' \<in> set ks2"
    then show "\<not> contains k' n" by (rule p1)
  qed
  with inner model ms show ?case by simp
qed



section \<open>What \<^verbatim>\<open>inject_adapter\<close> does to the matched modules\<close>

lemma by_keys_nil: "by_keys [] g q c = None"
  by (simp add: by_keys_def)

lemma get_submodule_inject_spec:
  assumes wf: "wf_module model" and leaves: "leaves_only model match_on"
    and p: "(p, c) \<in> set (named_modules [] model)" "k \<in> set match_on" "contains k p"
  shows "get_submodule (inject_spec model match_on g) p = Inr (g c)"
proof -
  let ?sel = "by_keys match_on g"
  from leaves p have pne: "p \<noteq> []" and leaf: "children c = []"
    unfolding leaves_only_def by force+
  from named_modules_extend [OF wf p(1)] obtain xs where xs: "atoms_ok xs"
    "p = extend_name [] xs" "get_atoms model xs = Inr c" by blast
  from xs(2) pne have ne: "xs \<noteq> []" by auto
  then obtain atoms a where split: "xs = atoms @ [a]" by (cases xs rule: rev_cases) auto
  from xs(1) have ok: "\<forall>a \<in> set xs. a \<noteq> [] \<and> CHR ''.'' \<notin> set a" by (simp add: atoms_ok_def)
  have sd: "split_dot p = xs" unfolding xs(2) by (rule split_dot_extend_name_root(1) [OF ok ne])
  have u: "untouched ?sel [] model atoms"
  proof (rule untouched_nonleaf [OF wf])
    show "get_atoms model (atoms @ [a]) = Inr c" using xs(3) split by simp
  next
    fix q c' assume t: "(q, c') \<in> set (tl (named_modules [] model))" and nl: "children c' \<noteq> []"
    from t have "(q, c') \<in> set (named_modules [] model)" by (rule in_tl_named_modules)
    with leaves nl have "\<not> (\<exists>k \<in> set match_on. contains k q)"
      unfolding leaves_only_def by force
    then show "?sel q c' = None" by (simp add: by_keys_def)
  qed
  have s: "?sel (extend_name [] (atoms @ [a])) c = Some (g c)"
    using p(2,3) xs(2) split by (auto simp: by_keys_def)
  from get_atoms_replace_where_selected [OF _ u s] xs(3) split
  have "get_atoms (replace_where ?sel [] model) xs = Inr (g c)" by simp
  with pne sd show ?thesis by (simp add: get_submodule_def inject_spec_def)
qed

text \<open>
  Claim C2, for models in which every matched module is a leaf. Let the names of the
  model be well formed, let \<^verbatim>\<open>adapter_fn\<close> return normally (the module \<open>g c\<close> on \<open>c\<close>), let
  every submodule whose dotted path contains a key be a leaf other than the model itself,
  and let no later key occur in a path that a replacement under an earlier key brings in.
  Then both versions of \<^verbatim>\<open>inject_adapter\<close> return normally (the LoRA version when every
  matched module has a weight), and the model they leave is the original one with exactly
  the modules at the matched paths replaced by \<open>g\<close> of the module that was there: the
  module reachable at each matched path is that replacement, and every other path still
  leads to a module with the data it had.
\<close>

theorem inject_adapter_replaces_matched_leaves:
  assumes "wf_module model"
    and "\<forall>c. adapter_fn c = Inr (g c)"
    and "leaves_only model match_on"
    and "keys_apart model match_on g"
  shows "inject_adapter model match_on adapter_fn = (None, inject_spec model match_on g)
       \<and> ((\<forall>pc \<in> set (named_modules [] model).
              (\<exists>k \<in> set match_on. contains k (fst pc)) \<longrightarrow> has_weight (info (snd pc)))
            \<longrightarrow> inject_adapter_lora has_weight model match_on adapter_fn
                  = (None, inject_spec model match_on g))
       \<and> (\<forall>pc \<in> set (named_modules [] model).
             if \<exists>k \<in> set match_on. contains k (fst pc)
             then get_submodule (inject_spec model match_on g) (fst pc) = Inr (g (snd pc))
             else \<exists>c'. get_submodule (inject_spec model match_on g) (fst pc) = Inr c'
                       \<and> info c' = info (snd pc))"
proof -
  have ok: "\<And>c. adapter_fn c = Inr (g c)" using assms(2) by simp
  have start: "replace_where (by_keys [] g) [] model = model"
    by (rule replace_where_none) (rule by_keys_nil)
  have l: "leaves_only model ([] @ match_on)" using assms(3) by simp
  have "\<exists>D'. inject_keys adapter_fn match_on (replace_where (by_keys [] g) [] model) {}
               = (None, replace_where (by_keys ([] @ match_on) g) [] model, D')"
    by (rule inject_keys_replace_where [OF assms(1) ok l _ assms(4)]) simp_all
  then obtain D' where run: "inject_keys adapter_fn match_on model {}
      = (None, inject_spec model match_on g, D')"
    unfolding start by (auto simp: inject_spec_def)
  then have first: "inject_adapter model match_on adapter_fn = (None, inject_spec model match_on g)"
    by (simp add: inject_adapter_def)
  have second: "inject_adapter_lora has_weight model match_on adapter_fn
                  = (None, inject_spec model match_on g)"
    if hw: "\<forall>pc \<in> set (named_modules [] model).
              (\<exists>k \<in> set match_on. contains k (fst pc)) \<longrightarrow> has_weight (info (snd pc))"
  proof -
    have "inject_adapter_lora has_weight (replace_where (by_keys [] g) [] model) match_on adapter_fn
          = (None, replace_where (by_keys ([] @ match_on) g) [] model)"
    proof (rule inject_adapter_lora_replace_where [OF assms(1) ok l _ _ assms(4)])
      fix p c k assume "(p, c) \<in> set (named_modules [] model)" "k \<in> set match_on" "contains k p"
      with hw show "has_weight (info c)" by force
    qed simp
    then show ?thesis unfolding start by (simp add: inject_spec_def)
  qed
  have third: "if \<exists>k \<in> set match_on. contains k (fst pc)
             then get_submodule (inject_spec model match_on g) (fst pc) = Inr (g (snd pc))
             else \<exists>c'. get_submodule (inject_spec model match_on g) (fst pc) = Inr c'
                       \<and> info c' = info (snd pc)"
    if pc: "pc \<in> set (named_modules [] model)" for pc
  proof (cases "\<exists>k \<in> set match_on. contains k (fst pc)")
    case True
    then obtain k where "k \<in> set match_on" "contains k (fst pc)" by blast
    from get_submodule_inject_spec [OF assms(1,3) _ this, of "snd pc" g] pc True
    show ?thesis by simp
  next
    case False
    then have no: "\<forall>k \<in> set match_on. \<not> contains k (fst pc)" by blast
    have g0: "get_submodule model (fst pc) = Inr (snd pc)"
      using pc by (intro named_modules_get_submodule [OF assms(1)]) simp
    from inject_keys_frame [OF no g0, of adapter_fn "{}"] run False show ?thesis by simp
  qed
  from first second third show ?thesis by blast
qed


theorem inject_adapter_replaces_matched_leaves_witness:
  "wf_module (Module (0::nat) [(''attn'', Module 1 [(''k_proj'', Module 2 []), (''v_proj'', Module 3 [])]),
                               (''lm_head'', Module 4 [])])
   \<and> leaves_only (Module (0::nat) [(''attn'', Module 1 [(''k_proj'', Module 2 []), (''v_proj'', Module 3 [])]),
                               (''lm_head'', Module 4 [])]) [''k_proj'', ''v_proj'']
   \<and> keys_apart (Module (0::nat) [(''attn'', Module 1 [(''k_proj'', Module 2 []), (''v_proj'', Module 3 [])]),
                               (''lm_head'', Module 4 [])]) [''k_proj'', ''v_proj'']
        (\<lambda>c. Module 9 [(''existing_layer'', c)])
   \<and> match_submodules (Module (0::nat) [(''attn'', Module 1 [(''k_proj'', Module 2 []), (''v_proj'', Module 3 [])]),
                               (''lm_head'', Module 4 [])]) ''k_proj'' = [''attn.k_proj'']
   \<and> inject_adapter (Module (0::nat) [(''attn'', Module 1 [(''k_proj'', Module 2 []), (''v_proj'', Module 3 [])]),
                               (''lm_head'', Module 4 [])]) [''k_proj'', ''v_proj'']
        (\<lambda>c. Inr (Module 9 [(''existing_layer'', c)]))
      = (None, Module 0 [(''attn'', Module 1 [(''k_proj'', Module 9 [(''existing_layer'', Module 2 [])]),
                                              (''v_proj'', Module 9 [(''existing_layer'', Module 3 [])])]),
                         (''lm_head'', Module 4 [])])
   \<and> inject_adapter_lora (\<lambda>i. True)
        (Module (0::nat) [(''attn'', Module 1 [(''k_proj'', Module 2 []), (''v_proj'', Module 3 [])]),
                               (''lm_head'', Module 4 [])]) [''k_proj'', ''v_proj'']
        (\<lambda>c. Inr (Module 9 [(''existing_layer'', c)]))
      = (None, Module 0 [(''attn'', Module 1 [(''k_proj'', Module 9 [(''existing_layer'', Module 2 [])]),
                                              (''v_proj'', Module 9 [(''existing_layer'', Module 3 [])])]),
                         (''lm_head'', Module 4 [])])
   \<and> get_submodule (Module (0::nat)
          [(''attn'', Module 1 [(''k_proj'', Module 9 [(''existing_layer'', Module 2 [])]),
                                (''v_proj'', Module 9 [(''existing_layer'', Module 3 [])])]),
           (''lm_head'', Module 4 [])]) ''attn.v_proj''
      = Inr (Module 9 [(''existing_layer'', Module 3 [])])"
proof -
  let ?m = "Module (0::nat) [(''attn'', Module 1 [(''k_proj'', Module 2 []), (''v_proj'', Module 3 [])]),
                             (''lm_head'', Module 4 [])]"
  let ?m' = "Module (0::nat)
          [(''attn'', Module 1 [(''k_proj'', Module 9 [(''existing_layer'', Module 2 [])]),
                                (''v_proj'', Module 9 [(''existing_layer'', Module 3 [])])]),
           (''lm_head'', Module 4 [])]"
  let ?g = "\<lambda>c. Module (9::nat) [(''existing_layer'', c)]"
  let ?f = "\<lambda>c. Inr (Module 9 [(''existing_layer'', c)]) :: error + nat module"
  let ?ks = "[''k_proj'', ''v_proj'']"
  have wf: "wf_module ?m" by simp
  have tot: "\<forall>c. ?f c = Inr (?g c)" by simp
  have lv: "leaves_only ?m ?ks" by code_simp
  have ka: "keys_apart ?m ?ks ?g" by code_simp
  have ms: "match_submodules ?m ''k_proj'' = [''attn.k_proj'']" by code_simp
  have sp: "inject_spec ?m ?ks ?g = ?m'" by code_simp
  have nm: "(''attn.v_proj'', Module 3 []) \<in> set (named_modules [] ?m)" by code_simp
  have ct: "contains ''v_proj'' ''attn.v_proj''" by code_simp
  note t = inject_adapter_replaces_matched_leaves [where has_weight = "\<lambda>i. True", OF wf tot lv ka]
  from t have a: "inject_adapter ?m ?ks ?f = (None, ?m')" unfolding sp by blast
  from t have b: "inject_adapter_lora (\<lambda>i. True) ?m ?ks ?f = (None, ?m')" unfolding sp by blast
  from t have "\<forall>pc \<in> set (named_modules [] ?m).
             if \<exists>k \<in> set ?ks. contains k (fst pc)
             then get_submodule ?m' (fst pc) = Inr (?g (snd pc))
             else \<exists>c'. get_submodule ?m' (fst pc) = Inr c' \<and> info c' = info (snd pc)"
    unfolding sp by blast
  from bspec [OF this nm] ct
  have c: "get_submodule ?m' ''attn.v_proj'' = Inr (Module 9 [(''existing_layer'', Module 3 [])])"
    by (simp del: named_modules.simps)
  from wf lv ka ms a b c show ?thesis by blast
qed

text \<open>
  Without the restriction to leaves the steps differ. When a matched module has a matched
  descendant, the descendant's path no longer resolves once the ancestor is wrapped, and
  the call ends with an AttributeError. When a model that already holds an adapter at
  \<^verbatim>\<open>k_proj\<close> is injected again, \<^verbatim>\<open>k_proj.existing_layer\<close> matches as well, and the module
  left at \<^verbatim>\<open>k_proj\<close> wraps the old one twice, as the IA3 notebook's printed model shows.
\<close>

theorem inject_adapter_nested_match_counterexample:
  "match_submodules (Module (0::nat) [(''mlp'', Module 1 [(''fc'', Module 2 [])])]) ''mlp''
      = [''mlp'', ''mlp.fc'']
   \<and> inject_adapter (Module (0::nat) [(''mlp'', Module 1 [(''fc'', Module 2 [])])]) [''mlp'']
        (\<lambda>c. Inr (Module 9 [(''existing_layer'', c)]))
      = (Some AttributeError,
         Module 0 [(''mlp'', Module 9 [(''existing_layer'', Module 1 [(''fc'', Module 2 [])])])])
   \<and> get_submodule (Module (0::nat)
          [(''mlp'', Module 9 [(''existing_layer'', Module 1 [(''fc'', Module 2 [])])])]) ''mlp.fc''
      = Inl AttributeError
   \<and> match_submodules (Module (0::nat) [(''k_proj'', Module 8 [(''existing_layer'', Module 1 [])])])
        ''k_proj'' = [''k_proj'', ''k_proj.existing_layer'']
   \<and> inject_adapter (Module (0::nat) [(''k_proj'', Module 8 [(''existing_layer'', Module 1 [])])])
        [''k_proj''] (\<lambda>c. Inr (Module 9 [(''existing_layer'', c)]))
      = (None, Module 0 [(''k_proj'', Module 9 [(''existing_layer'',
                  Module 9 [(''existing_layer'', Module 8 [(''existing_layer'', Module 1 [])])])])])
   \<and> Module 9 [(''existing_layer'',
          Module 9 [(''existing_layer'', Module 8 [(''existing_layer'', Module 1 [])])])]
      \<noteq> Module 9 [(''existing_layer'', Module (8::nat) [(''existing_layer'', Module 1 [])])]"
proof -
  have a: "match_submodules (Module (0::nat) [(''mlp'', Module 1 [(''fc'', Module 2 [])])]) ''mlp''
      = [''mlp'', ''mlp.fc'']" by code_simp
  have b: "inject_adapter (Module (0::nat) [(''mlp'', Module 1 [(''fc'', Module 2 [])])]) [''mlp'']
        (\<lambda>c. Inr (Module 9 [(''existing_layer'', c)]))
      = (Some AttributeError,
         Module 0 [(''mlp'', Module 9 [(''existing_layer'', Module 1 [(''fc'', Module 2 [])])])])"
    by code_simp
  have c: "get_submodule (Module (0::nat)
          [(''mlp'', Module 9 [(''existing_layer'', Module 1 [(''fc'', Module 2 [])])])]) ''mlp.fc''
      = Inl AttributeError" by code_simp
  have d: "match_submodules (Module (0::nat) [(''k_proj'', Module 8 [(''existing_layer'', Module 1 [])])])
        ''k_proj'' = [''k_proj'', ''k_proj.existing_layer'']" by code_simp
  have e: "inject_adapter (Module (0::nat) [(''k_proj'', Module 8 [(''existing_layer'', Module 1 [])])])
        [''k_proj''] (\<lambda>c. Inr (Module 9 [(''existing_layer'', c)]))
      = (None, Module 0 [(''k_proj'', Module 9 [(''existing_layer'',
                  Module 9 [(''existing_layer'', Module 8 [(''existing_layer'', Module 1 [])])])])])"
    by code_simp
  from a b c d e show ?thesis by simp
qed


section \<open>Exceptions of callees reach the caller\<close>

text \<open>
  A run of two statements in a row is the run of the first and, when it returns, the run
  of the second on the answers that are left.
\<close>

lemma run_bind_prog:
  "run (bind_prog p k) answers =
     (case run p answers of
        (Inl e, trace) \<Rightarrow> (Inl e, trace)
      | (Inr v, trace) \<Rightarrow>
          (case run (k v) (\<lambda>n. answers (n + length trace)) of
             (r, trace') \<Rightarrow> (r, trace @ trace')))"
proof (induction p arbitrary: answers)
  case (Returns r)
  show ?case by (simp split: prod.splits)
next
  case (Raises e)
  show ?case by simp
next
  case (Calls f args c)
  have "run (bind_prog (c (answers 0)) k) (\<lambda>n. answers (Suc n)) =
     (case run (c (answers 0)) (\<lambda>n. answers (Suc n)) of
        (Inl e, trace) \<Rightarrow> (Inl e, trace)
      | (Inr v, trace) \<Rightarrow>
          (case run (k v) (\<lambda>n. answers (Suc (n + length trace))) of
             (r, trace') \<Rightarrow> (r, trace @ trace')))"
    by (rule Calls.IH [of "c (answers 0)" "\<lambda>n. answers (Suc n)", simplified])
  then show ?case by (simp split: prod.splits sum.splits)
qed

lemma propagatesD:
  assumes "propagates p" and "i < length (snd (run p answers))"
    and "snd (snd (snd (run p answers) ! i)) = Inl e"
  shows "Suc i = length (snd (run p answers)) \<and> fst (run p answers) = Inl e"
proof -
  obtain r trace where r: "run p answers = (r, trace)" by (cases "run p answers")
  from assms(1) [unfolded propagates_def]
  have "case run p answers of (r, trace) \<Rightarrow>
        (\<forall>i < length trace. \<forall>e. snd (snd (trace ! i)) = Inl e \<longrightarrow>
           Suc i = length trace \<and> r = Inl e)"
    by (rule spec)
  with r assms(2,3) show ?thesis by simp
qed

lemma propagates_Returns: "propagates (Returns r)"
  by (simp add: propagates_def)

lemma propagates_call: "propagates (call f args)"
  by (simp add: propagates_def call_def split: sum.splits)

lemma propagates_bind_prog:
  assumes "propagates p" and "\<And>v. propagates (k v)"
  shows "propagates (bind_prog p k)"
  unfolding propagates_def
proof (intro allI)
  fix answers
  obtain r1 t1 where r1: "run p answers = (r1, t1)" by (cases "run p answers")
  from assms(1) r1 have p1: "\<forall>i < length t1. \<forall>e. snd (snd (t1 ! i)) = Inl e \<longrightarrow>
           Suc i = length t1 \<and> r1 = Inl e"
    unfolding propagates_def by (metis (mono_tags, lifting) case_prod_conv)
  show "case run (bind_prog p k) answers of (r, trace) \<Rightarrow>
        (\<forall>i < length trace. \<forall>e. snd (snd (trace ! i)) = Inl e \<longrightarrow>
           Suc i = length trace \<and> r = Inl e)"
  proof (cases r1)
    case (Inl e)
    with r1 p1 show ?thesis by (simp add: run_bind_prog)
  next
    case (Inr v)
    obtain r2 t2 where r2: "run (k v) (\<lambda>n. answers (n + length t1)) = (r2, t2)"
      by (cases "run (k v) (\<lambda>n. answers (n + length t1))")
    from assms(2) [of v] r2 have p2: "\<forall>i < length t2. \<forall>e. snd (snd (t2 ! i)) = Inl e \<longrightarrow>
           Suc i = length t2 \<and> r2 = Inl e"
      unfolding propagates_def by (metis (mono_tags, lifting) case_prod_conv)
    have "\<forall>i < length (t1 @ t2). \<forall>e. snd (snd ((t1 @ t2) ! i)) = Inl e \<longrightarrow>
           Suc i = length (t1 @ t2) \<and> r2 = Inl e"
    proof (intro allI impI)
      fix i e assume i: "i < length (t1 @ t2)" and e: "snd (snd ((t1 @ t2) ! i)) = Inl e"
      show "Suc i = length (t1 @ t2) \<and> r2 = Inl e"
      proof (cases "i < length t1")
        case True
        with e p1 Inr show ?thesis by (auto simp: nth_append)
      next
        case False
        with i have "i - length t1 < length t2" by simp
        moreover from False e have "snd (snd (t2 ! (i - length t1))) = Inl e"
          by (simp add: nth_append)
        ultimately have "Suc (i - length t1) = length t2 \<and> r2 = Inl e" using p2 by blast
        with False i show ?thesis by auto
      qed
    qed
    with r1 Inr r2 show ?thesis by (simp add: run_bind_prog)
  qed
qed

lemma propagates_if:
  "propagates p \<Longrightarrow> propagates q \<Longrightarrow> propagates (if b then p else q)"
  by simp

lemma propagates_for_loop:
  assumes "\<And>x s. propagates (body x s)"
  shows "propagates (for_loop xs s body)"
proof (induction xs arbitrary: s)
  case Nil
  show ?case by (simp add: propagates_Returns)
next
  case (Cons x xs)
  show ?case
    by (simp del: bind_prog.simps, rule propagates_bind_prog [OF assms])
       (simp add: propagates_Returns Cons.IH)
qed

text \<open>
  The property tells handlers apart: a function that turns any answer of its callee, also
  an exception, into \<^verbatim>\<open>None\<close>, as \<^verbatim>\<open>try: f() except: pass\<close> would, does not have it.
\<close>

lemma swallowing_does_not_propagate:
  "\<not> propagates (Calls f args (\<lambda>a. Returns (Lit ''None'')))"
  unfolding propagates_def
  by (auto intro!: exI [of _ "\<lambda>n. Inl RuntimeError"])


lemma propagates_IA3Adapter1_init: "propagates (IA3Adapter1_init_calls truth self existing_layer' in_features' out_features' ia3_lr is_feedforward')"
  unfolding IA3Adapter1_init_calls_def
  by (intro propagates_bind_prog propagates_call propagates_Returns propagates_for_loop
        propagates_if )

lemma propagates_IA3Adapter1_forward: "propagates (IA3Adapter1_forward_calls truth self x)"
  unfolding IA3Adapter1_forward_calls_def
  by (intro propagates_bind_prog propagates_call propagates_Returns propagates_for_loop
        propagates_if )

lemma propagates_ia3_params: "propagates (ia3_params_calls truth model)"
  unfolding ia3_params_calls_def
  by (intro propagates_bind_prog propagates_call propagates_Returns propagates_for_loop
        propagates_if )

lemma propagates_match_submodules: "propagates (match_submodules_calls truth model key)"
  unfolding match_submodules_calls_def
  by (intro propagates_bind_prog propagates_call propagates_Returns propagates_for_loop
        propagates_if )

lemma propagates_get_submodule: "propagates (get_submodule_calls model module_name)"
  unfolding get_submodule_calls_def
  by (intro propagates_bind_prog propagates_call propagates_Returns propagates_for_loop
        propagates_if )

lemma propagates_replace_submodule: "propagates (replace_submodule_calls model module_path new_module)"
  unfolding replace_submodule_calls_def
  by (intro propagates_bind_prog propagates_call propagates_Returns propagates_for_loop
        propagates_if )

lemma propagates_inject_adapter: "propagates (inject_adapter_calls truth model match_on adapter_fn)"
  unfolding inject_adapter_calls_def
  by (intro propagates_bind_prog propagates_call propagates_Returns propagates_for_loop
        propagates_if propagates_match_submodules propagates_get_submodule propagates_replace_submodule)

lemma propagates_IA3Adapter2_init: "propagates (IA3Adapter2_init_calls truth self existing_layer' in_features' out_features' ia3_lr is_feedforward')"
  unfolding IA3Adapter2_init_calls_def
  by (intro propagates_bind_prog propagates_call propagates_Returns propagates_for_loop
        propagates_if )

lemma propagates_get_equivalent_weight: "propagates (get_equivalent_weight_calls truth self)"
  unfolding get_equivalent_weight_calls_def
  by (intro propagates_bind_prog propagates_call propagates_Returns propagates_for_loop
        propagates_if )

lemma propagates_get_equivalent_bias: "propagates (get_equivalent_bias_calls truth self)"
  unfolding get_equivalent_bias_calls_def
  by (intro propagates_bind_prog propagates_call propagates_Returns propagates_for_loop
        propagates_if )

lemma propagates_IA3Adapter2_forward: "propagates (IA3Adapter2_forward_calls truth self x)"
  unfolding IA3Adapter2_forward_calls_def
  by (intro propagates_bind_prog propagates_call propagates_Returns propagates_for_loop
        propagates_if propagates_get_equivalent_weight propagates_get_equivalent_bias)

lemma propagates_IA3Adapter1_adapter_fn: "propagates (IA3Adapter1_adapter_fn_calls truth x)"
  unfolding IA3Adapter1_adapter_fn_calls_def
  by (intro propagates_bind_prog propagates_call propagates_Returns propagates_for_loop
        propagates_if propagates_IA3Adapter1_init)

lemma propagates_IA3Adapter2_adapter_fn: "propagates (IA3Adapter2_adapter_fn_calls truth x)"
  unfolding IA3Adapter2_adapter_fn_calls_def
  by (intro propagates_bind_prog propagates_call propagates_Returns propagates_for_loop
        propagates_if propagates_IA3Adapter2_init)

lemma propagates_calculate_memory_kv_down_proj: "propagates (calculate_memory_kv_down_proj_calls batch_size seq_len hidden_dim intermediate_dim)"
  unfolding calculate_memory_kv_down_proj_calls_def
  by (intro propagates_bind_prog propagates_call propagates_Returns propagates_for_loop
        propagates_if )

lemma propagates_LoRALayer_init: "propagates (LoRALayer_init_calls truth self r lora_alpha' lora_dropout')"
  unfolding LoRALayer_init_calls_def
  by (intro propagates_bind_prog propagates_call propagates_Returns propagates_for_loop
        propagates_if )

lemma propagates_identity_dropout: "propagates (identity_dropout_calls x)"
  unfolding identity_dropout_calls_def
  by (intro propagates_bind_prog propagates_call propagates_Returns propagates_for_loop
        propagates_if )

lemma propagates_reset_parameters: "propagates (reset_parameters_calls truth self)"
  unfolding reset_parameters_calls_def
  by (intro propagates_bind_prog propagates_call propagates_Returns propagates_for_loop
        propagates_if )

lemma propagates_LoRAAdapter_init: "propagates (LoRAAdapter_init_calls truth self existing_layer' in_features' out_features' r lora_alpha' lora_dropout')"
  unfolding LoRAAdapter_init_calls_def
  by (intro propagates_bind_prog propagates_call propagates_Returns propagates_for_loop
        propagates_if propagates_LoRALayer_init propagates_reset_parameters)

lemma propagates_LoRAAdapter_train: "propagates (LoRAAdapter_train_calls self mode)"
  unfolding LoRAAdapter_train_calls_def
  by (intro propagates_bind_prog propagates_call propagates_Returns propagates_for_loop
        propagates_if )

lemma propagates_LoRAAdapter_forward: "propagates (LoRAAdapter_forward_calls truth self x)"
  unfolding LoRAAdapter_forward_calls_def
  by (intro propagates_bind_prog propagates_call propagates_Returns propagates_for_loop
        propagates_if )

lemma propagates_mark_only_lora_as_trainable: "propagates (mark_only_lora_as_trainable_calls truth model)"
  unfolding mark_only_lora_as_trainable_calls_def
  by (intro propagates_bind_prog propagates_call propagates_Returns propagates_for_loop
        propagates_if )

lemma propagates_inject_adapter_lora: "propagates (inject_adapter_lora_calls truth model match_on adapter_fn)"
  unfolding inject_adapter_lora_calls_def
  by (intro propagates_bind_prog propagates_call propagates_Returns propagates_for_loop
        propagates_if propagates_match_submodules propagates_get_submodule propagates_replace_submodule)

lemma propagates_LoRA_adapter_fn: "propagates (LoRA_adapter_fn_calls truth x)"
  unfolding LoRA_adapter_fn_calls_def
  by (intro propagates_bind_prog propagates_call propagates_Returns propagates_for_loop
        propagates_if propagates_LoRAAdapter_init)

lemma propagates_tokenize_function: "propagates (tokenize_function_calls examples)"
  unfolding tokenize_function_calls_def
  by (intro propagates_bind_prog propagates_call propagates_Returns propagates_for_loop
        propagates_if )

lemma propagates_finetune_causal_model: "propagates (finetune_causal_model_calls model train_dataset epochs learning_rate)"
  unfolding finetune_causal_model_calls_def
  by (intro propagates_bind_prog propagates_call propagates_Returns propagates_for_loop
        propagates_if )

lemma propagates_split_into_chunks: "propagates (split_into_chunks_calls chunk_text chunk_size)"
  unfolding split_into_chunks_calls_def
  by (intro propagates_bind_prog propagates_call propagates_Returns propagates_for_loop
        propagates_if )

lemma propagates_calc_perplexity: "propagates (calc_perplexity_calls truth model encodings stride)"
  unfolding calc_perplexity_calls_def
  by (intro propagates_bind_prog propagates_call propagates_Returns propagates_for_loop
        propagates_if )

lemma propagates_apply_dynamic_quantization: "propagates (apply_dynamic_quantization_calls model)"
  unfolding apply_dynamic_quantization_calls_def
  by (intro propagates_bind_prog propagates_call propagates_Returns propagates_for_loop
        propagates_if )

lemma propagates_evaluate_model: "propagates (evaluate_model_calls model data_loader)"
  unfolding evaluate_model_calls_def
  by (intro propagates_bind_prog propagates_call propagates_Returns propagates_for_loop
        propagates_if )

lemma propagates_evaluate_model_qat: "propagates (evaluate_model_qat_calls model data_loader)"
  unfolding evaluate_model_qat_calls_def
  by (intro propagates_bind_prog propagates_call propagates_Returns propagates_for_loop
        propagates_if )

lemma propagates_train_model: "propagates (train_model_calls model train_dataloader num_epochs)"
  unfolding train_model_calls_def
  by (intro propagates_bind_prog propagates_call propagates_Returns propagates_for_loop
        propagates_if )

lemma propagates_set_qconfig_for_model: "propagates (set_qconfig_for_model_calls truth model)"
  unfolding set_qconfig_for_model_calls_def
  by (intro propagates_bind_prog propagates_call propagates_Returns propagates_for_loop
        propagates_if )

text \<open>
  Claim C7. None of the functions the notebooks define catches, changes or drops an
  exception: whatever its callees answer, a call that is answered by an exception is the
  last call the function makes, and the function ends in that same exception. Hence a
  function that returns normally made no call that raised, and one that made a call that
  raised hands that exception, unchanged, to its caller.
\<close>

theorem callee_exceptions_propagate:
  "\<forall>f \<in> set (notebook_functions truth arg). propagates (snd f)"
  unfolding notebook_functions_def
  by (simp add: propagates_IA3Adapter1_init propagates_IA3Adapter1_forward propagates_ia3_params
      propagates_match_submodules propagates_get_submodule propagates_replace_submodule
      propagates_inject_adapter propagates_IA3Adapter2_init propagates_get_equivalent_weight
      propagates_get_equivalent_bias propagates_IA3Adapter2_forward propagates_IA3Adapter1_adapter_fn
      propagates_IA3Adapter2_adapter_fn propagates_calculate_memory_kv_down_proj propagates_LoRALayer_init
      propagates_identity_dropout propagates_reset_parameters propagates_LoRAAdapter_init
      propagates_LoRAAdapter_train propagates_LoRAAdapter_forward propagates_mark_only_lora_as_trainable
      propagates_inject_adapter_lora propagates_LoRA_adapter_fn propagates_tokenize_function
      propagates_finetune_causal_model propagates_split_into_chunks propagates_calc_perplexity
      propagates_apply_dynamic_quantization propagates_evaluate_model propagates_evaluate_model_qat
      propagates_train_model propagates_set_qconfig_for_model)

theorem callee_exceptions_propagate_witness:
  "fst (run (replace_submodule_calls (Lit ''model'') (Lit ''attn.k_proj'') (Lit ''adapter''))
          (\<lambda>n. if n = 0 then Inr (Tuple [Lit ''attn'', Lit ''k_proj''])
               else if n = 1 then Inr (Tuple [Lit ''attn''])
               else Inl AttributeError))
     = Inl AttributeError
   \<and> map fst (snd (run (replace_submodule_calls (Lit ''model'') (Lit ''attn.k_proj'') (Lit ''adapter''))
          (\<lambda>n. if n = 0 then Inr (Tuple [Lit ''attn'', Lit ''k_proj''])
               else if n = 1 then Inr (Tuple [Lit ''attn''])
               else Inl AttributeError)))
     = [''split'', ''getitem'', ''getattr'']"
proof -
  let ?p = "replace_submodule_calls (Lit ''model'') (Lit ''attn.k_proj'') (Lit ''adapter'')"
  let ?answers = "\<lambda>n::nat. if n = 0 then Inr (Tuple [Lit ''attn'', Lit ''k_proj''])
               else if n = 1 then Inr (Tuple [Lit ''attn''])
               else Inl AttributeError :: error + pyval"
  let ?arg = "\<lambda>n::nat. if n = 0 then Lit ''model'' else if n = 1 then Lit ''attn.k_proj''
               else Lit ''adapter''"
  have calls: "snd (run ?p ?answers)
      = [(''split'', [Lit ''attn.k_proj'', Lit ''.''], Inr (Tuple [Lit ''attn'', Lit ''k_proj''])),
         (''getitem'', [Tuple [Lit ''attn'', Lit ''k_proj''], Op ''slice'' [Lit ''None'', Lit ''-1'']],
            Inr (Tuple [Lit ''attn''])),
         (''getattr'', [Lit ''model'', Lit ''attn''], Inl AttributeError)]"
    by (simp add: replace_submodule_calls_def call_def split: prod.splits)
  have "(''replace_submodule'', ?p) \<in> set (notebook_functions (\<lambda>v. v = Lit ''True'') ?arg)"
    by (simp add: notebook_functions_def)
  with callee_exceptions_propagate [of "\<lambda>v. v = Lit ''True''" ?arg] have "propagates ?p"
    by fastforce
  then have "2 < length (snd (run ?p ?answers)) \<Longrightarrow>
      snd (snd (snd (run ?p ?answers) ! 2)) = Inl AttributeError \<Longrightarrow>
      fst (run ?p ?answers) = Inl AttributeError"
    using propagatesD [of ?p 2 ?answers AttributeError] by blast
  then have "fst (run ?p ?answers) = Inl AttributeError"
    unfolding calls by simp
  with calls show ?thesis by simp
qed

end
